(* ===== verification/Prelude.thy ===== *)
theory Prelude
  imports Main "HOL-Library.Word"
begin

text \<open>
  Shared vocabulary of the development.

  \<^item> Python text. A \<open>str\<close> is an Isabelle \<open>string\<close> whose characters are read as the
    Unicode code points U+0000 to U+00FF. The chat protocol decodes everything it receives
    as Latin-1 (\<open>aochat/client.py\<close>), so this is the whole range of text that reaches the
    bot from the game. Bytes are \<open>8 word\<close>.
  \<^item> Python exceptions, one constructor per exception the modelled code raises or lets
    through, and the two result shapes: \<open>exn + 'a\<close> for pure code and a state monad over an
    arbitrary world for code with effects. An exception keeps the state reached so far, as
    in Python, where nothing is rolled back.
  \<^item> The invariant calculus \<open>keeps\<close> for that monad.
\<close>

section \<open>Collections of facts\<close>

named_theorems keeps "operations that keep an invariant of the state"
named_theorems raising "the exceptions an operation can raise"
named_theorems guards "the exceptions an operation can raise under an invariant"
named_theorems py_text "characters, decimal notation, trimming"

section \<open>Bytes and text\<close>

type_synonym byte = "8 word"
type_synonym bytes = "byte list"

definition ordc :: "char \<Rightarrow> nat" where
  "ordc c = of_char c"

text \<open>\<open>str.isspace\<close> and the class \<open>\s\<close> of \<open>re\<close> on U+0000 to U+00FF.\<close>

definition is_space :: "char \<Rightarrow> bool" where
  "is_space c \<longleftrightarrow>
     (9 \<le> ordc c \<and> ordc c \<le> 13) \<or> (28 \<le> ordc c \<and> ordc c \<le> 32) \<or> ordc c = 133 \<or> ordc c = 160"

definition is_digit :: "char \<Rightarrow> bool" where
  "is_digit c \<longleftrightarrow> 48 \<le> ordc c \<and> ordc c \<le> 57"

text \<open>\<open>str.lower\<close> on U+0000 to U+00FF: the ASCII letters, and the Latin-1 capitals.\<close>

definition lower_char :: "char \<Rightarrow> char" where
  "lower_char c =
     (if (65 \<le> ordc c \<and> ordc c \<le> 90) \<or> (192 \<le> ordc c \<and> ordc c \<le> 222 \<and> ordc c \<noteq> 215)
      then char_of (ordc c + 32) else c)"

definition lower :: "string \<Rightarrow> string" where
  "lower s = map lower_char s"

definition strip :: "string \<Rightarrow> string" where
  "strip s = rev (dropWhile is_space (rev (dropWhile is_space s)))"

text \<open>\<open>bytes.decode("latin-1")\<close>: byte \<open>n\<close> is the character U+00\<open>n\<close>.\<close>

definition latin1_decode :: "bytes \<Rightarrow> string" where
  "latin1_decode bs = map (\<lambda>b. char_of (unat b)) bs"

text \<open>\<open>str.encode()\<close>: UTF-8, one byte below U+0080 and two bytes from there to U+00FF.\<close>

definition utf8_char :: "char \<Rightarrow> bytes" where
  "utf8_char c =
     (if ordc c < 128 then [of_nat (ordc c)]
      else [of_nat (192 + ordc c div 64), of_nat (128 + ordc c mod 64)])"

definition utf8_encode :: "string \<Rightarrow> bytes" where
  "utf8_encode s = concat (map utf8_char s)"

definition is_ascii :: "string \<Rightarrow> bool" where
  "is_ascii s \<longleftrightarrow> list_all (\<lambda>c. ordc c < 128) s"

section \<open>Decimal notation\<close>

definition digit :: "nat \<Rightarrow> char" where
  "digit n = char_of (48 + n)"

fun nat_str :: "nat \<Rightarrow> string" where
  "nat_str n = (if n < 10 then [digit n] else nat_str (n div 10) @ [digit (n mod 10)])"

declare nat_str.simps [simp del]

definition int_str :: "int \<Rightarrow> string" where
  "int_str i = (if i < 0 then ''-'' @ nat_str (nat (- i)) else nat_str (nat i))"

text \<open>The value of a run of decimal digits, as \<open>int()\<close> reads it.\<close>

definition digits_val :: "string \<Rightarrow> nat" where
  "digits_val s = foldl (\<lambda>a c. 10 * a + (ordc c - 48)) 0 s"

text \<open>\<open>repr\<close> of a \<open>str\<close>.\<close>

definition hex_char :: "nat \<Rightarrow> char" where
  "hex_char n = char_of (if n < 10 then 48 + n else 87 + n)"

definition repr_char :: "char \<Rightarrow> char \<Rightarrow> string" where
  "repr_char quote c =
     (if c = quote \<or> ordc c = 92 then [CHR 0x5C, c]
      else if ordc c = 9 then [CHR 0x5C, CHR ''t'']
      else if ordc c = 10 then [CHR 0x5C, CHR ''n'']
      else if ordc c = 13 then [CHR 0x5C, CHR ''r'']
      else if ordc c < 32 \<or> (127 \<le> ordc c \<and> ordc c \<le> 160) \<or> ordc c = 173
      then [CHR 0x5C, CHR ''x'', hex_char (ordc c div 16), hex_char (ordc c mod 16)]
      else [c])"

definition py_repr :: "string \<Rightarrow> string" where
  "py_repr s =
     (let quote = (if CHR 0x27 \<in> set s \<and> CHR 0x22 \<notin> set s then CHR 0x22 else CHR 0x27)
      in [quote] @ concat (map (repr_char quote) s) @ [quote])"

section \<open>Exceptions\<close>

text \<open>The hierarchy of \<open>market/errors.py\<close>; \<open>MarketError\<close> itself is never raised.\<close>

datatype market_error =
    Market_Disabled
  | Unknown_Item int
  | Already_Registered string
  | Not_Registered string
  | Already_Watching int
  | Not_Watching int
  | Subscription_Limit int
  | Invalid_Range string
  | No_Activity string

text \<open>
  Everything else that can surface: Python's own exceptions, the driver's (a constraint
  violation, an integer outside its column), the HTTP client's, the chat connection's, the
  setting repository's the web framework's \<open>HTTPException\<close> (status
  and detail) and the API's \<open>BotNotReadyError\<close>.
\<close>

datatype exn =
    Market_Error market_error
  | Unknown_Setting string
  | Key_Error
  | Index_Error
  | Type_Error
  | Value_Error string
  | Overflow_Error
  | Assertion_Error
  | Struct_Error
  | Integrity_Error
  | Data_Error
  | Http_Status_Error
  | Incomplete_Read
  | Connection_Error
  | Login_Error string
  | Http_Exception int string
  | Bot_Not_Ready

section \<open>Pure results\<close>

definition ebind :: "exn + 'a \<Rightarrow> ('a \<Rightarrow> exn + 'b) \<Rightarrow> exn + 'b" where
  "ebind r f = (case r of Inl e \<Rightarrow> Inl e | Inr x \<Rightarrow> f x)"

lemma ebind_simps [simp]:
  "ebind (Inl e) f = Inl e"
  "ebind (Inr x) f = f x"
  by (simp_all add: ebind_def)

lemma ebind_Inr_iff: "ebind r f = Inr y \<longleftrightarrow> (\<exists>x. r = Inr x \<and> f x = Inr y)"
  by (cases r) auto

lemma ebind_assoc: "ebind (ebind r f) g = ebind r (\<lambda>x. ebind (f x) g)"
  by (cases r) auto

section \<open>Code with effects\<close>

type_synonym ('w, 'a) eff = "'w \<Rightarrow> (exn + 'a) \<times> 'w"

definition ret :: "'a \<Rightarrow> ('w, 'a) eff" where
  "ret x = (\<lambda>w. (Inr x, w))"

definition raise :: "exn \<Rightarrow> ('w, 'a) eff" where
  "raise e = (\<lambda>w. (Inl e, w))"

definition bnd :: "('w, 'a) eff \<Rightarrow> ('a \<Rightarrow> ('w, 'b) eff) \<Rightarrow> ('w, 'b) eff" where
  "bnd m f = (\<lambda>w. case m w of (Inl e, w') \<Rightarrow> (Inl e, w') | (Inr x, w') \<Rightarrow> f x w')"

definition gets :: "('w \<Rightarrow> 'a) \<Rightarrow> ('w, 'a) eff" where
  "gets f = (\<lambda>w. (Inr (f w), w))"

definition modify :: "('w \<Rightarrow> 'w) \<Rightarrow> ('w, unit) eff" where
  "modify f = (\<lambda>w. (Inr (), f w))"

definition lift :: "exn + 'a \<Rightarrow> ('w, 'a) eff" where
  "lift r = (\<lambda>w. (r, w))"

text \<open>A \<open>try\<close> block whose handler covers the exceptions on which \<open>h\<close> is defined.\<close>

definition catch :: "('w, 'a) eff \<Rightarrow> (exn \<Rightarrow> ('w, 'a) eff option) \<Rightarrow> ('w, 'a) eff" where
  "catch m h = (\<lambda>w. case m w of
      (Inl e, w') \<Rightarrow> (case h e of None \<Rightarrow> (Inl e, w') | Some k \<Rightarrow> k w')
    | (Inr x, w') \<Rightarrow> (Inr x, w'))"

fun for_each :: "'a list \<Rightarrow> ('a \<Rightarrow> ('w, unit) eff) \<Rightarrow> ('w, unit) eff" where
  "for_each [] f = ret ()"
| "for_each (x # xs) f = bnd (f x) (\<lambda>_. for_each xs f)"

text \<open>A loop that carries an accumulator.\<close>

fun fold_eff :: "('a \<Rightarrow> 's \<Rightarrow> ('w, 's) eff) \<Rightarrow> 'a list \<Rightarrow> 's \<Rightarrow> ('w, 's) eff" where
  "fold_eff f [] s = ret s"
| "fold_eff f (x # xs) s = bnd (f x s) (fold_eff f xs)"

lemma eff_simps [simp]:
  "ret x w = (Inr x, w)"
  "raise e w = (Inl e, w)"
  "gets f w = (Inr (f w), w)"
  "modify g w = (Inr (), g w)"
  "lift r w = (r, w)"
  by (simp_all add: ret_def raise_def gets_def modify_def lift_def)

lemma bnd_simps [simp]:
  "bnd (ret x) f = f x"
  "bnd (raise e) f = raise e"
  "bnd (gets g) f w = f (g w) w"
  "bnd (modify h) k w = k () (h w)"
  "bnd (lift (Inr x)) f = f x"
  "bnd (lift (Inl e)) f = raise e"
  by (simp_all add: bnd_def ret_def raise_def gets_def modify_def lift_def fun_eq_iff)

lemma bnd_apply:
  "m w = (Inr x, w') \<Longrightarrow> bnd m f w = f x w'"
  "m w = (Inl e, w') \<Longrightarrow> bnd m f w = (Inl e, w')"
  by (simp_all add: bnd_def)

lemma bnd_assoc: "bnd (bnd m f) g = bnd m (\<lambda>x. bnd (f x) g)"
  by (simp add: bnd_def fun_eq_iff split: prod.split sum.split)

lemma bnd_Inr_iff:
  "bnd m f w = (Inr y, w'') \<longleftrightarrow> (\<exists>x w'. m w = (Inr x, w') \<and> f x w' = (Inr y, w''))"
  by (auto simp: bnd_def split: prod.splits sum.splits)

section \<open>Invariants of effectful code\<close>

definition keeping :: "('w \<Rightarrow> bool) \<Rightarrow> ('w, 'a) eff \<Rightarrow> bool" where
  "keeping I m \<longleftrightarrow> (\<forall>w. I w \<longrightarrow> I (snd (m w)))"

lemma keepingI: "(\<And>w. I w \<Longrightarrow> I (snd (m w))) \<Longrightarrow> keeping I m"
  by (simp add: keeping_def)

lemma keepingD: "keeping I m \<Longrightarrow> I w \<Longrightarrow> I (snd (m w))"
  by (simp add: keeping_def)

lemma keeping_result: "keeping I m \<Longrightarrow> I w \<Longrightarrow> m w = (r, w') \<Longrightarrow> I w'"
  by (metis keepingD snd_conv)

lemma keeping_pure [keeps]:
  "keeping I (ret x)"
  "keeping I (raise e)"
  "keeping I (gets f)"
  "keeping I (lift r)"
  by (simp_all add: keeping_def)

lemma keeping_modify: "(\<And>w. I w \<Longrightarrow> I (f w)) \<Longrightarrow> keeping I (modify f)"
  by (simp add: keeping_def)

lemma keeping_bnd [keeps]:
  assumes "keeping I m" and "\<And>x. keeping I (f x)"
  shows "keeping I (bnd m f)"
proof (rule keepingI)
  fix w assume "I w"
  obtain r w' where m: "m w = (r, w')" by fastforce
  with assms(1) \<open>I w\<close> have "I w'" by (rule keeping_result)
  then show "I (snd (bnd m f w))"
    using m assms(2) by (cases r) (simp_all add: bnd_apply keepingD)
qed

lemma keeping_if [keeps]:
  "keeping I m \<Longrightarrow> keeping I n \<Longrightarrow> keeping I (if b then m else n)"
  by simp

lemma keeping_option [keeps]:
  "keeping I m \<Longrightarrow> (\<And>x. keeping I (f x)) \<Longrightarrow> keeping I (case a of None \<Rightarrow> m | Some x \<Rightarrow> f x)"
  by (cases a) simp_all

lemma keeping_sum [keeps]:
  "(\<And>x. keeping I (f x)) \<Longrightarrow> (\<And>y. keeping I (g y)) \<Longrightarrow>
   keeping I (case a of Inl x \<Rightarrow> f x | Inr y \<Rightarrow> g y)"
  by (cases a) simp_all

lemma keeping_prod [keeps]:
  "(\<And>x y. keeping I (f x y)) \<Longrightarrow> keeping I (case p of (x, y) \<Rightarrow> f x y)"
  by (cases p) simp

lemma keeping_Let [keeps]: "keeping I (f x) \<Longrightarrow> keeping I (Let x f)"
  by (simp add: Let_def)

lemma keeping_catch [keeps]:
  assumes "keeping I m" and "\<And>e k. h e = Some k \<Longrightarrow> keeping I k"
  shows "keeping I (catch m h)"
proof (rule keepingI)
  fix w assume "I w"
  obtain r w' where m: "m w = (r, w')" by fastforce
  with assms(1) \<open>I w\<close> have "I w'" by (rule keeping_result)
  then show "I (snd (catch m h w))"
    using m assms(2) by (auto simp: catch_def dest: keepingD split: sum.split option.split)
qed

lemma keeping_for_each [keeps]:
  "(\<And>x. x \<in> set xs \<Longrightarrow> keeping I (f x)) \<Longrightarrow> keeping I (for_each xs f)"
  by (induction xs) (auto intro!: keeps)

lemma keeping_fold_eff [keeps]:
  "(\<And>x s. x \<in> set xs \<Longrightarrow> keeping I (f x s)) \<Longrightarrow> keeping I (fold_eff f xs s)"
  by (induction xs arbitrary: s) (auto intro!: keeps)

section \<open>Exceptions of effectful code\<close>

definition raises_only :: "(exn \<Rightarrow> bool) \<Rightarrow> ('w, 'a) eff \<Rightarrow> bool" where
  "raises_only E m \<longleftrightarrow> (\<forall>w e. fst (m w) = Inl e \<longrightarrow> E e)"

lemma raises_onlyI: "(\<And>w e w'. m w = (Inl e, w') \<Longrightarrow> E e) \<Longrightarrow> raises_only E m"
  unfolding raises_only_def by (metis prod.collapse)

lemma raises_onlyD: "raises_only E m \<Longrightarrow> m w = (Inl e, w') \<Longrightarrow> E e"
  unfolding raises_only_def by (metis fst_conv)

lemma raises_pure [raising]:
  "raises_only E (ret x)"
  "E e \<Longrightarrow> raises_only E (raise e)"
  "raises_only E (gets f)"
  "raises_only E (modify g)"
  by (simp_all add: raises_only_def)

lemma raises_lift: "(\<And>e. r = Inl e \<Longrightarrow> E e) \<Longrightarrow> raises_only E (lift r)"
  by (simp add: raises_only_def)

lemma raises_bnd [raising]:
  assumes "raises_only E m" and "\<And>x. raises_only E (f x)"
  shows "raises_only E (bnd m f)"
proof (rule raises_onlyI)
  fix w e w' assume run: "bnd m f w = (Inl e, w')"
  obtain r u where m: "m w = (r, u)" by fastforce
  with run assms show "E e"
    by (cases r) (auto simp: bnd_apply dest: raises_onlyD)
qed

lemma raises_if [raising]:
  "raises_only E m \<Longrightarrow> raises_only E n \<Longrightarrow> raises_only E (if b then m else n)"
  by simp

lemma raises_option [raising]:
  "raises_only E m \<Longrightarrow> (\<And>x. raises_only E (f x)) \<Longrightarrow> raises_only E (case a of None \<Rightarrow> m | Some x \<Rightarrow> f x)"
  by (cases a) simp_all

lemma raises_prod [raising]:
  "(\<And>x y. raises_only E (f x y)) \<Longrightarrow> raises_only E (case p of (x, y) \<Rightarrow> f x y)"
  by (cases p) simp

lemma raises_Let [raising]: "raises_only E (f x) \<Longrightarrow> raises_only E (Let x f)"
  by (simp add: Let_def)

lemma raises_for_each [raising]: "(\<And>x. raises_only E (f x)) \<Longrightarrow> raises_only E (for_each xs f)"
  by (induction xs) (auto intro!: raising)

lemma raises_fold_eff [raising]: "(\<And>x s. raises_only E (f x s)) \<Longrightarrow> raises_only E (fold_eff f xs s)"
  by (induction xs arbitrary: s) (auto intro!: raising)

lemma raises_mono: "raises_only E m \<Longrightarrow> (\<And>e. E e \<Longrightarrow> F e) \<Longrightarrow> raises_only F m"
  by (auto simp: raises_only_def)

text \<open>The exceptions that are neither the market's own nor the refusal of a route.\<close>

definition foreign :: "exn \<Rightarrow> bool" where
  "foreign e = (case e of Market_Error _ \<Rightarrow> False | Http_Exception _ _ \<Rightarrow> False | _ \<Rightarrow> True)"

lemma foreign_simps [simp]:
  "\<not> foreign (Market_Error e)" "foreign (Unknown_Setting k)" "foreign Key_Error" "foreign Index_Error"
  "foreign Type_Error" "foreign (Value_Error m)" "foreign Overflow_Error" "foreign Assertion_Error"
  "foreign Struct_Error" "foreign Integrity_Error" "foreign Data_Error" "foreign Http_Status_Error"
  "foreign Incomplete_Read" "foreign Connection_Error" "foreign (Login_Error m)"
  "\<not> foreign (Http_Exception n m)" "foreign Bot_Not_Ready"
  by (simp_all add: foreign_def)

section \<open>Exceptions under an invariant\<close>

text \<open>
  Run in a state that satisfies \<open>I\<close>, the operation ends in one that does and raises only what
  \<open>E\<close> allows.
\<close>

definition guarded :: "('w \<Rightarrow> bool) \<Rightarrow> (exn \<Rightarrow> bool) \<Rightarrow> ('w, 'a) eff \<Rightarrow> bool" where
  "guarded I E m \<longleftrightarrow> (\<forall>w. I w \<longrightarrow> I (snd (m w)) \<and> (\<forall>e. fst (m w) = Inl e \<longrightarrow> E e))"

lemma guardedI: "keeping I m \<Longrightarrow> (\<And>w e w'. I w \<Longrightarrow> m w = (Inl e, w') \<Longrightarrow> E e) \<Longrightarrow> guarded I E m"
  unfolding guarded_def by (metis keepingD prod.collapse)

lemma guardedD: "guarded I E m \<Longrightarrow> I w \<Longrightarrow> m w = (Inl e, w') \<Longrightarrow> E e"
  unfolding guarded_def by (metis fst_conv)

lemma guarded_keeping: "guarded I E m \<Longrightarrow> keeping I m"
  by (simp add: guarded_def keeping_def)

lemma guarded_raises: "keeping I m \<Longrightarrow> raises_only E m \<Longrightarrow> guarded I E m"
  by (auto simp: guarded_def keeping_def raises_only_def)

lemma guarded_pure [guards]:
  "guarded I E (ret x)"
  "E e \<Longrightarrow> guarded I E (raise e)"
  "guarded I E (gets f)"
  by (simp_all add: guarded_def)

lemma guarded_bnd [guards]:
  assumes "guarded I E m" and "\<And>x. guarded I E (f x)"
  shows "guarded I E (bnd m f)"
proof (rule guardedI)
  show "keeping I (bnd m f)" using assms by (intro keeping_bnd guarded_keeping)
  fix w e w' assume w: "I w" and run: "bnd m f w = (Inl e, w')"
  obtain r u where m: "m w = (r, u)" by fastforce
  have "I u" using guarded_keeping [OF assms(1)] w m by (rule keeping_result)
  then show "E e" using run m w assms by (cases r) (auto simp: bnd_apply dest: guardedD)
qed

lemma guarded_if [guards]:
  "(b \<Longrightarrow> guarded I E m) \<Longrightarrow> (\<not> b \<Longrightarrow> guarded I E n) \<Longrightarrow> guarded I E (if b then m else n)"
  by simp

lemma guarded_option [guards]:
  "guarded I E m \<Longrightarrow> (\<And>x. guarded I E (f x)) \<Longrightarrow> guarded I E (case a of None \<Rightarrow> m | Some x \<Rightarrow> f x)"
  by (cases a) simp_all

lemma guarded_prod [guards]:
  "(\<And>x y. guarded I E (f x y)) \<Longrightarrow> guarded I E (case p of (x, y) \<Rightarrow> f x y)"
  by (cases p) simp

lemma guarded_Let [guards]: "guarded I E (f x) \<Longrightarrow> guarded I E (Let x f)"
  by (simp add: Let_def)

lemma guarded_lift: "(\<And>e. r = Inl e \<Longrightarrow> E e) \<Longrightarrow> guarded I E (lift r)"
  by (simp add: guarded_def)

lemma guarded_fold_eff [guards]: "(\<And>x s. guarded I E (f x s)) \<Longrightarrow> guarded I E (fold_eff f xs s)"
  by (induction xs arbitrary: s) (auto intro!: guards)

section \<open>Facts about characters and decimals\<close>

lemma code_less [simp]: "ordc c < 256"
  by (simp add: ordc_def)

lemma char_of_code [simp]: "char_of (ordc c) = c"
  by (simp add: ordc_def)

lemma unat_byte_less [simp]: "unat (b :: byte) < 256"
  using unsigned_less [of b] by simp

lemma code_char_of [simp]: "n < 256 \<Longrightarrow> ordc (char_of n) = n"
  by (simp add: ordc_def)

lemma code_digit [py_text]: "n < 10 \<Longrightarrow> ordc (digit n) = 48 + n"
  by (simp add: digit_def)

lemma is_digit_digit [py_text]: "n < 10 \<Longrightarrow> is_digit (digit n)"
  by (simp add: is_digit_def code_digit)

lemma is_digit_not_space [py_text]: "is_digit c \<Longrightarrow> \<not> is_space c"
  by (auto simp: is_digit_def is_space_def)

lemma digits_val_simps [py_text]:
  "digits_val [] = 0"
  "digits_val (s @ [c]) = 10 * digits_val s + (ordc c - 48)"
  by (simp_all add: digits_val_def)

lemma nat_str_nonempty [py_text, simp]: "nat_str n \<noteq> []"
  by (subst nat_str.simps) simp

lemma nat_str_digits [py_text]: "list_all is_digit (nat_str n)"
proof (induction n rule: nat_str.induct)
  case (1 n)
  then show ?case
    by (subst nat_str.simps) (auto simp: is_digit_digit)
qed

lemma digits_val_nat_str [py_text, simp]: "digits_val (nat_str n) = n"
proof (induction n rule: nat_str.induct)
  case (1 n)
  show ?case
  proof (cases "n < 10")
    case True
    then show ?thesis
      by (subst nat_str.simps) (simp add: digits_val_def code_digit)
  next
    case False
    with 1 show ?thesis
      by (subst nat_str.simps) (simp add: digits_val_simps code_digit)
  qed
qed

lemma nat_str_inj: "nat_str m = nat_str n \<longleftrightarrow> m = n"
  by (metis digits_val_nat_str)

lemma strip_id [py_text]:
  assumes "s \<noteq> []" and "\<not> is_space (hd s)" and "\<not> is_space (last s)"
  shows "strip s = s"
proof -
  have "dropWhile is_space s = s"
    using assms(1,2) by (cases s) auto
  moreover have "dropWhile is_space (rev s) = rev s"
    using assms(1,3) by (cases s rule: rev_cases) auto
  ultimately show ?thesis
    by (simp add: strip_def)
qed

lemma dropWhile_all: "list_all p xs \<Longrightarrow> dropWhile p (xs @ s) = dropWhile p s"
  by (induction xs) simp_all

lemma strip_around:
  assumes "list_all is_space v" and "list_all is_space w" and "strip s = s"
    and "s \<noteq> []" and "\<not> is_space (hd s)" and "\<not> is_space (last s)"
  shows "strip (v @ s @ w) = s"
proof -
  have "dropWhile is_space (s @ w) = s @ w"
    using assms(4,5) by (cases s) simp_all
  moreover have "dropWhile is_space (rev w @ rev s) = rev s"
    using assms(2,4,6) by (cases s rule: rev_cases) (simp_all add: dropWhile_all)
  ultimately show ?thesis
    using assms(1) by (simp add: strip_def dropWhile_all)
qed

lemma strip_nil [py_text, simp]: "strip [] = []"
  by (simp add: strip_def)

text \<open>Latin-1 reads back what UTF-8 writes exactly on ASCII text.\<close>

lemma latin1_utf8_ascii: "is_ascii s \<Longrightarrow> latin1_decode (utf8_encode s) = s"
  by (induction s)
    (auto simp: is_ascii_def latin1_decode_def utf8_encode_def utf8_char_def unat_of_nat)

lemma length_utf8_ascii: "is_ascii s \<Longrightarrow> length (utf8_encode s) = length s"
  by (induction s) (auto simp: is_ascii_def utf8_encode_def utf8_char_def)

end
