(* ===== verification/Packet.thy ===== *)
theory Packet
  imports Prelude
begin

text \<open>
  \<open>aochat/packet.py\<close> and the framing half of \<open>aochat/protocol.py\<close>: the packet types and
  argument schemas, \<open>struct.pack\<close> and \<open>struct.unpack_from\<close> of the big-endian formats the
  module uses, the argument codecs and the reading of one packet from a byte stream.

  A read beyond the end of the buffer raises \<open>struct.error\<close>, but the slice that takes a
  string's bytes does not: it is cut short in silence, and the offset moves on all the same.
\<close>

section \<open>Packet types and schemas\<close>

definition AOCP_LOGIN_SEED :: int where "AOCP_LOGIN_SEED = 0"
definition AOCP_LOGIN_REQUEST :: int where "AOCP_LOGIN_REQUEST = 2"
definition AOCP_LOGIN_SELECT :: int where "AOCP_LOGIN_SELECT = 3"
definition AOCP_LOGIN_OK :: int where "AOCP_LOGIN_OK = 5"
definition AOCP_LOGIN_ERROR :: int where "AOCP_LOGIN_ERROR = 6"
definition AOCP_LOGIN_CHARLIST :: int where "AOCP_LOGIN_CHARLIST = 7"
definition AOCP_CLIENT_NAME :: int where "AOCP_CLIENT_NAME = 20"
definition AOCP_CLIENT_LOOKUP :: int where "AOCP_CLIENT_LOOKUP = 21"
definition AOCP_MSG_PRIVATE :: int where "AOCP_MSG_PRIVATE = 30"
definition AOCP_BUDDY_LOGONOFF :: int where "AOCP_BUDDY_LOGONOFF = 40"
definition AOCP_BUDDY_ADD :: int where "AOCP_BUDDY_ADD = 40"
definition AOCP_BUDDY_REMOVE :: int where "AOCP_BUDDY_REMOVE = 41"
definition AOCP_PRIVGRP_CLIJOIN :: int where "AOCP_PRIVGRP_CLIJOIN = 55"
definition AOCP_PRIVGRP_CLIPART :: int where "AOCP_PRIVGRP_CLIPART = 56"
definition AOCP_PRIVGRP_MESSAGE :: int where "AOCP_PRIVGRP_MESSAGE = 57"
definition AOCP_PING :: int where "AOCP_PING = 100"

lemmas packet_types =
  AOCP_LOGIN_SEED_def AOCP_LOGIN_REQUEST_def AOCP_LOGIN_SELECT_def AOCP_LOGIN_OK_def
  AOCP_LOGIN_ERROR_def AOCP_LOGIN_CHARLIST_def AOCP_CLIENT_NAME_def AOCP_CLIENT_LOOKUP_def
  AOCP_MSG_PRIVATE_def AOCP_BUDDY_LOGONOFF_def AOCP_BUDDY_ADD_def AOCP_BUDDY_REMOVE_def
  AOCP_PRIVGRP_CLIJOIN_def AOCP_PRIVGRP_CLIPART_def AOCP_PRIVGRP_MESSAGE_def AOCP_PING_def

definition IN_SCHEMAS :: "int \<rightharpoonup> string" where
  "IN_SCHEMAS = map_of
     [(AOCP_LOGIN_SEED, ''S''),
      (AOCP_LOGIN_OK, ''''),
      (AOCP_LOGIN_ERROR, ''S''),
      (AOCP_LOGIN_CHARLIST, ''isii''),
      (AOCP_CLIENT_NAME, ''IS''),
      (AOCP_CLIENT_LOOKUP, ''IS''),
      (AOCP_MSG_PRIVATE, ''ISS''),
      (AOCP_BUDDY_LOGONOFF, ''IIS''),
      (AOCP_PRIVGRP_CLIJOIN, ''II''),
      (AOCP_PRIVGRP_CLIPART, ''II''),
      (AOCP_PRIVGRP_MESSAGE, ''IISS''),
      (AOCP_PING, ''S'')]"

definition OUT_SCHEMAS :: "int \<rightharpoonup> string" where
  "OUT_SCHEMAS = map_of
     [(AOCP_LOGIN_REQUEST, ''ISS''),
      (AOCP_LOGIN_SELECT, ''I''),
      (AOCP_CLIENT_LOOKUP, ''S''),
      (AOCP_MSG_PRIVATE, ''ISS''),
      (AOCP_BUDDY_ADD, ''IS''),
      (AOCP_PRIVGRP_MESSAGE, ''ISS''),
      (AOCP_PING, ''S'')]"

section \<open>Big-endian integers\<close>

definition be16 :: "nat \<Rightarrow> bytes" where
  "be16 n = [of_nat (n div 256), of_nat n]"

definition be32 :: "nat \<Rightarrow> bytes" where
  "be32 n = [of_nat (n div 16777216), of_nat (n div 65536), of_nat (n div 256), of_nat n]"

text \<open>\<open>struct.pack(">H", n)\<close> and \<open>struct.pack(">I", n)\<close>.\<close>

definition pack_H :: "int \<Rightarrow> exn + bytes" where
  "pack_H n = (if 0 \<le> n \<and> n < 65536 then Inr (be16 (nat n)) else Inl Struct_Error)"

definition pack_I :: "int \<Rightarrow> exn + bytes" where
  "pack_I n = (if 0 \<le> n \<and> n < 4294967296 then Inr (be32 (nat n)) else Inl Struct_Error)"

text \<open>\<open>struct.unpack_from(">H", data, offset)\<close> and \<open>struct.unpack_from(">I", data, offset)\<close>.\<close>

definition unpack_H :: "bytes \<Rightarrow> nat \<Rightarrow> exn + nat" where
  "unpack_H data offset =
     (if offset + 2 \<le> length data
      then Inr (256 * unat (data ! offset) + unat (data ! (offset + 1)))
      else Inl Struct_Error)"

definition unpack_I :: "bytes \<Rightarrow> nat \<Rightarrow> exn + nat" where
  "unpack_I data offset =
     (if offset + 4 \<le> length data
      then Inr (16777216 * unat (data ! offset) + 65536 * unat (data ! (offset + 1))
                + 256 * unat (data ! (offset + 2)) + unat (data ! (offset + 3)))
      else Inl Struct_Error)"

text \<open>\<open>data[offset : offset + length]\<close>.\<close>

definition slice :: "bytes \<Rightarrow> nat \<Rightarrow> nat \<Rightarrow> bytes" where
  "slice data offset len = take len (drop offset data)"

section \<open>Arguments\<close>

datatype out_arg = OInt int | OStr string | OBytes bytes

datatype in_arg = IInt nat | IBytes bytes | IInts "nat list" | IStrs "bytes list"

record inbound_packet =
  ptype :: int
  pargs :: "in_arg list"

definition encode_header :: "int \<Rightarrow> int \<Rightarrow> exn + bytes" where
  "encode_header packet_type payload_len =
     ebind (pack_H packet_type) (\<lambda>t. ebind (pack_H payload_len) (\<lambda>l. Inr (t @ l)))"

text \<open>\<open>struct.unpack\<close> wants a buffer of exactly the format's size.\<close>

definition decode_header :: "bytes \<Rightarrow> exn + (nat \<times> nat)" where
  "decode_header data =
     (if length data = 4
      then ebind (unpack_H data 0) (\<lambda>t. ebind (unpack_H data 2) (\<lambda>l. Inr (t, l)))
      else Inl Struct_Error)"

text \<open>
  One outbound argument. \<open>bytes(value)\<close> of an integer is that many zero bytes.
\<close>

fun encode_arg :: "char \<Rightarrow> out_arg \<Rightarrow> exn + bytes" where
  "encode_arg code value =
     (if code = CHR ''I'' then
        (case value of OInt n \<Rightarrow> pack_I n | _ \<Rightarrow> Inl Struct_Error)
      else if code = CHR ''S'' then
        ebind (case value of
                 OStr s \<Rightarrow> Inr (utf8_encode s)
               | OBytes b \<Rightarrow> Inr b
               | OInt n \<Rightarrow> if n < 0 then Inl (Value_Error ''negative count'') else Inr (replicate (nat n) 0))
          (\<lambda>data. ebind (pack_H (int (length data))) (\<lambda>l. Inr (l @ data)))
      else Inl (Value_Error ''Unsupported outbound arg type''))"

text \<open>The loop over the schema: \<open>remaining.pop(0)\<close> of an empty list raises IndexError, and
  arguments beyond the schema are dropped.\<close>

fun encode_schema :: "string \<Rightarrow> out_arg list \<Rightarrow> bytes \<Rightarrow> exn + bytes" where
  "encode_schema [] remaining out = Inr out"
| "encode_schema (c # cs) [] out = Inl Index_Error"
| "encode_schema (c # cs) (v # vs) out =
     ebind (encode_arg c v) (\<lambda>b. encode_schema cs vs (out @ b))"

definition encode_args :: "int \<Rightarrow> out_arg list \<Rightarrow> exn + bytes" where
  "encode_args packet_type args =
     (case OUT_SCHEMAS packet_type of
        None \<Rightarrow> Inl Key_Error
      | Some schema \<Rightarrow> encode_schema schema args [])"

text \<open>\<open>struct.unpack_from(f">{count}I", data, offset)\<close>: one bounds check for all of them.\<close>

definition unpack_Is :: "nat \<Rightarrow> bytes \<Rightarrow> nat \<Rightarrow> exn + nat list" where
  "unpack_Is count data offset =
     (if offset + 4 * count \<le> length data
      then Inr (map (\<lambda>k. case unpack_I data (offset + 4 * k) of Inr v \<Rightarrow> v | Inl _ \<Rightarrow> 0) [0..<count])
      else Inl Struct_Error)"

fun decode_strs :: "nat \<Rightarrow> bytes \<Rightarrow> nat \<Rightarrow> exn + (bytes list \<times> nat)" where
  "decode_strs 0 data offset = Inr ([], offset)"
| "decode_strs (Suc n) data offset =
     ebind (unpack_H data offset) (\<lambda>slen.
       ebind (decode_strs n data (offset + 2 + slen)) (\<lambda>(values, off).
         Inr (slice data (offset + 2) slen # values, off)))"

fun decode_arg :: "char \<Rightarrow> bytes \<Rightarrow> nat \<Rightarrow> exn + (in_arg \<times> nat)" where
  "decode_arg code data offset =
     (if code = CHR ''I'' then
        ebind (unpack_I data offset) (\<lambda>v. Inr (IInt v, offset + 4))
      else if code = CHR ''S'' then
        ebind (unpack_H data offset) (\<lambda>len.
          Inr (IBytes (slice data (offset + 2) len), offset + 2 + len))
      else if code = CHR ''i'' then
        ebind (unpack_H data offset) (\<lambda>count.
          ebind (unpack_Is count data (offset + 2)) (\<lambda>vs.
            Inr (IInts vs, offset + 2 + 4 * count)))
      else if code = CHR ''s'' then
        ebind (unpack_H data offset) (\<lambda>count.
          ebind (decode_strs count data (offset + 2)) (\<lambda>(vs, off). Inr (IStrs vs, off)))
      else Inl (Value_Error ''Unsupported inbound arg type''))"

fun decode_schema :: "string \<Rightarrow> bytes \<Rightarrow> nat \<Rightarrow> exn + in_arg list" where
  "decode_schema [] data offset = Inr []"
| "decode_schema (c # cs) data offset =
     ebind (decode_arg c data offset) (\<lambda>(v, off).
       ebind (decode_schema cs data off) (\<lambda>vs. Inr (v # vs)))"

definition decode_args :: "int \<Rightarrow> bytes \<Rightarrow> exn + in_arg list" where
  "decode_args packet_type data =
     (case IN_SCHEMAS packet_type of
        None \<Rightarrow> Inl Key_Error
      | Some schema \<Rightarrow> decode_schema schema data 0)"

definition encode_packet :: "int \<Rightarrow> out_arg list \<Rightarrow> exn + bytes" where
  "encode_packet packet_type args =
     ebind (encode_args packet_type args) (\<lambda>payload.
       ebind (encode_header packet_type (int (length payload))) (\<lambda>h. Inr (h @ payload)))"

definition decode_packet :: "int \<Rightarrow> bytes \<Rightarrow> exn + inbound_packet" where
  "decode_packet packet_type payload =
     ebind (decode_args packet_type payload) (\<lambda>args.
       Inr \<lparr>ptype = packet_type, pargs = args\<rparr>)"

section \<open>Reading a stream\<close>

text \<open>
  \<open>AOChatConnection.read_packet\<close> over the bytes the socket still has to give:
  \<open>readexactly\<close> raises IncompleteReadError when the stream ends early, and the bytes of a
  packet are consumed before its payload is decoded.
\<close>

definition readexactly :: "nat \<Rightarrow> (bytes, bytes) eff" where
  "readexactly n = (\<lambda>s. if n \<le> length s then (Inr (take n s), drop n s) else (Inl Incomplete_Read, []))"

definition read_packet :: "(bytes, inbound_packet) eff" where
  "read_packet =
     bnd (readexactly 4) (\<lambda>header.
     bnd (lift (decode_header header)) (\<lambda>(ptype, plen).
     bnd (if plen = 0 then ret [] else readexactly plen) (\<lambda>payload.
     lift (decode_packet (int ptype) payload))))"

section \<open>The wire format\<close>

text \<open>
  The reference for the decoder: what the server puts on the wire for an argument of each
  schema code, and when an argument fits a code.
\<close>

definition wire_str :: "bytes \<Rightarrow> bytes" where
  "wire_str b = be16 (length b) @ b"

fun wire :: "in_arg \<Rightarrow> bytes" where
  "wire (IInt n) = be32 n"
| "wire (IBytes b) = wire_str b"
| "wire (IInts ns) = be16 (length ns) @ concat (map be32 ns)"
| "wire (IStrs bs) = be16 (length bs) @ concat (map wire_str bs)"

definition str_fits :: "unit \<Rightarrow> bytes \<Rightarrow> bool" where
  "str_fits u b \<longleftrightarrow> length b < 65536"

fun fits :: "char \<Rightarrow> in_arg \<Rightarrow> bool" where
  "fits c (IInt n) \<longleftrightarrow> c = CHR ''I'' \<and> n < 4294967296"
| "fits c (IBytes b) \<longleftrightarrow> c = CHR ''S'' \<and> length b < 65536"
| "fits c (IInts ns) \<longleftrightarrow>
     c = CHR ''i'' \<and> length ns < 65536 \<and> list_all (\<lambda>n. n < 4294967296) ns"
| "fits c (IStrs bs) \<longleftrightarrow>
     c = CHR ''s'' \<and> length bs < 65536 \<and> list_all (\<lambda>b. length b < 65536) bs"

text \<open>A sequence of items, each read at the offset where the one before it ended.\<close>

fun seq_get ::
  "('c \<Rightarrow> bytes \<Rightarrow> nat \<Rightarrow> exn + ('a \<times> nat)) \<Rightarrow> 'c list \<Rightarrow> bytes \<Rightarrow> nat \<Rightarrow> exn + ('a list \<times> nat)"
where
  "seq_get get [] data offset = Inr ([], offset)"
| "seq_get get (c # cs) data offset =
     ebind (get c data offset) (\<lambda>(v, off).
       ebind (seq_get get cs data off) (\<lambda>(vs, off'). Inr (v # vs, off')))"

text \<open>
  The contract of an item codec: reading at the place where an item was written gives the
  item back and stops right behind it, whatever stands before and after.
\<close>

locale item_codec =
  fixes get :: "'c \<Rightarrow> bytes \<Rightarrow> nat \<Rightarrow> exn + ('a \<times> nat)"
    and put :: "'a \<Rightarrow> bytes"
    and fit :: "'c \<Rightarrow> 'a \<Rightarrow> bool"
  assumes get_put:
    "fit c a \<Longrightarrow> get c (pre @ put a @ post) (length pre) = Inr (a, length pre + length (put a))"
begin

lemma seq_get_put:
  "list_all2 fit cs as \<Longrightarrow>
   seq_get get cs (pre @ concat (map put as) @ post) (length pre)
     = Inr (as, length pre + length (concat (map put as)))"
proof (induction cs as arbitrary: pre rule: list_all2_induct)
  case Nil
  then show ?case by simp
next
  case (Cons c cs a as)
  have "get c (pre @ put a @ concat (map put as) @ post) (length pre)
      = Inr (a, length pre + length (put a))"
    using Cons.hyps(1) by (rule get_put)
  moreover have "seq_get get cs ((pre @ put a) @ concat (map put as) @ post) (length (pre @ put a))
      = Inr (as, length (pre @ put a) + length (concat (map put as)))"
    by (rule Cons.IH)
  ultimately show ?case by simp
qed

end

section \<open>Integers on the wire\<close>

lemma unat_byte: "unat (of_nat n :: byte) = n mod 256"
  by (simp add: unat_of_nat)

lemma length_be [simp]: "length (be16 n) = 2" "length (be32 n) = 4"
  by (simp_all add: be16_def be32_def)

lemma be32_value:
  fixes n :: nat
  assumes "n < 4294967296"
  shows "16777216 * (n div 16777216 mod 256) + 65536 * (n div 65536 mod 256)
       + 256 * (n div 256 mod 256) + n mod 256 = n"
proof -
  define q r s where "q = n div 256" and "r = q div 256" and "s = r div 256"
  have d: "n div 256 = q" "n div 65536 = r" "n div 16777216 = s"
    by (simp_all add: q_def r_def s_def div_mult2_eq [symmetric])
  have m: "s mod 256 = s"
    using assms by (simp add: q_def r_def s_def div_mult2_eq [symmetric] less_mult_imp_div_less)
  have "n = 256 * q + n mod 256" "q = 256 * r + q mod 256" "r = 256 * s + r mod 256"
    by (simp_all add: q_def r_def s_def)
  then show ?thesis
    unfolding d m by linarith
qed

lemma unpack_H_be16 [simp]:
  assumes "n < 65536"
  shows "unpack_H (pre @ be16 n @ post) (length pre) = Inr n"
    and "unpack_H (be16 n @ post) 0 = Inr n"
proof -
  have "n div 256 mod 256 = n div 256"
    using assms by (simp add: less_mult_imp_div_less)
  then have v: "256 * (n div 256 mod 256) + n mod 256 = n" by presburger
  have nth: "(pre @ be16 n @ post) ! length pre = of_nat (n div 256)"
    "(pre @ be16 n @ post) ! (length pre + 1) = of_nat n"
    by (simp_all only: nth_append_length_plus be16_def append_Cons nth_append_length)
      (simp_all add: nth_append)
  show "unpack_H (pre @ be16 n @ post) (length pre) = Inr n"
    unfolding unpack_H_def nth using v by (simp add: unat_byte)
  show "unpack_H (be16 n @ post) 0 = Inr n"
    using v by (simp add: unpack_H_def be16_def unat_byte)
qed

lemma nth_be32:
  "(pre @ be32 n @ post) ! length pre = of_nat (n div 16777216)"
  "(pre @ be32 n @ post) ! (length pre + 1) = of_nat (n div 65536)"
  "(pre @ be32 n @ post) ! (length pre + 2) = of_nat (n div 256)"
  "(pre @ be32 n @ post) ! (length pre + 3) = of_nat n"
  by (simp_all only: nth_append_length_plus be32_def append_Cons nth_append_length)
    (simp_all add: nth_append)

lemma unpack_I_be32:
  "n < 4294967296 \<Longrightarrow> unpack_I (pre @ be32 n @ post) (length pre) = Inr n"
  unfolding unpack_I_def nth_be32 unat_byte be32_value by simp

lemma slice_at [simp]:
  "slice (pre @ b @ post) (length pre) (length b) = b"
  by (simp add: slice_def)

lemma unpack_Is_be32:
  assumes "list_all (\<lambda>n. n < 4294967296) ns"
  shows "unpack_Is (length ns) (pre @ concat (map be32 ns) @ post) (length pre) = Inr ns"
proof -
  have len: "length (concat (map be32 ms)) = 4 * length ms" for ms
    by (induction ms) simp_all
  have at: "unpack_I (pre @ concat (map be32 ns) @ post) (length pre + 4 * k) = Inr (ns ! k)"
    if k: "k < length ns" for k
  proof -
    have "ns = take k ns @ ns ! k # drop (Suc k) ns"
      using k by (rule id_take_nth_drop)
    then have "concat (map be32 ns)
        = concat (map be32 (take k ns)) @ be32 (ns ! k) @ concat (map be32 (drop (Suc k) ns))"
      by (metis concat.simps(2) concat_append list.simps(9) map_append)
    moreover have "ns ! k < 4294967296"
      using assms k by (simp add: list_all_length)
    ultimately show ?thesis
      using unpack_I_be32 [of "ns ! k" "pre @ concat (map be32 (take k ns))"] k
      by (simp add: len)
  qed
  have "map (\<lambda>k. case unpack_I (pre @ concat (map be32 ns) @ post) (length pre + 4 * k) of
          Inr v \<Rightarrow> v | Inl _ \<Rightarrow> 0) [0..<length ns] = ns"
    by (rule nth_equalityI) (simp_all add: at)
  then show ?thesis
    by (simp add: unpack_Is_def len)
qed

section \<open>Strings and arguments are item codecs\<close>

definition get_str :: "unit \<Rightarrow> bytes \<Rightarrow> nat \<Rightarrow> exn + (bytes \<times> nat)" where
  "get_str u data offset =
     ebind (unpack_H data offset) (\<lambda>slen.
       Inr (slice data (offset + 2) slen, offset + 2 + slen))"

lemma get_str_wire:
  assumes "length b < 65536"
  shows "get_str u (pre @ wire_str b @ post) (length pre)
       = Inr (b, length pre + length (wire_str b))"
proof -
  have "slice (pre @ be16 (length b) @ b @ post) (length pre + 2) (length b) = b"
    using slice_at [of "pre @ be16 (length b)" b post] by simp
  with assms show ?thesis
    by (simp add: get_str_def wire_str_def)
qed

interpretation str_codec: item_codec get_str wire_str str_fits
  by unfold_locales (simp add: get_str_wire str_fits_def)

lemma decode_strs_seq: "decode_strs n data offset = seq_get get_str (replicate n ()) data offset"
  by (induction n arbitrary: offset) (simp_all add: get_str_def ebind_assoc)

lemma decode_strs_wire:
  assumes "list_all (\<lambda>b. length b < 65536) bs"
  shows "decode_strs (length bs) (pre @ concat (map wire_str bs) @ post) (length pre)
       = Inr (bs, length pre + length (concat (map wire_str bs)))"
proof -
  have "list_all2 str_fits (replicate (length bs) ()) bs"
    using assms by (simp add: list_all2_conv_all_nth str_fits_def list_all_length)
  then show ?thesis
    unfolding decode_strs_seq by (rule str_codec.seq_get_put)
qed

lemma decode_arg_wire:
  assumes "fits c a"
  shows "decode_arg c (pre @ wire a @ post) (length pre) = Inr (a, length pre + length (wire a))"
proof (cases a)
  case (IInt n)
  with assms show ?thesis by (simp add: unpack_I_be32)
next
  case (IBytes b)
  with assms get_str_wire [of b "()" pre post] show ?thesis
    by (simp add: get_str_def ebind_Inr_iff)
next
  case (IInts ns)
  have "length (concat (map be32 ns)) = 4 * length ns" by (induction ns) simp_all
  with IInts assms unpack_Is_be32 [of ns "pre @ be16 (length ns)" post] show ?thesis
    by simp
next
  case (IStrs bs)
  with assms decode_strs_wire [of bs "pre @ be16 (length bs)" post] show ?thesis
    by simp
qed

interpretation arg_codec: item_codec decode_arg wire fits
  by unfold_locales (rule decode_arg_wire)

lemma decode_schema_seq:
  "decode_schema cs data offset = ebind (seq_get decode_arg cs data offset) (\<lambda>(vs, _). Inr vs)"
  by (induction cs arbitrary: offset)
    (simp_all add: ebind_assoc case_prod_beta' del: decode_arg.simps)

lemma decode_schema_wire:
  assumes "list_all2 fits schema args"
  shows "decode_schema schema (concat (map wire args) @ post) 0 = Inr args"
  using arg_codec.seq_get_put [OF assms, of "[]" post]
  by (simp add: decode_schema_seq)

lemma decode_args_wire:
  "IN_SCHEMAS t = Some schema \<Longrightarrow> list_all2 fits schema args \<Longrightarrow>
   decode_args t (concat (map wire args) @ post) = Inr args"
  by (simp add: decode_args_def decode_schema_wire)

section \<open>The encoder writes the wire format\<close>

text \<open>What the peer reads for an outbound argument that was encoded under code \<open>c\<close>.\<close>

fun received :: "char \<Rightarrow> out_arg \<Rightarrow> in_arg" where
  "received c (OInt n) = (if c = CHR ''I'' then IInt (nat n) else IBytes (replicate (nat n) 0))"
| "received c (OStr s) = IBytes (utf8_encode s)"
| "received c (OBytes b) = IBytes b"

lemma encode_arg_wire:
  "encode_arg c v = Inr b \<Longrightarrow> b = wire (received c v) \<and> fits c (received c v)"
  by (cases v)
    (auto simp: pack_I_def pack_H_def wire_str_def ebind_Inr_iff split: if_splits)

lemma encode_schema_wire:
  "encode_schema cs vs out = Inr b \<Longrightarrow>
   length cs \<le> length vs
   \<and> b = out @ concat (map wire (map2 received cs vs))
   \<and> list_all2 fits cs (map2 received cs vs)"
proof (induction cs vs out rule: encode_schema.induct)
  case (3 c cs v vs out)
  from "3.prems" obtain b' where b': "encode_arg c v = Inr b'"
    and rest: "encode_schema cs vs (out @ b') = Inr b"
    by (auto simp: ebind_Inr_iff simp del: encode_arg.simps)
  from "3.IH" [OF rest] encode_arg_wire [OF b'] show ?case by simp
qed simp_all

lemma encode_packet_frame:
  assumes "encode_packet t args = Inr bs"
  obtains schema where "OUT_SCHEMAS t = Some schema" and "length schema \<le> length args"
    and "list_all2 fits schema (map2 received schema args)"
    and "0 \<le> t" "t < 65536"
    and "length (concat (map wire (map2 received schema args))) < 65536"
    and "bs = be16 (nat t) @ be16 (length (concat (map wire (map2 received schema args))))
              @ concat (map wire (map2 received schema args))"
proof -
  from assms obtain schema payload where sch: "OUT_SCHEMAS t = Some schema"
    and enc: "encode_schema schema args [] = Inr payload"
    and hd: "ebind (encode_header t (int (length payload))) (\<lambda>h. Inr (h @ payload)) = Inr bs"
    by (auto simp: encode_packet_def encode_args_def ebind_Inr_iff split: option.splits)
  from encode_schema_wire [OF enc] hd sch show thesis
    by (intro that [of schema])
      (auto simp: encode_header_def pack_H_def ebind_Inr_iff split: if_splits)
qed

section \<open>Framing\<close>

text \<open>A frame as the server sends it: type, payload length, payload.\<close>

definition frame :: "nat \<Rightarrow> bytes \<Rightarrow> bytes" where
  "frame t payload = be16 t @ be16 (length payload) @ payload"

lemma readexactly_append [simp]:
  "readexactly (length xs) (xs @ ys) = (Inr xs, ys)"
  by (simp add: readexactly_def)

lemma decode_header_be16 [simp]:
  assumes "t < 65536" and "l < 65536"
  shows "decode_header (be16 t @ be16 l) = Inr (t, l)"
  using assms unpack_H_be16(1) [of l "be16 t" "[]"]
  by (simp add: decode_header_def)

lemma read_packet_frame:
  assumes "t < 65536" and "length payload < 65536"
  shows "read_packet (frame t payload @ rest) = (decode_packet (int t) payload, rest)"
proof -
  have "readexactly 4 (frame t payload @ rest)
      = (Inr (be16 t @ be16 (length payload)), payload @ rest)"
    using readexactly_append [of "be16 t @ be16 (length payload)" "payload @ rest"]
    by (simp add: frame_def)
  moreover have "(if length payload = 0 then ret [] else readexactly (length payload))
      (payload @ rest) = (Inr payload, rest)"
    by simp
  ultimately show ?thesis
    using assms by (simp add: read_packet_def bnd_def)
qed

text \<open>\<open>n\<close> packets in a row.\<close>

fun read_packets :: "nat \<Rightarrow> (bytes, inbound_packet list) eff" where
  "read_packets 0 = ret []"
| "read_packets (Suc n) = bnd read_packet (\<lambda>p. bnd (read_packets n) (\<lambda>ps. ret (p # ps)))"

text \<open>A packet a server may send: a known type and arguments that fit its schema.\<close>

definition well_formed :: "inbound_packet \<Rightarrow> bool" where
  "well_formed p \<longleftrightarrow>
     0 \<le> ptype p \<and> ptype p < 65536
     \<and> (case IN_SCHEMAS (ptype p) of None \<Rightarrow> False | Some sch \<Rightarrow> list_all2 fits sch (pargs p))
     \<and> length (concat (map wire (pargs p))) < 65536"

definition packet_frame :: "inbound_packet \<Rightarrow> bytes" where
  "packet_frame p = frame (nat (ptype p)) (concat (map wire (pargs p)))"

lemma read_packet_well_formed:
  assumes "well_formed p"
  shows "read_packet (packet_frame p @ rest) = (Inr p, rest)"
proof -
  from assms obtain sch where "IN_SCHEMAS (ptype p) = Some sch"
    and "list_all2 fits sch (pargs p)"
    by (auto simp: well_formed_def split: option.splits)
  then have "decode_args (ptype p) (concat (map wire (pargs p))) = Inr (pargs p)"
    using decode_args_wire [where post = "[]"] by simp
  moreover have "nat (ptype p) < 65536" "length (concat (map wire (pargs p))) < 65536"
    using assms by (auto simp: well_formed_def)
  then have "read_packet (packet_frame p @ rest)
      = (decode_packet (int (nat (ptype p))) (concat (map wire (pargs p))), rest)"
    unfolding packet_frame_def by (rule read_packet_frame)
  ultimately show ?thesis
    using assms by (simp add: well_formed_def decode_packet_def)
qed

lemma read_packet_unknown:
  assumes "t < 65536" and "length payload < 65536" and "IN_SCHEMAS (int t) = None"
  shows "read_packet (frame t payload @ rest) = (Inl Key_Error, rest)"
  using read_packet_frame [OF assms(1,2)] assms(3)
  by (simp add: decode_packet_def decode_args_def)

text \<open>When an outbound argument can be written.\<close>

fun arg_ok :: "char \<Rightarrow> out_arg \<Rightarrow> bool" where
  "arg_ok c (OInt n) \<longleftrightarrow>
     (if c = CHR ''I'' then 0 \<le> n \<and> n < 4294967296 else c = CHR ''S'' \<and> 0 \<le> n \<and> n < 65536)"
| "arg_ok c (OStr s) \<longleftrightarrow> c = CHR ''S'' \<and> length (utf8_encode s) < 65536"
| "arg_ok c (OBytes b) \<longleftrightarrow> c = CHR ''S'' \<and> length b < 65536"

lemma encode_arg_ok: "(\<exists>b. encode_arg c v = Inr b) \<longleftrightarrow> arg_ok c v"
  by (cases v) (auto simp: pack_I_def pack_H_def ebind_Inr_iff)

lemma encode_schema_ok:
  "(\<exists>b. encode_schema cs vs out = Inr b) \<longleftrightarrow>
   length cs \<le> length vs \<and> list_all2 arg_ok cs (take (length cs) vs)"
proof (induction cs vs out rule: encode_schema.induct)
  case (3 c cs v vs out)
  show ?case
  proof (cases "encode_arg c v")
    case (Inl e)
    with encode_arg_ok [of c v] show ?thesis by simp
  next
    case (Inr b)
    with encode_arg_ok [of c v] "3.IH" [of b] show ?thesis by (auto simp del: encode_arg.simps)
  qed
qed simp_all

lemma OUT_SCHEMAS_range: "OUT_SCHEMAS t = Some schema \<Longrightarrow> 0 \<le> t \<and> t < 65536"
  by (auto simp: OUT_SCHEMAS_def packet_types split: if_splits)

section \<open>Properties\<close>

text \<open>C1. Framing never loses step: any sequence of packets of known types whose arguments fit
  their schemas, as the server lays them out on the wire, is read back packet by packet in
  order, and the bytes that follow are left for the next read.\<close>

theorem packets_read_back:
  "list_all well_formed ps \<Longrightarrow>
   read_packets (length ps) (concat (map packet_frame ps) @ rest) = (Inr ps, rest)"
  by (induction ps) (simp_all add: read_packet_well_formed bnd_def)

theorem packets_read_back_witness:
  "read_packets 2
     (packet_frame \<lparr>ptype = 7, pargs = [IInts [111], IStrs [[84, 101]], IInts [220], IInts [1]]\<rparr>
      @ packet_frame \<lparr>ptype = 30, pargs = [IInt 555, IBytes [104, 105], IBytes [0]]\<rparr> @ [9, 9])
   = (Inr [\<lparr>ptype = 7, pargs = [IInts [111], IStrs [[84, 101]], IInts [220], IInts [1]]\<rparr>,
           \<lparr>ptype = 30, pargs = [IInt 555, IBytes [104, 105], IBytes [0]]\<rparr>], [9, 9])"
  using packets_read_back
    [of "[\<lparr>ptype = 7, pargs = [IInts [111], IStrs [[84, 101]], IInts [220], IInts [1]]\<rparr>,
          \<lparr>ptype = 30, pargs = [IInt 555, IBytes [104, 105], IBytes [0]]\<rparr>]" "[9, 9]"]
  by (simp add: well_formed_def IN_SCHEMAS_def packet_types wire_str_def numeral_2_eq_2)

text \<open>C2. Writing and reading agree: whatever packet the client manages to encode, of a type
  whose inbound and outbound schemas coincide, is read back by the peer's decoder as the
  arguments that were passed (text as its UTF-8 bytes), with nothing consumed beyond it.\<close>

theorem encoded_packet_reads_back:
  assumes "encode_packet t args = Inr bs" and "IN_SCHEMAS t = OUT_SCHEMAS t"
  shows "read_packet (bs @ rest)
       = (Inr \<lparr>ptype = t, pargs = map2 received (the (OUT_SCHEMAS t)) args\<rparr>, rest)"
proof -
  obtain schema where sch: "OUT_SCHEMAS t = Some schema"
    and "list_all2 fits schema (map2 received schema args)" and t: "0 \<le> t" "t < 65536"
    and "length (concat (map wire (map2 received schema args))) < 65536"
    and bs: "bs = be16 (nat t) @ be16 (length (concat (map wire (map2 received schema args))))
              @ concat (map wire (map2 received schema args))"
    using encode_packet_frame [OF assms(1)] by blast
  then have "well_formed \<lparr>ptype = t, pargs = map2 received schema args\<rparr>"
    using assms(2) by (simp add: well_formed_def)
  from read_packet_well_formed [OF this] sch show ?thesis
    by (simp add: packet_frame_def frame_def bs)
qed

theorem encoded_packet_reads_back_witness:
  "read_packet (be16 30 @ be16 11 @ be32 555 @ be16 2 @ [104, 105] @ be16 1 @ [0] @ [7])
   = (Inr \<lparr>ptype = 30, pargs = [IInt 555, IBytes [104, 105], IBytes [0]]\<rparr>, [7])"
proof -
  have enc: "encode_packet AOCP_MSG_PRIVATE [OInt 555, OStr ''hi'', OBytes [0]]
      = Inr (be16 30 @ be16 11 @ be32 555 @ be16 2 @ [104, 105] @ be16 1 @ [0])"
    by (simp add: encode_packet_def encode_args_def encode_header_def OUT_SCHEMAS_def packet_types
        pack_H_def pack_I_def utf8_encode_def utf8_char_def ordc_def)
  have "IN_SCHEMAS AOCP_MSG_PRIVATE = OUT_SCHEMAS AOCP_MSG_PRIVATE"
    by (simp add: IN_SCHEMAS_def OUT_SCHEMAS_def packet_types)
  from encoded_packet_reads_back [OF enc this, of "[7]"] show ?thesis
    by (simp add: OUT_SCHEMAS_def packet_types utf8_encode_def utf8_char_def ordc_def)
qed

text \<open>C3. Exactly which sends succeed: the type must have an outbound schema, every schema code
  an argument of its kind within its width (surplus arguments are ignored), and the payload
  must fit the 16-bit length field. Everything else raises.\<close>

theorem encode_packet_succeeds_iff:
  "(\<exists>bs. encode_packet t args = Inr bs) \<longleftrightarrow>
   (\<exists>schema. OUT_SCHEMAS t = Some schema \<and> length schema \<le> length args
      \<and> list_all2 arg_ok schema (take (length schema) args)
      \<and> length (concat (map wire (map2 received schema args))) < 65536)"
proof (cases "OUT_SCHEMAS t")
  case None
  then show ?thesis by (simp add: encode_packet_def encode_args_def)
next
  case (Some schema)
  show ?thesis
  proof (cases "encode_schema schema args []")
    case (Inl e)
    then show ?thesis
      using Some encode_schema_ok [of schema args "[]"]
      by (auto simp: encode_packet_def encode_args_def)
  next
    case (Inr b)
    then show ?thesis
      using Some encode_schema_ok [of schema args "[]"] encode_schema_wire [OF Inr]
        OUT_SCHEMAS_range [OF Some]
      by (auto simp: encode_packet_def encode_args_def encode_header_def pack_H_def)
  qed
qed

end
