(* ===== verification/Crypto.thy ===== *)
theory Crypto
  imports Packet
begin

unbundle bit_operations_syntax

text \<open>
  \<open>aochat/crypto.py\<close>: the block permutation on Python integers with its explicit 32-bit
  masks, the chained encryption of the login blob and the derivation of the login key. The
  random numbers the code draws (\<open>secrets.randbits\<close>, \<open>secrets.token_bytes\<close>) are arguments.

  The reference is TEA on \<open>32 word\<close> values, where sums wrap around by themselves, with its
  inverse; the masked integer code is shown to be that cipher, and the blob to be readable by
  whoever holds the same secret.
\<close>

section \<open>Python integers\<close>

definition MASK32 :: int where "MASK32 = 0xFFFFFFFF"
definition TEA_DELTA :: int where "TEA_DELTA = 0x9E3779B9"
definition TEA_ROUNDS :: nat where "TEA_ROUNDS = 32"

definition DH_Y :: nat where
  "DH_Y = 0x9c32cc23d559ca90fc31be72df817d0e124769e809f936bc14360ff4bed758f260a0d596584eacbbc2b88bdd410416163e11dbf62173393fbc0c6fefb2d855f1a03dec8e9f105bbad91b3437d8eb73fe2f44159597aa4053cf788d2f9d7012fb8d7c4ce3876f7d6cd5d0c31754f4cd96166708641958de54a6def5657b9f2e92"

definition DH_N :: nat where
  "DH_N = 0xeca2e8c85d863dcdc26a429a71a9815ad052f6139669dd659f98ae159d313d13c6bf2838e10a69b6478b64a24bd054ba8248e8fa778703b418408249440b2c1edd28853e240d8a7e49540b76d120d3b1ad2878b1b99490eb4a2a5e84caa8a91cecbdb1aa7c816e8be343246f80c637abc653b893fd91686cf8d32d6cfe5f2a6f"

definition DH_G :: nat where "DH_G = 5"

type_synonym key_words = "int \<times> int \<times> int \<times> int"

text \<open>One pass of the loop body of \<open>_permute\<close> over the state \<open>(a, b, c)\<close>.\<close>

definition permute_round :: "key_words \<Rightarrow> int \<times> int \<times> int \<Rightarrow> int \<times> int \<times> int" where
  "permute_round = (\<lambda>(k1, k2, k3, k4) (a, b, c).
     let c = (c + TEA_DELTA) AND MASK32;
         term1 = (((push_bit 4 b AND MASK32) AND 0xFFFFFFF0) + k1) AND MASK32;
         term1 = term1 XOR ((b + c) AND MASK32);
         term2 = ((drop_bit 5 b AND 0x07FFFFFF) + k2) AND MASK32;
         a = (a + (term1 XOR term2)) AND MASK32;
         term3 = (((push_bit 4 a AND MASK32) AND 0xFFFFFFF0) + k3) AND MASK32;
         term3 = term3 XOR ((a + c) AND MASK32);
         term4 = ((drop_bit 5 a AND 0x07FFFFFF) + k4) AND MASK32;
         b = (b + (term3 XOR term4)) AND MASK32
     in (a, b, c))"

definition permute :: "int \<Rightarrow> int \<Rightarrow> key_words \<Rightarrow> int \<times> int" where
  "permute a b key_words =
     (case (permute_round key_words ^^ TEA_ROUNDS) (a, b, 0) of (a', b', _) \<Rightarrow> (a', b'))"

section \<open>Hexadecimal and little-endian notation\<close>

definition hex_digit :: "nat \<Rightarrow> char" where
  "hex_digit n = char_of (if n < 10 then 48 + n else 87 + n)"

text \<open>\<open>bytes.hex()\<close>, and \<open>format(n, "x")\<close>.\<close>

definition hex_byte :: "byte \<Rightarrow> string" where
  "hex_byte b = [hex_digit (unat b div 16), hex_digit (unat b mod 16)]"

definition hex_bytes :: "bytes \<Rightarrow> string" where
  "hex_bytes bs = concat (map hex_byte bs)"

fun hex_str :: "nat \<Rightarrow> string" where
  "hex_str n = (if n < 16 then [hex_digit n] else hex_str (n div 16) @ [hex_digit (n mod 16)])"

declare hex_str.simps [simp del]

definition hex_val :: "char \<Rightarrow> nat option" where
  "hex_val c =
     (if 48 \<le> ordc c \<and> ordc c \<le> 57 then Some (ordc c - 48)
      else if 97 \<le> ordc c \<and> ordc c \<le> 102 then Some (ordc c - 87)
      else if 65 \<le> ordc c \<and> ordc c \<le> 70 then Some (ordc c - 55)
      else None)"

text \<open>\<open>bytes.fromhex\<close>: pairs of digits, with ASCII white space allowed between pairs.\<close>

definition hex_space :: "char \<Rightarrow> bool" where
  "hex_space c \<longleftrightarrow> ordc c = 32 \<or> (9 \<le> ordc c \<and> ordc c \<le> 13)"

fun fromhex :: "string \<Rightarrow> bytes option" where
  "fromhex [] = Some []"
| "fromhex [c] = (if hex_space c then Some [] else None)"
| "fromhex (c # d # cs) =
     (if hex_space c then fromhex (d # cs)
      else (case (hex_val c, hex_val d) of
              (Some h, Some l) \<Rightarrow> map_option (\<lambda>bs. of_nat (16 * h + l) # bs) (fromhex cs)
            | _ \<Rightarrow> None))"

text \<open>\<open>struct.unpack("<...I", data)\<close> for a buffer of whole words, \<open>struct.pack("<I", w)\<close>.\<close>

fun unpack_le :: "bytes \<Rightarrow> int list" where
  "unpack_le (p # q # r # s # rest) =
     (uint p + 256 * uint q + 65536 * uint r + 16777216 * uint s) # unpack_le rest"
| "unpack_le _ = []"

definition pack_le :: "int \<Rightarrow> bytes" where
  "pack_le w = [of_int w, of_int (w div 256), of_int (w div 65536), of_int (w div 16777216)]"

definition pad_zero :: "nat \<Rightarrow> string \<Rightarrow> string" where
  "pad_zero n s = replicate (n - length s) (CHR ''0'') @ s"

section \<open>The login blob\<close>

fun crypt_blocks :: "key_words \<Rightarrow> int list \<Rightarrow> int \<times> int \<Rightarrow> string" where
  "crypt_blocks key_words (d0 # d1 # data_words) (prev0, prev1) =
     (let (q0, q1) = permute (d0 XOR prev0) (d1 XOR prev1) key_words
      in hex_bytes (pack_le q0) @ hex_bytes (pack_le q1)
         @ crypt_blocks key_words data_words (q0, q1))"
| "crypt_blocks key_words _ _ = []"

definition aochat_crypt :: "string \<Rightarrow> bytes \<Rightarrow> exn + string" where
  "aochat_crypt key_hex plain =
     (if length key_hex \<noteq> 32
      then Inl (Value_Error ''key_hex must be exactly 32 hex characters (16 bytes)'')
      else if length plain mod 8 \<noteq> 0
      then Inl (Value_Error ''plain must be a multiple of 8 bytes'')
      else (case fromhex key_hex of
              None \<Rightarrow> Inl (Value_Error ''non-hexadecimal number found in fromhex() arg'')
            | Some key \<Rightarrow>
                (case unpack_le key of
                   [k1, k2, k3, k4] \<Rightarrow>
                     if length key = 16 then Inr (crypt_blocks (k1, k2, k3, k4) (unpack_le plain) (0, 0))
                     else Inl Struct_Error
                 | _ \<Rightarrow> Inl Struct_Error)))"

text \<open>\<open>pow(base, exp, mod)\<close>.\<close>

definition pow_mod :: "nat \<Rightarrow> nat \<Rightarrow> nat \<Rightarrow> nat" where
  "pow_mod b e n = b ^ e mod n"

definition dh_key_hex :: "nat \<Rightarrow> string" where
  "dh_key_hex dh_k =
     (let s = hex_str dh_k in if length s < 32 then pad_zero 32 s else take 32 s)"

definition login_str :: "bytes \<Rightarrow> string \<Rightarrow> string \<Rightarrow> bytes" where
  "login_str server_seed username password =
     utf8_encode username @ [124] @ server_seed @ [124] @ utf8_encode password"

definition login_pad :: "nat \<Rightarrow> bytes" where
  "login_pad len = replicate ((8 - len mod 8) mod 8) 32"

definition generate_login_key :: "nat \<Rightarrow> bytes \<Rightarrow> bytes \<Rightarrow> string \<Rightarrow> string \<Rightarrow> exn + string" where
  "generate_login_key dh_x prefix server_seed username password =
     (let dh_capital_x = pow_mod DH_G dh_x DH_N;
          dh_k = pow_mod DH_Y dh_x DH_N;
          login = login_str server_seed username password;
          pad = login_pad (8 + 4 + length login)
      in ebind (pack_I (int (length login))) (\<lambda>len.
         ebind (aochat_crypt (dh_key_hex dh_k) (prefix @ len @ login @ pad)) (\<lambda>crypted.
         Inr (hex_str dh_capital_x @ ''-'' @ crypted))))"

section \<open>Reference: TEA on 32-bit words\<close>

type_synonym u32 = "32 word"
type_synonym tea_key = "u32 \<times> u32 \<times> u32 \<times> u32"

definition tea_mix :: "u32 \<Rightarrow> u32 \<Rightarrow> u32 \<Rightarrow> u32 \<Rightarrow> u32" where
  "tea_mix k l v c = ((push_bit 4 v + k) XOR (v + c)) XOR (drop_bit 5 v + l)"

definition tea_round :: "tea_key \<Rightarrow> u32 \<times> u32 \<times> u32 \<Rightarrow> u32 \<times> u32 \<times> u32" where
  "tea_round = (\<lambda>(k1, k2, k3, k4) (a, b, c).
     let c = c + 0x9E3779B9; a = a + tea_mix k1 k2 b c; b = b + tea_mix k3 k4 a c in (a, b, c))"

definition tea_unround :: "tea_key \<Rightarrow> u32 \<times> u32 \<times> u32 \<Rightarrow> u32 \<times> u32 \<times> u32" where
  "tea_unround = (\<lambda>(k1, k2, k3, k4) (a, b, c).
     let b = b - tea_mix k3 k4 a c; a = a - tea_mix k1 k2 b c in (a, b, c - 0x9E3779B9))"

text \<open>The round counter ends at \<open>32 * 0x9E3779B9\<close>, where decryption starts.\<close>

definition tea_encipher :: "tea_key \<Rightarrow> u32 \<times> u32 \<Rightarrow> u32 \<times> u32" where
  "tea_encipher k = (\<lambda>(a, b). case (tea_round k ^^ 32) (a, b, 0) of (a', b', _) \<Rightarrow> (a', b'))"

definition tea_decipher :: "tea_key \<Rightarrow> u32 \<times> u32 \<Rightarrow> u32 \<times> u32" where
  "tea_decipher k =
     (\<lambda>(a, b). case (tea_unround k ^^ 32) (a, b, 32 * 0x9E3779B9) of (a', b', _) \<Rightarrow> (a', b'))"

definition xor_block :: "u32 \<times> u32 \<Rightarrow> u32 \<times> u32 \<Rightarrow> u32 \<times> u32" where
  "xor_block = (\<lambda>(a, b) (c, d). (a XOR c, b XOR d))"

text \<open>Cipher block chaining over any block cipher.\<close>

fun cbc_enc :: "('b \<Rightarrow> 'b) \<Rightarrow> ('b \<Rightarrow> 'b \<Rightarrow> 'b) \<Rightarrow> 'b \<Rightarrow> 'b list \<Rightarrow> 'b list" where
  "cbc_enc E xr iv [] = []"
| "cbc_enc E xr iv (p # ps) = E (xr p iv) # cbc_enc E xr (E (xr p iv)) ps"

fun cbc_dec :: "('b \<Rightarrow> 'b) \<Rightarrow> ('b \<Rightarrow> 'b \<Rightarrow> 'b) \<Rightarrow> 'b \<Rightarrow> 'b list \<Rightarrow> 'b list" where
  "cbc_dec D xr iv [] = []"
| "cbc_dec D xr iv (c # cs) = xr (D c) iv # cbc_dec D xr c cs"

locale block_cipher =
  fixes E :: "'b \<Rightarrow> 'b"
    and D :: "'b \<Rightarrow> 'b"
    and xr :: "'b \<Rightarrow> 'b \<Rightarrow> 'b"
  assumes D_E: "D (E b) = b"
    and xr_cancel: "xr (xr a b) b = a"
begin

lemma cbc_dec_enc: "cbc_dec D xr iv (cbc_enc E xr iv ps) = ps"
  by (induction ps arbitrary: iv) (simp_all add: D_E xr_cancel)

end

lemma tea_unround_round: "tea_unround k (tea_round k s) = s"
  by (cases k; cases s) (simp add: tea_round_def tea_unround_def Let_def)

lemma tea_unround_rounds: "(tea_unround k ^^ n) ((tea_round k ^^ n) s) = s"
  by (induction n arbitrary: s) (simp_all add: funpow_swap1 tea_unround_round)

lemma tea_round_counter:
  "snd (snd ((tea_round k ^^ n) (a, b, 0))) = of_nat n * 0x9E3779B9"
  by (induction n) (simp_all add: tea_round_def Let_def split_def algebra_simps)

lemma tea_decipher_encipher: "tea_decipher k (tea_encipher k b) = b"
proof (cases b)
  case (Pair x y)
  obtain a' b' c' where r: "(tea_round k ^^ 32) (x, y, 0) = (a', b', c')"
    by (metis prod_cases3)
  then have "c' = 32 * 0x9E3779B9"
    using tea_round_counter [of 32 k x y] by simp
  with r tea_unround_rounds [of 32 k "(x, y, 0)"] Pair show ?thesis
    by (simp add: tea_encipher_def tea_decipher_def)
qed

interpretation tea: block_cipher "tea_encipher k" "tea_decipher k" xor_block for k
  by unfold_locales
    (auto simp: tea_decipher_encipher xor_block_def xor.assoc split: prod.splits)

section \<open>The masked integer code is TEA\<close>

lemma MASK32_mask: "x AND MASK32 = take_bit 32 x"
  by (simp add: MASK32_def take_bit_eq_mask mask_eq_exp_minus_1)

lemma masked_add: "(uint (x :: u32) + uint y) AND MASK32 = uint (x + y)"
  by (simp add: MASK32_mask uint_word_ariths take_bit_eq_mod)

lemma masked_shl4: "(push_bit 4 (uint (v :: u32)) AND MASK32) AND 0xFFFFFFF0 = uint (push_bit 4 v)"
proof -
  have "(0xFFFFFFF0 :: int) = push_bit 4 (mask 28)"
    by (simp add: mask_eq_exp_minus_1 push_bit_eq_mult)
  note eq = this
  show ?thesis
    unfolding MASK32_mask eq
    by (rule bit_eqI) (auto simp: bit_simps unsigned_push_bit_eq)
qed

lemma masked_shr5: "drop_bit 5 (uint (v :: u32)) AND 0x07FFFFFF = uint (drop_bit 5 v)"
proof -
  have "(0x07FFFFFF :: int) = mask 27"
    by (simp add: mask_eq_exp_minus_1)
  note eq = this
  show ?thesis
    unfolding eq
    by (rule bit_eqI) (auto simp: bit_simps unsigned_drop_bit_eq)
qed

lemmas masked_ops =
  masked_shl4 masked_shr5 masked_add unsigned_xor_eq [symmetric]

definition ints3 :: "u32 \<times> u32 \<times> u32 \<Rightarrow> int \<times> int \<times> int" where
  "ints3 = (\<lambda>(a, b, c). (uint a, uint b, uint c))"

definition key_ints :: "tea_key \<Rightarrow> key_words" where
  "key_ints = (\<lambda>(k1, k2, k3, k4). (uint k1, uint k2, uint k3, uint k4))"

lemma TEA_DELTA_word: "TEA_DELTA = uint (0x9E3779B9 :: u32)"
  by (simp add: TEA_DELTA_def)

lemma permute_round_tea: "permute_round (key_ints k) (ints3 s) = ints3 (tea_round k s)"
  by (cases k; cases s)
    (simp only: permute_round_def key_ints_def ints3_def tea_round_def tea_mix_def Let_def
      prod.case TEA_DELTA_word masked_ops)

lemma permute_rounds_tea:
  "(permute_round (key_ints k) ^^ n) (ints3 s) = ints3 ((tea_round k ^^ n) s)"
  by (induction n) (simp_all add: permute_round_tea)

lemma permute_tea:
  "permute (uint a) (uint b) (key_ints k)
     = (uint (fst (tea_encipher k (a, b))), uint (snd (tea_encipher k (a, b))))"
  using permute_rounds_tea [where n = 32 and k = k and s = "(a, b, 0)"]
  by (simp add: permute_def TEA_ROUNDS_def tea_encipher_def ints3_def split: prod.splits)

section \<open>Notation round trips\<close>

lemma hex_val_digit [simp]: "n < 16 \<Longrightarrow> hex_val (hex_digit n) = Some n"
  by (simp add: hex_val_def hex_digit_def)

lemma hex_digit_not_space [simp]: "n < 16 \<Longrightarrow> \<not> hex_space (hex_digit n)"
  by (simp add: hex_space_def hex_digit_def)

lemma fromhex_byte: "fromhex (hex_byte b @ s) = map_option ((#) b) (fromhex s)"
proof -
  have "unat b div 16 < 16" by (simp add: less_mult_imp_div_less)
  then show ?thesis
    by (simp add: hex_byte_def)
qed

lemma fromhex_hex_bytes: "fromhex (hex_bytes bs) = Some bs"
  by (induction bs) (simp_all add: hex_bytes_def fromhex_byte)

lemma hex_bytes_append [simp]: "hex_bytes (xs @ ys) = hex_bytes xs @ hex_bytes ys"
  by (simp add: hex_bytes_def)

definition is_hex :: "char \<Rightarrow> bool" where
  "is_hex c \<longleftrightarrow> (48 \<le> ordc c \<and> ordc c \<le> 57) \<or> (97 \<le> ordc c \<and> ordc c \<le> 102)"

lemma is_hex_digit [simp]: "n < 16 \<Longrightarrow> is_hex (hex_digit n)"
  by (simp add: is_hex_def hex_digit_def)

lemma is_hex_hex_str: "list_all is_hex (hex_str n)"
proof (induction n rule: hex_str.induct)
  case (1 n)
  then show ?case by (subst hex_str.simps) auto
qed

lemma fromhex_is_hex:
  "list_all is_hex s \<Longrightarrow> even (length s) \<Longrightarrow>
   \<exists>bs. fromhex s = Some bs \<and> 2 * length bs = length s"
proof (induction s rule: fromhex.induct)
  case (3 c d cs)
  have some: "\<exists>v. hex_val x = Some v" if "is_hex x" for x
    using that by (auto simp: is_hex_def hex_val_def)
  obtain h l where "hex_val c = Some h" "hex_val d = Some l"
    using some [of c] some [of d] "3.prems" by auto
  moreover have "\<not> hex_space c"
    using "3.prems" by (auto simp: is_hex_def hex_space_def)
  moreover from calculation obtain bs where "fromhex cs = Some bs" "2 * length bs = length cs"
    using "3.IH"(2) "3.prems" by auto
  ultimately show ?case by simp
qed simp_all

lemma dh_key_hex_shape: "length (dh_key_hex k) = 32 \<and> list_all is_hex (dh_key_hex k)"
proof -
  have "is_hex (CHR ''0'')" by (simp add: is_hex_def ordc_def)
  then show ?thesis
    using is_hex_hex_str [of k]
    by (auto simp: dh_key_hex_def pad_zero_def Let_def list_all_iff dest: in_set_takeD)
qed

section \<open>Words, bytes and blocks\<close>

definition int_bytes :: "u32 \<Rightarrow> bytes" where
  "int_bytes w = pack_le (uint w)"

lemma uint_byte_of_int: "uint (of_int i :: byte) = i mod 256"
  by (simp add: uint_word_of_int)

lemma le_value:
  fixes i :: int
  assumes "0 \<le> i" and "i < 4294967296"
  shows "i mod 256 + 256 * (i div 256 mod 256) + 65536 * (i div 65536 mod 256)
       + 16777216 * (i div 16777216 mod 256) = i"
proof -
  define q r s where "q = i div 256" and "r = q div 256" and "s = r div 256"
  have d: "i div 256 = q" "i div 65536 = r" "i div 16777216 = s"
    by (simp_all add: q_def r_def s_def zdiv_zmult2_eq [symmetric])
  have "0 \<le> s" "s < 256"
    unfolding d(3) [symmetric] using assms by (simp_all add: int_div_less_self)
  then have m: "s mod 256 = s" by simp
  have "i = 256 * q + i mod 256" "q = 256 * r + q mod 256" "r = 256 * s + r mod 256"
    by (simp_all add: q_def r_def s_def)
  then show ?thesis
    unfolding d m by linarith
qed

lemma unpack_le_int_bytes [simp]: "unpack_le (int_bytes w @ rest) = uint w # unpack_le rest"
proof -
  have "0 \<le> uint w" "uint w < 4294967296"
    using uint_bounded [of w] by simp_all
  from le_value [OF this] show ?thesis
    by (simp only: int_bytes_def pack_le_def append.simps unpack_le.simps uint_byte_of_int)
qed

lemma uint_u32_of_int: "0 \<le> i \<Longrightarrow> i < 4294967296 \<Longrightarrow> uint (of_int i :: u32) = i"
  by (simp add: uint_word_of_int)

fun blocks :: "int list \<Rightarrow> (u32 \<times> u32) list" where
  "blocks (a # b # ws) = (of_int a, of_int b) # blocks ws"
| "blocks _ = []"

definition block_bytes :: "u32 \<times> u32 \<Rightarrow> bytes" where
  "block_bytes = (\<lambda>(a, b). int_bytes a @ int_bytes b)"

lemma blocks_block_bytes [simp]: "blocks (unpack_le (concat (map block_bytes bs))) = bs"
  by (induction bs) (auto simp: block_bytes_def)

lemma uint_byte_bound: "0 \<le> uint (b :: byte)" "uint (b :: byte) < 256"
  using uint_bounded [of b] by simp_all

lemma le_bound:
  fixes p q r s :: byte
  defines "n \<equiv> uint p + 256 * uint q + 65536 * uint r + 16777216 * uint s"
  shows "0 \<le> n" "n < 4294967296"
  using uint_byte_bound [of p] uint_byte_bound [of q] uint_byte_bound [of r] uint_byte_bound [of s]
  unfolding n_def by linarith+

lemma unpack_le_bound: "\<forall>w \<in> set (unpack_le bs). 0 \<le> w \<and> w < 4294967296"
proof (induction bs rule: unpack_le.induct)
  case (1 p q r s rest)
  then show ?case using le_bound [of p q r s] by simp
qed simp_all

lemma crypt_blocks_cbc:
  assumes "\<forall>w \<in> set ws. 0 \<le> w \<and> w < 4294967296"
  shows "crypt_blocks (key_ints k) ws (uint p, uint q)
       = hex_bytes (concat (map block_bytes (cbc_enc (tea_encipher k) xor_block (p, q) (blocks ws))))"
  using assms
proof (induction ws arbitrary: p q rule: blocks.induct)
  case (1 a b ws)
  have ab: "a = uint (of_int a :: u32)" "b = uint (of_int b :: u32)"
    using 1 by (simp_all add: uint_word_of_int)
  obtain r s where e: "tea_encipher k (of_int a XOR p, of_int b XOR q) = (r, s)"
    by fastforce
  then have "permute (a XOR uint p) (b XOR uint q) (key_ints k) = (uint r, uint s)"
    using permute_tea [of "of_int a XOR p" "of_int b XOR q" k] ab
    by (simp only: unsigned_xor_eq) simp
  with e "1.IH" [of r s] "1.prems" show ?case
    by (simp add: xor_block_def block_bytes_def int_bytes_def)
qed (simp_all add: hex_bytes_def)

text \<open>Splitting a buffer of whole blocks into blocks and joining them gives the buffer back.\<close>

lemma byte_wraps: "(256 :: byte) = 0" "(65536 :: byte) = 0" "(16777216 :: byte) = 0"
  by simp_all

lemma int_bytes_unpack:
  "int_bytes (of_int (uint p + 256 * uint q + 65536 * uint r + 16777216 * uint s)) = [p, q, r, s]"
proof -
  let ?n = "uint p + 256 * uint q + 65536 * uint r + 16777216 * uint s"
  have n: "uint (of_int ?n :: u32) = ?n"
    using le_bound [of p q r s] by (rule uint_u32_of_int)
  have d: "?n div 256 = uint q + 256 * uint r + 65536 * uint s"
    "?n div 65536 = uint r + 256 * uint s" "?n div 16777216 = uint s"
    using uint_byte_bound [of p] uint_byte_bound [of q] uint_byte_bound [of r] by linarith+
  show ?thesis
    unfolding int_bytes_def pack_le_def n d by (simp add: byte_wraps)
qed

lemma bytes_blocks:
  "length bs mod 8 = 0 \<Longrightarrow> concat (map block_bytes (blocks (unpack_le bs))) = bs"
proof (induction "length bs div 8" arbitrary: bs)
  case 0
  then show ?case by (cases bs) auto
next
  case (Suc n)
  then have "8 \<le> length bs" by simp
  then obtain p0 p1 p2 p3 q0 q1 q2 q3 rest where bs: "bs = [p0, p1, p2, p3, q0, q1, q2, q3] @ rest"
    by (auto simp: numeral_eq_Suc Suc_le_length_iff)
  with Suc have "concat (map block_bytes (blocks (unpack_le rest))) = rest"
    by simp
  with bs show ?case
    by (simp add: block_bytes_def int_bytes_unpack [simplified])
qed

section \<open>What the server sees\<close>

text \<open>
  The server's side of the login: it shares the secret the key was cut from, decrypts the
  blob, skips the eight random bytes and takes the announced number of bytes.
\<close>

definition tea_key_of :: "string \<Rightarrow> tea_key option" where
  "tea_key_of key_hex =
     (case map_option unpack_le (fromhex key_hex) of
        Some [k1, k2, k3, k4] \<Rightarrow> Some (of_int k1, of_int k2, of_int k3, of_int k4)
      | _ \<Rightarrow> None)"

definition open_blob :: "string \<Rightarrow> string \<Rightarrow> bytes option" where
  "open_blob key_hex blob =
     (case (tea_key_of key_hex, fromhex blob) of
        (Some k, Some crypted) \<Rightarrow>
          (let plain = concat (map block_bytes
                 (cbc_dec (tea_decipher k) xor_block (0, 0) (blocks (unpack_le crypted))))
           in case unpack_I plain 8 of Inr len \<Rightarrow> Some (slice plain 12 len) | Inl _ \<Rightarrow> None)
      | _ \<Rightarrow> None)"

text \<open>A key of 32 hexadecimal digits is four words.\<close>

lemma key_hex_words:
  assumes "length key_hex = 32" and "list_all is_hex key_hex"
  obtains key k where "fromhex key_hex = Some key" and "length key = 16"
    and "unpack_le key = (case key_ints k of (k1, k2, k3, k4) \<Rightarrow> [k1, k2, k3, k4])"
    and "tea_key_of key_hex = Some k"
proof -
  obtain key where key: "fromhex key_hex = Some key" "length key = 16"
    using fromhex_is_hex [OF assms(2)] assms(1) by auto
  then obtain k1 k2 k3 k4 where ws: "unpack_le key = [k1, k2, k3, k4]"
    by (auto simp: numeral_eq_Suc length_Suc_conv)
  then have "\<forall>w \<in> {k1, k2, k3, k4}. 0 \<le> w \<and> w < 4294967296"
    using unpack_le_bound [of key] by simp
  then show thesis
    using key ws by (intro that [of key "(of_int k1, of_int k2, of_int k3, of_int k4)"])
      (simp_all add: key_ints_def uint_u32_of_int tea_key_of_def)
qed

lemma aochat_crypt_opens:
  assumes "length key_hex = 32" and "list_all is_hex key_hex"
    and "length plain mod 8 = 0" and "unpack_I plain 8 = Inr len"
  shows "\<exists>blob. aochat_crypt key_hex plain = Inr blob
    \<and> open_blob key_hex blob = Some (slice plain 12 len) \<and> list_all is_hex blob"
proof -
  obtain key k where key: "fromhex key_hex = Some key" "length key = 16"
    and ws: "unpack_le key = (case key_ints k of (k1, k2, k3, k4) \<Rightarrow> [k1, k2, k3, k4])"
    and tk: "tea_key_of key_hex = Some k"
    using key_hex_words [OF assms(1,2)] by blast
  define cs where "cs = cbc_enc (tea_encipher k) xor_block (0, 0) (blocks (unpack_le plain))"
  define blob where "blob = hex_bytes (concat (map block_bytes cs))"
  have "aochat_crypt key_hex plain = Inr (crypt_blocks (key_ints k) (unpack_le plain) (0, 0))"
    using assms(1,3) key ws by (simp add: aochat_crypt_def split: prod.splits)
  also have "crypt_blocks (key_ints k) (unpack_le plain) (0, 0) = blob"
    using crypt_blocks_cbc [OF unpack_le_bound [of plain], where k = k and p = 0 and q = 0] by (simp add: blob_def cs_def)
  finally have enc: "aochat_crypt key_hex plain = Inr blob" .
  have "cbc_dec (tea_decipher k) xor_block (0, 0) cs = blocks (unpack_le plain)"
    unfolding cs_def by (rule tea.cbc_dec_enc)
  then have "open_blob key_hex blob = Some (slice plain 12 len)"
    using tk assms(3,4) by (simp add: open_blob_def blob_def fromhex_hex_bytes bytes_blocks)
  moreover have "list_all is_hex (hex_bytes bs)" for bs
    by (induction bs) (simp_all add: hex_bytes_def hex_byte_def less_mult_imp_div_less)
  ultimately show ?thesis
    using enc by (auto simp: blob_def)
qed

lemma pad_to_8: "(n + (8 - n mod 8) mod 8) mod 8 = (0 :: nat)"
proof -
  obtain q m where n: "n = 8 * q + m" "m < 8"
    by (metis mod_less_divisor mult_div_mod_eq zero_less_numeral)
  then show ?thesis
    by (cases "m = 0") simp_all
qed

section \<open>Properties\<close>

text \<open>C4. The masked integer arithmetic of \<open>_permute\<close> is the 32-round TEA block cipher on
  32-bit words, for every key and every block.\<close>

theorem permute_is_tea:
  "permute (uint a) (uint b) (uint k1, uint k2, uint k3, uint k4)
     = (let (c, d) = tea_encipher (k1, k2, k3, k4) (a, b) in (uint c, uint d))"
  using permute_tea [of a b "(k1, k2, k3, k4)"]
  by (simp add: key_ints_def split: prod.splits)

text \<open>C5. Key derivation never fails on a login string that fits its length field, and the
  server, which holds the same Diffie-Hellman secret, recovers from the blob exactly
  \<open>username|seed|password\<close>, whatever the random prefix and exponent were. The public half
  and the blob are hexadecimal, so the separator between them is unambiguous.\<close>

theorem login_key_opens:
  assumes "length prefix = 8" and "length (login_str seed user pw) < 4294967296"
  shows "\<exists>blob. generate_login_key dh_x prefix seed user pw
            = Inr (hex_str (pow_mod DH_G dh_x DH_N) @ ''-'' @ blob)
        \<and> open_blob (dh_key_hex (pow_mod DH_Y dh_x DH_N)) blob = Some (login_str seed user pw)
        \<and> list_all is_hex (hex_str (pow_mod DH_G dh_x DH_N) @ blob)"
proof -
  define login where "login = login_str seed user pw"
  define key_hex where "key_hex = dh_key_hex (pow_mod DH_Y dh_x DH_N)"
  define plain where "plain = prefix @ be32 (length login) @ login @ login_pad (12 + length login)"
  have "(12 + length login + (8 - (12 + length login) mod 8) mod 8) mod 8 = 0"
    by (rule pad_to_8)
  moreover have "length plain = 12 + length login + (8 - (12 + length login) mod 8) mod 8"
    using assms(1) by (simp add: plain_def login_pad_def)
  ultimately have len: "length plain mod 8 = 0" by simp
  have "unpack_I plain (length prefix) = Inr (length login)"
    unfolding plain_def by (rule unpack_I_be32) (use assms(2) in \<open>simp add: login_def\<close>)
  with assms(1) have announced: "unpack_I plain 8 = Inr (length login)" by simp
  have shape: "length key_hex = 32" "list_all is_hex key_hex"
    using dh_key_hex_shape by (simp_all add: key_hex_def)
  from aochat_crypt_opens [OF shape len announced] obtain blob where blob: "aochat_crypt key_hex plain = Inr blob"
    "open_blob key_hex blob = Some (slice plain 12 (length login))" "list_all is_hex blob"
    by blast
  moreover have "slice plain 12 (length login) = login"
  proof -
    have "length (prefix @ be32 (length login)) = 12" using assms(1) by simp
    moreover have "plain = (prefix @ be32 (length login)) @ login @ login_pad (12 + length login)"
      by (simp only: plain_def append_assoc)
    ultimately show ?thesis by (metis slice_at)
  qed
  moreover have "generate_login_key dh_x prefix seed user pw
      = Inr (hex_str (pow_mod DH_G dh_x DH_N) @ ''-'' @ blob)"
  proof -
    have "pack_I (int (length login)) = Inr (be32 (length login))"
      using assms(2) by (simp add: pack_I_def login_def)
    moreover have "prefix @ be32 (length login) @ login @ login_pad (8 + 4 + length login) = plain"
      by (simp add: plain_def)
    ultimately show ?thesis
      unfolding generate_login_key_def Let_def login_def [symmetric] key_hex_def [symmetric]
      by (simp only: ebind_simps blob(1))
  qed
  ultimately show ?thesis
    using is_hex_hex_str by (auto simp: key_hex_def login_def)
qed

theorem login_key_opens_witness:
  "\<exists>blob. generate_login_key 3 [1, 2, 3, 4, 5, 6, 7, 8] [48, 49] ''user'' ''pw''
        = Inr (''7d'' @ ''-'' @ blob)
      \<and> open_blob (dh_key_hex (pow_mod DH_Y 3 DH_N)) blob
        = Some [117, 115, 101, 114, 124, 48, 49, 124, 112, 119]"
proof -
  have ls: "login_str [48, 49] ''user'' ''pw'' = [117, 115, 101, 114, 124, 48, 49, 124, 112, 119]"
    by (simp add: login_str_def utf8_encode_def utf8_char_def ordc_def)
  have "hex_str (pow_mod DH_G 3 DH_N) = ''7d''"
    by (simp add: pow_mod_def DH_G_def DH_N_def hex_str.simps hex_digit_def char_of_eq_iff take_bit_eq_mod)
  with login_key_opens [of "[1, 2, 3, 4, 5, 6, 7, 8]" "[48, 49]" "''user''" "''pw''" 3] ls
  show ?thesis by auto
qed

end
