(* ===== verification/Regex.thy ===== *)
theory Regex
  imports Prelude
begin

text \<open>
  The part of Python's \<open>re\<close> module that the repository's patterns use: character classes,
  concatenation, alternation, greedy repetition, numbered groups and \<open>$\<close>, with the
  backtracking order of the engine. \<open>run r s c\<close> lists the ways in which \<open>r\<close> can match at the
  start of \<open>s\<close>, each with the rest of the text and the groups captured, in the order in which
  the engine tries them; a match is the first. \<open>$\<close> matches at the end and before a final
  newline, and \<open>.\<close> matches everything but a newline.

  The order matters for what the groups capture. What matters for whether there is a match at
  all is described by the relation \<open>consumes\<close>, the reference semantics of the module.
\<close>

section \<open>Patterns\<close>

datatype re =
    Eps
  | Cls "char \<Rightarrow> bool"
  | Cat re re
  | Alt re re
  | Star re
  | Grp nat re
  | Eol

type_synonym caps = "nat \<rightharpoonup> string"

definition newline :: char where "newline = CHR 0x0A"

text \<open>Greedy repetition; an iteration that consumes nothing ends it.\<close>

fun iter ::
  "nat \<Rightarrow> (string \<Rightarrow> caps \<Rightarrow> (string \<times> caps) list) \<Rightarrow> string \<Rightarrow> caps \<Rightarrow> (string \<times> caps) list"
where
  "iter 0 f s c = [(s, c)]"
| "iter (Suc n) f s c =
     concat (map (\<lambda>(t, d). if length t < length s then iter n f t d else []) (f s c)) @ [(s, c)]"

primrec run :: "re \<Rightarrow> string \<Rightarrow> caps \<Rightarrow> (string \<times> caps) list" where
  "run Eps = (\<lambda>s c. [(s, c)])"
| "run (Cls p) = (\<lambda>s c. case s of [] \<Rightarrow> [] | x # xs \<Rightarrow> if p x then [(xs, c)] else [])"
| "run (Cat a b) = (\<lambda>s c. concat (map (\<lambda>(t, d). run b t d) (run a s c)))"
| "run (Alt a b) = (\<lambda>s c. run a s c @ run b s c)"
| "run (Star a) = (\<lambda>s c. iter (length s) (run a) s c)"
| "run (Grp n a) =
     (\<lambda>s c. map (\<lambda>(t, d). (t, d(n \<mapsto> take (length s - length t) s))) (run a s c))"
| "run Eol = (\<lambda>s c. if s = [] \<or> s = [newline] then [(s, c)] else [])"

text \<open>\<open>pattern.match(s)\<close>: anchored at the start, the groups of the first way to match.\<close>

definition re_match :: "re \<Rightarrow> string \<Rightarrow> caps option" where
  "re_match r s = (case run r s Map.empty of [] \<Rightarrow> None | (t, c) # _ \<Rightarrow> Some c)"

subsection \<open>Derived patterns\<close>

definition Plus :: "re \<Rightarrow> re" where "Plus r = Cat r (Star r)"
definition Opt :: "re \<Rightarrow> re" where "Opt r = Alt r Eps"

text \<open>A literal under \<open>re.IGNORECASE\<close>; the literal is written in lower case.\<close>

fun Lit :: "string \<Rightarrow> re" where
  "Lit [] = Eps"
| "Lit (x # xs) = Cat (Cls (\<lambda>c. lower_char c = x)) (Lit xs)"

definition Digits :: re where "Digits = Plus (Cls is_digit)"
definition Spaces :: re where "Spaces = Plus (Cls is_space)"
definition Spaces0 :: re where "Spaces0 = Star (Cls is_space)"
definition Any :: re where "Any = Cls (\<lambda>c. c \<noteq> newline)"

text \<open>A sequence of patterns.\<close>

fun Seq :: "re list \<Rightarrow> re" where
  "Seq [] = Eps"
| "Seq [r] = r"
| "Seq (r # rs) = Cat r (Seq rs)"

text \<open>
  \<open>pattern.findall(s)\<close> for a pattern with one group: the group of every match, left to right,
  each search going on behind the match before.
\<close>

function findall :: "re \<Rightarrow> string \<Rightarrow> string list" where
  "findall r s =
     (case run r s Map.empty of
        (t, c) # _ \<Rightarrow>
          (if length t < length s then (case c 1 of None \<Rightarrow> [] | Some g \<Rightarrow> g) # findall r t
           else (case s of [] \<Rightarrow> [] | _ # s' \<Rightarrow> findall r s'))
      | [] \<Rightarrow> (case s of [] \<Rightarrow> [] | _ # s' \<Rightarrow> findall r s'))"
  by pat_completeness auto
termination
  by (relation "measure (\<lambda>(r, s). length s)") auto

declare findall.simps [simp del]

section \<open>Reference semantics\<close>

inductive consumes :: "re \<Rightarrow> string \<Rightarrow> string \<Rightarrow> bool" where
  eps: "consumes Eps s s"
| cls: "p x \<Longrightarrow> consumes (Cls p) (x # s) s"
| cat: "consumes a s t \<Longrightarrow> consumes b t u \<Longrightarrow> consumes (Cat a b) s u"
| alt1: "consumes a s t \<Longrightarrow> consumes (Alt a b) s t"
| alt2: "consumes b s t \<Longrightarrow> consumes (Alt a b) s t"
| star0: "consumes (Star a) s s"
| star: "consumes a s t \<Longrightarrow> length t < length s \<Longrightarrow> consumes (Star a) t u \<Longrightarrow>
    consumes (Star a) s u"
| grp: "consumes a s t \<Longrightarrow> consumes (Grp n a) s t"
| eol: "s = [] \<or> s = [newline] \<Longrightarrow> consumes Eol s s"

inductive_cases consumes_EpsE: "consumes Eps s t"
inductive_cases consumes_ClsE: "consumes (Cls p) s t"
inductive_cases consumes_CatE: "consumes (Cat a b) s t"
inductive_cases consumes_AltE: "consumes (Alt a b) s t"
inductive_cases consumes_GrpE: "consumes (Grp n a) s t"
inductive_cases consumes_EolE: "consumes Eol s t"

inductive_simps consumes_simps:
  "consumes Eps s t"
  "consumes (Cls p) s t"
  "consumes (Cat a b) s t"
  "consumes (Alt a b) s t"
  "consumes (Grp n a) s t"
  "consumes Eol s t"

lemma iter_consumes:
  assumes "\<And>s c t d. (t, d) \<in> set (f s c) \<Longrightarrow> consumes a s t"
  shows "(t, d) \<in> set (iter n f s c) \<Longrightarrow> consumes (Star a) s t"
proof (induction n arbitrary: s c)
  case 0
  then show ?case by (simp add: consumes.star0)
next
  case (Suc n)
  then show ?case
    using assms by (fastforce split: if_splits intro: consumes.star0 consumes.star)
qed

lemma run_consumes: "(t, d) \<in> set (run r s c) \<Longrightarrow> consumes r s t"
proof (induction r arbitrary: s c t d)
  case (Star a)
  then show ?case using iter_consumes [of "run a" a] by auto
qed (fastforce intro: consumes.intros split: list.splits if_splits)+

lemma consumes_length: "consumes r s t \<Longrightarrow> length t \<le> length s"
  by (induction rule: consumes.induct) auto

lemma consumes_iter:
  assumes "\<And>s t c. consumes a s t \<Longrightarrow> \<exists>d. (t, d) \<in> set (f s c)"
  shows "consumes (Star a) s t \<Longrightarrow> length s \<le> n \<Longrightarrow> \<exists>d. (t, d) \<in> set (iter n f s c)"
proof (induction "Star a" s t arbitrary: n c rule: consumes.induct)
  case (star0 s)
  then show ?case by (cases n) auto
next
  case (star s t u)
  then obtain m where n: "n = Suc m" by (cases n) auto
  obtain d where d: "(t, d) \<in> set (f s c)"
    using assms star.hyps(1) by blast
  obtain e where "(u, e) \<in> set (iter m f t d)"
    using star.hyps(3,5) star.prems n by fastforce
  with d star.hyps(3) n show ?case by force
qed

lemma consumes_run: "consumes r s t \<Longrightarrow> \<exists>d. (t, d) \<in> set (run r s c)"
proof (induction r arbitrary: s t c)
  case (Cat a b)
  then obtain u where "consumes a s u" "consumes b u t" by (auto simp: consumes_simps)
  with Cat.IH show ?case by (fastforce simp: image_iff)
next
  case (Star a)
  then show ?case using consumes_iter [of a "run a"] by simp
next
  case (Alt a b)
  from Alt.prems show ?case
    using Alt.IH(1) [of s t c] Alt.IH(2) [of s t c] by (auto simp: consumes_simps)
next
  case (Grp n a)
  then have "consumes a s t" by (simp add: consumes_simps)
  from Grp.IH [OF this, of c] show ?case by force
qed (auto simp: consumes_simps)

lemma re_match_consumes: "(\<exists>c. re_match r s = Some c) \<longleftrightarrow> (\<exists>t. consumes r s t)"
proof
  assume "\<exists>c. re_match r s = Some c"
  then obtain t c rest where "run r s Map.empty = (t, c) # rest"
    by (auto simp: re_match_def split: list.splits)
  then have "(t, c) \<in> set (run r s Map.empty)" by simp
  then show "\<exists>t. consumes r s t" by (blast intro: run_consumes)
next
  assume "\<exists>t. consumes r s t"
  then obtain t d where "(t, d) \<in> set (run r s Map.empty)"
    using consumes_run by blast
  then show "\<exists>c. re_match r s = Some c"
    by (auto simp: re_match_def split: list.split)
qed

lemma re_match_None: "re_match r s = None \<longleftrightarrow> (\<forall>t. \<not> consumes r s t)"
  using re_match_consumes [of r s] by auto

section \<open>First matches\<close>

text \<open>\<open>goes r s c t d\<close>: the engine's first way through \<open>r\<close> leaves \<open>t\<close> with groups \<open>d\<close>.\<close>

definition goes :: "re \<Rightarrow> string \<Rightarrow> caps \<Rightarrow> string \<Rightarrow> caps \<Rightarrow> bool" where
  "goes r s c t d \<longleftrightarrow> (\<exists>rest. run r s c = (t, d) # rest)"

lemma goes_match: "goes r s Map.empty t d \<Longrightarrow> re_match r s = Some d"
  by (auto simp: goes_def re_match_def)

lemma match_goes: "re_match r s = Some d \<Longrightarrow> \<exists>t. goes r s Map.empty t d"
  by (auto simp: goes_def re_match_def split: list.splits)

lemma goes_Eps: "goes Eps s c s c"
  by (simp add: goes_def)

lemma goes_Cls: "p x \<Longrightarrow> goes (Cls p) (x # s) c s c"
  by (simp add: goes_def)

lemma goes_Cat: "goes a s c t d \<Longrightarrow> goes b t d u e \<Longrightarrow> goes (Cat a b) s c u e"
  by (auto simp: goes_def)

lemma goes_Alt1: "goes a s c t d \<Longrightarrow> goes (Alt a b) s c t d"
  by (auto simp: goes_def)

lemma goes_Alt2: "run a s c = [] \<Longrightarrow> goes b s c t d \<Longrightarrow> goes (Alt a b) s c t d"
  by (auto simp: goes_def)

lemma goes_Grp:
  "goes a s c t d \<Longrightarrow> goes (Grp n a) s c t (d(n \<mapsto> take (length s - length t) s))"
  by (auto simp: goes_def)

lemma goes_Grp_append:
  "goes a (x @ t) c t d \<Longrightarrow> e = d(n \<mapsto> x) \<Longrightarrow> goes (Grp n a) (x @ t) c t e"
  using goes_Grp [of a "x @ t" c t d n] by simp

lemma goes_Eol: "goes Eol [] c [] c"
  by (simp add: goes_def)

lemma goes_iter_cls: "length s \<le> n \<Longrightarrow> \<exists>rest. iter n (run (Cls p)) s c = (dropWhile p s, c) # rest"
proof (induction s arbitrary: n)
  case Nil
  then show ?case by (cases n) simp_all
next
  case (Cons x s)
  then obtain m where "n = Suc m" "length s \<le> m" by (cases n) auto
  with Cons.IH [of m] show ?case by auto
qed

lemma goes_Star_cls: "goes (Star (Cls p)) s c (dropWhile p s) c"
  using goes_iter_cls [of s "length s" p c] by (simp add: goes_def)

lemma goes_Star_run:
  assumes "list_all p xs" and "s = [] \<or> \<not> p (hd s)"
  shows "goes (Star (Cls p)) (xs @ s) c s c"
proof -
  have "dropWhile p (xs @ s) = s"
    using assms by (induction xs) (cases s; auto)+
  then show ?thesis using goes_Star_cls [of p "xs @ s" c] by simp
qed

lemma goes_Plus_run:
  assumes "xs \<noteq> []" and "list_all p xs" and "s = [] \<or> \<not> p (hd s)"
  shows "goes (Plus (Cls p)) (xs @ s) c s c"
proof -
  obtain x ys where xs: "xs = x # ys" using assms(1) by (cases xs) auto
  have "goes (Cls p) (x # ys @ s) c (ys @ s) c"
    using assms(2) xs by (simp add: goes_Cls)
  moreover have "goes (Star (Cls p)) (ys @ s) c s c"
    using assms xs by (intro goes_Star_run) simp_all
  ultimately show ?thesis
    unfolding Plus_def xs by (auto intro: goes_Cat)
qed

lemma goes_Grp_Star:
  "list_all p x \<Longrightarrow> s = [] \<or> \<not> p (hd s) \<Longrightarrow>
   goes (Grp n (Star (Cls p))) (x @ s) c s (c(n \<mapsto> x))"
  using goes_Grp [OF goes_Star_run, of p x s n c] by simp

lemma run_Cls_Nil: "s = [] \<or> \<not> p (hd s) \<Longrightarrow> run (Cls p) s c = []"
  by (cases s) auto

lemma run_Cat_Nil: "run a s c = [] \<Longrightarrow> run (Cat a b) s c = []"
  by simp

section \<open>What repeated classes consume\<close>

lemma consumes_Star_cls: "consumes (Star (Cls p)) s t \<longleftrightarrow> (\<exists>x. s = x @ t \<and> list_all p x)"
proof
  show "consumes (Star (Cls p)) s t \<Longrightarrow> \<exists>x. s = x @ t \<and> list_all p x"
  proof (induction "Star (Cls p)" s t rule: consumes.induct)
    case (star0 s)
    show ?case by (rule exI [of _ "[]"]) simp
  next
    case (star s t u)
    then obtain c x where "s = c # t" "p c" "t = x @ u" "list_all p x"
      by (auto simp: consumes_simps)
    then show ?case by (intro exI [of _ "c # x"]) simp
  qed
next
  assume "\<exists>x. s = x @ t \<and> list_all p x"
  then obtain x where "s = x @ t" "list_all p x" by blast
  then show "consumes (Star (Cls p)) s t"
  proof (induction x arbitrary: s)
    case Nil
    then show ?case by (simp add: consumes.star0)
  next
    case (Cons c x)
    then show ?case
      by (intro consumes.star [of _ s "x @ t"]) (simp_all add: consumes.cls)
  qed
qed

lemma consumes_Plus_cls:
  "consumes (Plus (Cls p)) s t \<longleftrightarrow> (\<exists>x. x \<noteq> [] \<and> s = x @ t \<and> list_all p x)"
proof -
  have "(\<exists>x. x \<noteq> [] \<and> s = x @ t \<and> list_all p x)
      \<longleftrightarrow> (\<exists>c y. s = c # y @ t \<and> p c \<and> list_all p y)"
    by (metis append_Cons list.distinct(1) list.exhaust list.pred_inject(2))
  then show ?thesis
    by (auto simp: Plus_def consumes_simps consumes_Star_cls)
qed

end
