(* ===== verification/Py_Float.thy ===== *)
theory Py_Float
  imports Complex_Main "HOL-Library.Log_Nat"
begin

text \<open>
  The part of Python's \<open>float\<close> the repository computes with: reading a decimal, true division
  of integers, multiplication by an integer and rounding. A finite value is kept as an exact
  fraction of a numerator and a positive denominator; every operation rounds the exact result
  to the nearest IEEE binary64 value, ties to even. Overflow gives \<open>Infty\<close>.
\<close>

section \<open>Rounding\<close>

text \<open>\<open>n / d\<close> to the nearest integer, ties to even, for \<open>0 < d\<close>.\<close>

definition rhe :: "int \<Rightarrow> int \<Rightarrow> int" where
  "rhe n d =
     (let q = n div d; r = n mod d
      in if 2 * r < d then q else if d < 2 * r then q + 1 else if even q then q else q + 1)"

datatype pyfloat = Fin int int | Infty

text \<open>
  The exponent of the last place of \<open>n / d > 0\<close>: 53 significant bits, at least \<open>2 ^ -1074\<close>.
\<close>

definition last_place :: "nat \<Rightarrow> nat \<Rightarrow> int" where
  "last_place n d =
     (let e = int (floorlog 2 n) - int (floorlog 2 d) - 53;
          big = d * 2 ^ nat (e + 53) \<le> n * 2 ^ nat (- (e + 53))
      in max (if big then e + 1 else e) (- 1074))"

text \<open>The nearest value with 53 significant bits, and \<open>Infty\<close> when that reaches \<open>2 ^ 1024\<close>.\<close>

definition nearest :: "int \<Rightarrow> int \<Rightarrow> int \<times> int" where
  "nearest n d =
     (let e = last_place (nat n) (nat d)
      in (rhe (n * 2 ^ nat (- e)) (d * 2 ^ nat e) * 2 ^ nat e, 2 ^ nat (- e)))"

definition fl :: "int \<Rightarrow> int \<Rightarrow> pyfloat" where
  "fl n d =
     (if n = 0 then Fin 0 1
      else (case nearest \<bar>n\<bar> d of (m, u) \<Rightarrow>
              if 2 ^ 1024 * u \<le> m then Infty else Fin (sgn n * m) u))"

text \<open>\<open>x * k\<close> for a positive integer \<open>k\<close>, and \<open>round(x)\<close>, which raises on an infinity.\<close>

fun fmul :: "pyfloat \<Rightarrow> int \<Rightarrow> pyfloat" where
  "fmul (Fin n d) k = fl (n * k) d"
| "fmul Infty k = Infty"

fun fround :: "pyfloat \<Rightarrow> int option" where
  "fround (Fin n d) = Some (rhe n d)"
| "fround Infty = None"

text \<open>\<open>round(x, 1)\<close> of a finite \<open>x\<close>, as a number of tenths.\<close>

fun ftenths :: "pyfloat \<Rightarrow> int" where
  "ftenths (Fin n d) = rhe (10 * n) d"
| "ftenths Infty = 0"

text \<open>\<open>math.ceil(x)\<close>.\<close>

fun fceil :: "pyfloat \<Rightarrow> int option" where
  "fceil (Fin n d) = Some (- ((- n) div d))"
| "fceil Infty = None"

section \<open>How far rounding can be off\<close>

lemma rhe_error:
  assumes "0 < d"
  shows "\<bar>2 * (rhe n d * d - n)\<bar> \<le> d"
proof -
  define q r where "q = n div d" and "r = n mod d"
  have "n = q * d + r" "0 \<le> r" "r < d"
    using assms by (simp_all add: q_def r_def)
  then show ?thesis
    unfolding rhe_def Let_def q_def [symmetric] r_def [symmetric]
    by (simp add: algebra_simps)
qed

lemma rhe_nearest:
  assumes "0 < d" and "\<bar>2 * (n - i * d)\<bar> < d"
  shows "rhe n d = i"
proof -
  have "\<bar>2 * (rhe n d * d - n)\<bar> \<le> d" using assms(1) by (rule rhe_error)
  with assms(2) have "\<bar>2 * ((rhe n d - i) * d)\<bar> < 2 * d"
    by (simp add: algebra_simps abs_if split: if_splits)
  then have "\<bar>rhe n d - i\<bar> * d < 1 * d"
    using assms(1) by (simp add: abs_mult)
  then have "\<bar>rhe n d - i\<bar> < 1"
    using assms(1) by (simp only: mult_less_cancel_right_pos)
  then show ?thesis by simp
qed

lemma rhe_exact: "0 < d \<Longrightarrow> rhe (i * d) d = i"
  by (simp add: rhe_def)

lemma rhe_nonneg: "0 < d \<Longrightarrow> 0 \<le> n \<Longrightarrow> 0 \<le> rhe n d"
  by (simp add: rhe_def Let_def pos_imp_zdiv_nonneg_iff)

text \<open>The value of a finite float.\<close>

fun fval :: "pyfloat \<Rightarrow> real" where
  "fval (Fin n d) = real_of_int n / real_of_int d"
| "fval Infty = 0"

lemma rhe_real_error:
  assumes "0 < d"
  shows "\<bar>real_of_int (rhe n d) - real_of_int n / real_of_int d\<bar> \<le> 1 / 2"
proof -
  have "\<bar>2 * (rhe n d * d - n)\<bar> \<le> d" using assms by (rule rhe_error)
  then have "\<bar>rhe n d * d - n\<bar> * 2 \<le> d" by linarith
  then have "real_of_int (\<bar>rhe n d * d - n\<bar> * 2) \<le> real_of_int d"
    by (simp only: of_int_le_iff)
  then have "\<bar>real_of_int (rhe n d) * real_of_int d - real_of_int n\<bar> * 2 \<le> real_of_int d"
    by simp
  moreover have "real_of_int (rhe n d) * real_of_int d - real_of_int n
      = (real_of_int (rhe n d) - real_of_int n / real_of_int d) * real_of_int d"
    using assms by (simp add: algebra_simps)
  ultimately show ?thesis
    using assms by (simp add: abs_mult)
qed

lemma two_parts: "(2 :: real) ^ nat e / 2 ^ nat (- e) = 2 powi e"
  by (cases "0 \<le> e") (simp_all add: power_int_def inverse_eq_divide power_one_over)

lemma two_parts_le:
  assumes "0 < d"
  shows "d * 2 ^ nat k \<le> n * 2 ^ nat (- k) \<longleftrightarrow> 2 powi k \<le> real n / real d"
proof -
  have "d * 2 ^ nat k \<le> n * 2 ^ nat (- k)
      \<longleftrightarrow> real (d * 2 ^ nat k) \<le> real (n * 2 ^ nat (- k))"
    by (simp only: of_nat_le_iff)
  also have "\<dots> \<longleftrightarrow> real d * 2 ^ nat k \<le> real n * 2 ^ nat (- k)"
    by simp
  also have "\<dots> \<longleftrightarrow> 2 ^ nat k / 2 ^ nat (- k) \<le> real n / real d"
    using assms by (simp add: field_simps)
  finally show ?thesis by (simp add: two_parts)
qed

lemma two_powi_diff: "(2 :: real) powi (int a - int b) = 2 ^ a / 2 ^ b"
  by (simp add: power_int_diff)

lemma floorlog_ratio:
  assumes "0 < n" and "0 < d"
  shows "2 powi (int (floorlog 2 n) - int (floorlog 2 d) - 1) \<le> real n / real d"
proof -
  have n: "2 ^ (floorlog 2 n - 1) \<le> n" and d: "d < 2 ^ floorlog 2 d" and "0 < floorlog 2 n"
    using floorlog_bounds [of n 2] floorlog_bounds [of d 2] floorlog_eq_zero_iff [of 2 n] assms
    by auto
  then have "int (floorlog 2 n) - int (floorlog 2 d) - 1
      = int (floorlog 2 n - 1) - int (floorlog 2 d)" by simp
  then have "(2 :: real) powi (int (floorlog 2 n) - int (floorlog 2 d) - 1)
      = 2 ^ (floorlog 2 n - 1) / 2 ^ floorlog 2 d"
    by (simp only: two_powi_diff)
  also have "\<dots> \<le> real n / real d"
  proof (rule frac_le)
    show "2 ^ (floorlog 2 n - 1) \<le> real n"
      using n by (metis of_nat_le_iff of_nat_numeral of_nat_power)
    show "real d \<le> 2 ^ floorlog 2 d"
      using d by (metis less_imp_le of_nat_le_iff of_nat_numeral of_nat_power)
  qed (use assms in simp_all)
  finally show ?thesis .
qed

text \<open>Half a unit in the last place is at most \<open>x / 2 ^ 53\<close>, or the last place is the smallest.\<close>

lemma last_place_bound:
  assumes "0 < n" and "0 < d"
  shows "2 powi last_place n d / 2 \<le> real n / real d / 2 ^ 53 + 1 / 2 ^ 1075"
proof -
  define x where "x = real n / real d"
  define e where "e = int (floorlog 2 n) - int (floorlog 2 d) - 53"
  define f where "f = (if 2 powi (e + 53) \<le> x then e + 1 else e)"
  have lp: "last_place n d = max f (- 1074)"
    unfolding last_place_def e_def [symmetric] Let_def two_parts_le [OF assms(2)] f_def x_def ..
  have "2 powi (e + 52) \<le> x"
    using floorlog_ratio [OF assms] by (simp add: e_def x_def algebra_simps)
  then have "2 powi (f + 52) \<le> x"
    by (simp add: f_def algebra_simps)
  then have "2 powi f * 2 ^ 52 \<le> x"
    by (simp add: power_int_add)
  then have f: "2 powi f / 2 \<le> x / 2 ^ 53" by simp
  have x0: "0 \<le> x" by (simp add: x_def)
  show ?thesis
  proof (cases "- 1074 \<le> f")
    case True
    then have "last_place n d = f" using lp by simp
    with f show ?thesis by (simp add: x_def add_increasing2)
  next
    case False
    then have "last_place n d = - 1074" using lp by simp
    moreover have "(2 :: real) powi (- 1074) / 2 = 1 / 2 ^ 1075"
      by (simp add: power_int_minus inverse_eq_divide)
    ultimately show ?thesis using x0 by (simp add: x_def)
  qed
qed

lemma nearest_error:
  assumes "0 < n" and "0 < d" and "nearest n d = (m, u)"
  shows "0 < u \<and> 0 \<le> m
    \<and> \<bar>real_of_int m / real_of_int u - real_of_int n / real_of_int d\<bar>
      \<le> real_of_int n / real_of_int d / 2 ^ 53 + 1 / 2 ^ 1075"
proof -
  define e where "e = last_place (nat n) (nat d)"
  define N D where "N = n * 2 ^ nat (- e)" and "D = d * 2 ^ nat e"
  have D: "0 < D" and N: "0 \<le> N" using assms by (simp_all add: D_def N_def)
  have mu: "m = rhe N D * 2 ^ nat e" "u = 2 ^ nat (- e)"
    using assms(3) by (auto simp: nearest_def Let_def e_def N_def D_def)
  define w where "w = (2 :: real) powi e"
  have w: "0 < w" "w = 2 ^ nat e / 2 ^ nat (- e)"
    by (simp_all add: w_def two_parts)
  have "real_of_int N / real_of_int D = real_of_int n / real_of_int d / w"
    by (simp add: N_def D_def w(2))
  then have "\<bar>real_of_int (rhe N D) - real_of_int n / real_of_int d / w\<bar> \<le> 1 / 2"
    using rhe_real_error [OF D, of N] by simp
  then have "\<bar>(real_of_int (rhe N D) - real_of_int n / real_of_int d / w) * w\<bar> \<le> w / 2"
    using w(1) by (simp add: abs_mult)
  moreover have "(real_of_int (rhe N D) - real_of_int n / real_of_int d / w) * w
      = real_of_int m / real_of_int u - real_of_int n / real_of_int d"
    using w(1) by (simp add: mu w(2) field_simps)
  ultimately have "\<bar>real_of_int m / real_of_int u - real_of_int n / real_of_int d\<bar> \<le> w / 2"
    by simp
  also have "\<dots> \<le> real_of_int n / real_of_int d / 2 ^ 53 + 1 / 2 ^ 1075"
    using last_place_bound [of "nat n" "nat d"] assms(1,2) by (simp add: w_def e_def)
  finally show ?thesis
    using rhe_nonneg [OF D N] by (simp add: mu)
qed

text \<open>A quotient of moderate size never overflows and is off by at most half a last place.\<close>

lemma fl_error:
  assumes "0 \<le> n" and "0 < d" and "real_of_int n / real_of_int d \<le> 2 ^ 1000"
  obtains m u where "fl n d = Fin m u" and "0 < u" and "0 \<le> m"
    and "\<bar>real_of_int m / real_of_int u - real_of_int n / real_of_int d\<bar>
      \<le> real_of_int n / real_of_int d / 2 ^ 53 + 1 / 2 ^ 1075"
proof (cases "n = 0")
  case True
  then show thesis by (intro that [of 0 1]) (simp_all add: fl_def)
next
  case False
  then have n: "0 < n" using assms(1) by simp
  obtain m u where mu: "nearest n d = (m, u)" by fastforce
  note err = nearest_error [OF n assms(2) mu]
  define x where "x = real_of_int n / real_of_int d"
  have "real_of_int m / real_of_int u \<le> x + (x / 2 ^ 53 + 1 / 2 ^ 1075)"
    using err by (auto simp: x_def abs_le_iff)
  also have "\<dots> \<le> 2 ^ 1000 + (2 ^ 1000 / 2 ^ 53 + 1 / 2 ^ 1075)"
    using assms(3) by (intro add_mono divide_right_mono) (simp_all add: x_def)
  also have "\<dots> < 2 ^ 1024" by simp
  finally have "real_of_int m < 2 ^ 1024 * real_of_int u"
    using err by (simp add: pos_divide_less_eq)
  then have "real_of_int m < real_of_int (2 ^ 1024 * u)" by simp
  then have "m < 2 ^ 1024 * u" by (simp only: of_int_less_iff)
  then have "fl n d = Fin m u"
    using n mu by (simp add: fl_def)
  then show thesis using err by (intro that [of m u]) simp_all
qed

text \<open>
  Two roundings in a row, a decimal and its product with a multiplier, cannot miss an integer
  of up to 50 bits.
\<close>

lemma scaled_decimal_exact:
  assumes "0 \<le> n" and "0 < d" and "0 < k" and "k \<le> 2 ^ 40"
    and "n * k = i * d" and "i \<le> 2 ^ 50"
  shows "fround (fmul (fl n d) k) = Some i"
proof -
  define x where "x = real_of_int n / real_of_int d"
  define K where "K = real_of_int k"
  define J where "J = real_of_int i"
  have K: "1 \<le> K" "K \<le> 2 ^ 40"
    using assms(3,4) of_int_le_iff [of k "2 ^ 40", where 'a = real] by (simp_all add: K_def)
  have J: "J \<le> 2 ^ 50"
    using assms(6) of_int_le_iff [of i "2 ^ 50", where 'a = real] by (simp add: J_def)
  have "real_of_int (n * k) = real_of_int (i * d)" using assms(5) by simp
  then have xK: "x * K = J"
    using assms(2) by (simp add: x_def K_def J_def field_simps)
  have x0: "0 \<le> x" using assms(1,2) by (simp add: x_def)
  then have "x \<le> J" using K xK by (metis mult.right_neutral mult_left_mono)
  then have "x \<le> 2 ^ 1000" using J by simp
  then obtain m u where f1: "fl n d = Fin m u" "0 < u" "0 \<le> m"
    and e1: "\<bar>real_of_int m / real_of_int u - x\<bar> \<le> x / 2 ^ 53 + 1 / 2 ^ 1075"
    using fl_error [OF assms(1,2)] unfolding x_def by metis
  define y where "y = real_of_int (m * k) / real_of_int u"
  have "y - J = (real_of_int m / real_of_int u - x) * K"
    using f1(2) by (simp add: y_def K_def xK [symmetric] field_simps)
  then have "\<bar>y - J\<bar> = \<bar>real_of_int m / real_of_int u - x\<bar> * K"
    using K by (simp add: abs_mult)
  also have "\<dots> \<le> (x / 2 ^ 53 + 1 / 2 ^ 1075) * K"
    using e1 K by (intro mult_right_mono) simp_all
  also have "\<dots> = J / 2 ^ 53 + K / 2 ^ 1075"
    by (simp add: field_simps xK [symmetric])
  also have "\<dots> \<le> 2 ^ 50 / 2 ^ 53 + 2 ^ 40 / 2 ^ 1075"
    using J K by (intro add_mono divide_right_mono) simp_all
  also have "\<dots> \<le> 1 / 7" by simp
  finally have yJ: "\<bar>y - J\<bar> \<le> 1 / 7" .
  have "y \<le> 2 ^ 50 + 1" using abs_le_D1 [OF yJ] J by linarith
  then have "y \<le> 2 ^ 1000" by simp
  then obtain m2 u2 where f2: "fl (m * k) u = Fin m2 u2" "0 < u2"
    and e2: "\<bar>real_of_int m2 / real_of_int u2 - y\<bar> \<le> y / 2 ^ 53 + 1 / 2 ^ 1075"
    using fl_error [of "m * k" u] f1 assms(3) unfolding y_def by (metis mult_nonneg_nonneg less_imp_le)
  have "y / 2 ^ 53 + 1 / 2 ^ 1075 \<le> (2 ^ 50 + 1) / 2 ^ 53 + 1 / 2 ^ 1075"
    using \<open>y \<le> 2 ^ 50 + 1\<close> by (intro add_mono divide_right_mono) simp_all
  also have "\<dots> \<le> 1 / 7" by simp
  finally have "\<bar>real_of_int m2 / real_of_int u2 - J\<bar> < 1 / 2"
    using e2 yJ by linarith
  then have "\<bar>(real_of_int m2 / real_of_int u2 - J) * real_of_int u2\<bar> < 1 / 2 * real_of_int u2"
    using f2(2) by (simp add: abs_mult)
  moreover have "(real_of_int m2 / real_of_int u2 - J) * real_of_int u2
      = real_of_int (m2 - i * u2)"
    using f2(2) by (simp add: J_def left_diff_distrib)
  ultimately have "real_of_int (2 * \<bar>m2 - i * u2\<bar>) < real_of_int u2"
    by simp
  then have "2 * \<bar>m2 - i * u2\<bar> < u2" by (simp only: of_int_less_iff)
  then have "\<bar>2 * (m2 - i * u2)\<bar> < u2" by (simp only: abs_mult abs_numeral)
  then have "rhe m2 u2 = i" using f2(2) by (intro rhe_nearest)
  then show ?thesis using f1(1) f2(1) by simp
qed

end
