(* ===== verification/Parsing.thy ===== *)
theory Parsing
  imports Regex Py_Float
begin

text \<open>
  \<open>market/parsing.py\<close>: credit shorthand, item levels and ranges. The three regular
  expressions are the terms of \<open>Regex\<close>, floats are those of \<open>Py_Float\<close>, and \<open>int()\<close> refuses
  more than 4300 digits, as CPython does.

  \<open>format_credits\<close> is modelled on integers, which is what every caller passes. Its last step
  writes a float with one decimal; positional notation is what \<open>repr\<close> gives below \<open>10 ^ 16\<close>,
  so the text is Python's for amounts below \<open>10 ^ 23\<close>, far above the 64-bit columns.
\<close>

section \<open>Regular expressions\<close>

definition is_unit :: "char \<Rightarrow> bool" where
  "is_unit c \<longleftrightarrow> lower_char c \<in> set ''kmb''"

definition not_dash :: "char \<Rightarrow> bool" where
  "not_dash c \<longleftrightarrow> c \<noteq> CHR ''-''"

definition CREDIT_RE :: re where
  "CREDIT_RE = Seq
     [Grp 1 (Cat Digits (Opt (Cat (Cls (\<lambda>c. c = CHR ''.'')) Digits))),
      Spaces0,
      Grp 2 (Opt (Cls is_unit)),
      Eol]"

definition QL_RE :: re where
  "QL_RE = Seq [Digits, Eol]"

definition RANGE_RE :: re where
  "RANGE_RE = Seq
     [Grp 1 (Star (Cls not_dash)), Cls (\<lambda>c. c = CHR ''-''), Grp 2 (Star (Cls not_dash)), Eol]"

text \<open>\<open>match.group(n)\<close> where the group always takes part.\<close>

definition match_group :: "caps \<Rightarrow> nat \<Rightarrow> string" where
  "match_group g n = (case g n of None \<Rightarrow> [] | Some s \<Rightarrow> s)"

section \<open>Reading\<close>

definition multiplier :: "string \<Rightarrow> int" where
  "multiplier s =
     (if s = ''k'' then 1000 else if s = ''m'' then 1000000
      else if s = ''b'' then 1000000000 else 1)"

text \<open>\<open>float(s)\<close> for a decimal without sign or exponent, \<open>int(s)\<close> for digits.\<close>

definition py_float :: "string \<Rightarrow> pyfloat" where
  "py_float s =
     (let ip = takeWhile is_digit s; fp = drop (length ip + 1) s
      in fl (int (digits_val (ip @ fp))) (10 ^ length fp))"

definition py_int :: "string \<Rightarrow> exn + int" where
  "py_int s = (if 4300 < length s
      then Inl (Value_Error (''Exceeds the limit (4300 digits) for integer string conversion: value has ''
        @ nat_str (length s) @ '' digits; use sys.set_int_max_str_digits() to increase the limit''))
      else Inr (int (digits_val s)))"

definition parse_credits :: "string \<Rightarrow> exn + int option" where
  "parse_credits value =
     (let value = strip value in
      if value = [] then Inr None
      else (case re_match CREDIT_RE value of
              None \<Rightarrow> Inr None
            | Some m \<Rightarrow>
                (case fround (fmul (py_float (match_group m 1)) (multiplier (lower (match_group m 2)))) of
                   None \<Rightarrow> Inl Overflow_Error
                 | Some n \<Rightarrow> Inr (Some n))))"

definition parse_ql :: "string \<Rightarrow> exn + int option" where
  "parse_ql value =
     (let value = strip value in
      if value = [] \<or> re_match QL_RE value = None then Inr None
      else ebind (py_int value) (\<lambda>n. Inr (Some n)))"

text \<open>One side of a range: \<open>Inr None\<close> is the early \<open>return None\<close>.\<close>

definition parse_side :: "(string \<Rightarrow> exn + int option) \<Rightarrow> string \<Rightarrow> exn + int option option" where
  "parse_side parser raw =
     (if raw = [] then Inr (Some None)
      else ebind (parser raw) (\<lambda>v. case v of None \<Rightarrow> Inr None | Some n \<Rightarrow> Inr (Some (Some n))))"

definition parse_range ::
  "string \<Rightarrow> (string \<Rightarrow> exn + int option) \<Rightarrow> exn + (int option \<times> int option) option"
where
  "parse_range spec parser =
     (case re_match RANGE_RE (strip spec) of
        None \<Rightarrow> Inr None
      | Some m \<Rightarrow>
          ebind (parse_side parser (strip (match_group m 1))) (\<lambda>lo.
            case lo of None \<Rightarrow> Inr None | Some min_value \<Rightarrow>
          ebind (parse_side parser (strip (match_group m 2))) (\<lambda>hi.
            case hi of None \<Rightarrow> Inr None | Some max_value \<Rightarrow>
            (case (min_value, max_value) of
               (None, None) \<Rightarrow> Inr None
             | (Some a, Some b) \<Rightarrow> if b < a then Inr None else Inr (Some (min_value, max_value))
             | _ \<Rightarrow> Inr (Some (min_value, max_value))))))"

section \<open>Writing\<close>

definition tenths_str :: "int \<Rightarrow> string" where
  "tenths_str k = int_str (k div 10) @ ''.'' @ int_str (k mod 10)"

definition format_credits :: "int \<Rightarrow> string" where
  "format_credits value =
     (let sign = (if value < 0 then ''-'' else []); value = \<bar>value\<bar> in
      if 1000000000 \<le> value then sign @ tenths_str (ftenths (fl value 1000000000)) @ ''b''
      else if 1000000 \<le> value then sign @ tenths_str (ftenths (fl value 1000000)) @ ''m''
      else if 1000 \<le> value then sign @ tenths_str (ftenths (fl value 1000)) @ ''k''
      else sign @ int_str value)"

section \<open>The range pattern\<close>

lemma RANGE_RE_match:
  assumes "list_all not_dash l" and "list_all not_dash r"
  shows "re_match RANGE_RE (l @ ''-'' @ r) = Some [1 \<mapsto> l, 2 \<mapsto> r]"
proof -
  have "goes (Grp 1 (Star (Cls not_dash))) (l @ ''-'' @ r) Map.empty (''-'' @ r) [1 \<mapsto> l]"
    using assms(1) by (intro goes_Grp_Star) (simp_all add: not_dash_def)
  moreover have "goes (Cls (\<lambda>c. c = CHR ''-'')) (''-'' @ r) [1 \<mapsto> l] (r @ []) [1 \<mapsto> l]"
    by (simp add: goes_Cls)
  moreover have "goes (Grp 2 (Star (Cls not_dash))) (r @ []) [1 \<mapsto> l] [] [1 \<mapsto> l, 2 \<mapsto> r]"
    using assms(2) by (intro goes_Grp_Star) simp_all
  ultimately show ?thesis
    unfolding RANGE_RE_def
    by (intro goes_match [where t = "[]"]) (auto intro: goes_Cat goes_Eol)
qed

lemma RANGE_RE_split:
  assumes "re_match RANGE_RE s = Some m"
  shows "\<exists>l r. s = l @ ''-'' @ r \<and> list_all not_dash l \<and> list_all not_dash r"
proof -
  from assms obtain t where "consumes RANGE_RE s t"
    using re_match_consumes [of RANGE_RE s] by blast
  then obtain l r where "s = l @ CHR ''-'' # r @ t" "list_all not_dash l" "list_all not_dash r"
    and "t = [] \<or> t = [newline]"
    by (auto simp: RANGE_RE_def consumes_simps consumes_Star_cls)
  then have "s = l @ ''-'' @ (r @ t)" "list_all not_dash (r @ t)"
    by (auto simp: not_dash_def newline_def)
  with \<open>list_all not_dash l\<close> show ?thesis by blast
qed

lemma RANGE_RE_iff:
  "re_match RANGE_RE s = Some m \<longleftrightarrow>
   (\<exists>l r. s = l @ ''-'' @ r \<and> list_all not_dash l \<and> list_all not_dash r \<and> m = [1 \<mapsto> l, 2 \<mapsto> r])"
  using RANGE_RE_split [of s m] RANGE_RE_match by fastforce

lemma not_dash_unique:
  assumes "l @ ''-'' @ r = l' @ ''-'' @ r'" and "list_all not_dash l" and "list_all not_dash l'"
  shows "l = l' \<and> r = r'"
  using assms
proof (induction l arbitrary: l')
  case Nil
  then show ?case by (cases l') (auto simp: not_dash_def)
next
  case (Cons c l)
  then show ?case by (cases l') (auto simp: not_dash_def)
qed

section \<open>Parsed values\<close>

lemma fl_nonneg: "0 \<le> n \<Longrightarrow> 0 < d \<Longrightarrow> fl n d = Fin m u \<Longrightarrow> 0 \<le> m \<and> 0 < u"
  using nearest_error [of n d]
  by (auto simp: fl_def split: if_splits prod.splits)

lemma fround_fmul_fl_nonneg:
  assumes "0 \<le> n" and "0 < d" and "0 < k" and "fround (fmul (fl n d) k) = Some i"
  shows "0 \<le> i"
proof -
  obtain m u where 1: "fl n d = Fin m u" using assms(4) by (cases "fl n d") auto
  then have "0 \<le> m" "0 < u" using fl_nonneg assms(1,2) by blast+
  moreover obtain m2 u2 where 2: "fl (m * k) u = Fin m2 u2"
    using assms(4) 1 by (cases "fl (m * k) u") auto
  ultimately have "0 \<le> m2" "0 < u2"
    using fl_nonneg [of "m * k" u m2 u2] assms(3) by simp_all
  moreover have "i = rhe m2 u2" using assms(4) 1 2 by simp
  ultimately show ?thesis using rhe_nonneg by simp
qed

lemma multiplier_pos: "0 < multiplier s"
  by (simp add: multiplier_def)

lemma py_float_nonneg: "fround (fmul (py_float s) (multiplier t)) = Some i \<Longrightarrow> 0 \<le> i"
  unfolding py_float_def Let_def
  by (rule fround_fmul_fl_nonneg [OF _ _ multiplier_pos]) simp_all

lemma parse_credits_nonneg: "parse_credits v = Inr (Some n) \<Longrightarrow> 0 \<le> n"
  by (auto simp: parse_credits_def Let_def split: if_splits option.splits dest: py_float_nonneg)

lemma parse_ql_nonneg: "parse_ql v = Inr (Some n) \<Longrightarrow> 0 \<le> n"
  by (auto simp: parse_ql_def Let_def ebind_Inr_iff py_int_def split: if_splits)

lemma parse_side_Some:
  "parse_side parser raw = Inr (Some lo) \<longleftrightarrow>
   (raw = [] \<and> lo = None) \<or> (raw \<noteq> [] \<and> (\<exists>n. parser raw = Inr (Some n) \<and> lo = Some n))"
  by (auto simp: parse_side_def ebind_Inr_iff split: option.splits)

definition sides_ok :: "int option \<Rightarrow> int option \<Rightarrow> bool" where
  "sides_ok lo hi \<longleftrightarrow>
     (lo \<noteq> None \<or> hi \<noteq> None) \<and> (case (lo, hi) of (Some a, Some b) \<Rightarrow> a \<le> b | _ \<Rightarrow> True)"

lemma parse_range_Some_iff:
  "parse_range spec parser = Inr (Some (lo, hi)) \<longleftrightarrow>
   (\<exists>l r. strip spec = l @ ''-'' @ r \<and> list_all not_dash l \<and> list_all not_dash r
      \<and> parse_side parser (strip l) = Inr (Some lo)
      \<and> parse_side parser (strip r) = Inr (Some hi) \<and> sides_ok lo hi)"
proof (cases "re_match RANGE_RE (strip spec)")
  case None
  then show ?thesis
    using RANGE_RE_match by (fastforce simp: parse_range_def)
next
  case (Some m)
  then obtain l r where lr: "strip spec = l @ ''-'' @ r" "list_all not_dash l" "list_all not_dash r"
    and m: "m = [1 \<mapsto> l, 2 \<mapsto> r]"
    by (auto simp: RANGE_RE_iff)
  have "parse_range spec parser = Inr (Some (lo, hi)) \<longleftrightarrow>
     parse_side parser (strip l) = Inr (Some lo) \<and> parse_side parser (strip r) = Inr (Some hi)
     \<and> sides_ok lo hi"
    unfolding parse_range_def Some m match_group_def
    by (cases "parse_side parser (strip l)"; cases "parse_side parser (strip r)")
      (auto simp: sides_ok_def split: option.splits if_splits)
  moreover have "l' = l \<and> r' = r"
    if "strip spec = l' @ ''-'' @ r'" "list_all not_dash l'" for l' r'
    using not_dash_unique [of l' r' l r] that lr by simp
  ultimately show ?thesis
    using lr by blast
qed

section \<open>Credit amounts\<close>

text \<open>Digits with an optional fraction, and what may follow them.\<close>

definition decimal :: "string \<Rightarrow> string option \<Rightarrow> string" where
  "decimal ip fp = ip @ (case fp of None \<Rightarrow> [] | Some f \<Rightarrow> CHR ''.'' # f)"

definition decimal_ok :: "string \<Rightarrow> string option \<Rightarrow> bool" where
  "decimal_ok ip fp \<longleftrightarrow>
     ip \<noteq> [] \<and> list_all is_digit ip
     \<and> (case fp of None \<Rightarrow> True | Some f \<Rightarrow> f \<noteq> [] \<and> list_all is_digit f)"

definition unit_ok :: "string \<Rightarrow> bool" where
  "unit_ok unit \<longleftrightarrow> unit = [] \<or> (\<exists>c. unit = [c] \<and> is_unit c)"

lemma code_lower_char:
  "ordc (lower_char c) =
     (if (65 \<le> ordc c \<and> ordc c \<le> 90) \<or> (192 \<le> ordc c \<and> ordc c \<le> 222 \<and> ordc c \<noteq> 215)
      then ordc c + 32 else ordc c)"
  by (auto simp: lower_char_def)

lemma is_unit_code:
  assumes "is_unit c"
  shows "65 < ordc c \<and> ordc c < 110"
proof -
  have "ordc (lower_char c) \<in> {107, 109, 98}"
    using assms by (auto simp: is_unit_def ordc_def)
  then show ?thesis
    unfolding code_lower_char by (auto split: if_splits)
qed

lemma unit_chars:
  assumes "is_unit c"
  shows "\<not> is_space c \<and> \<not> is_digit c \<and> c \<noteq> CHR ''.''"
proof -
  have "ordc CHR ''.'' = 46" by (simp add: ordc_def)
  then show ?thesis
    using is_unit_code [OF assms] by (auto simp: is_space_def is_digit_def)
qed

lemma space_chars:
  "is_space c \<Longrightarrow> \<not> is_digit c \<and> c \<noteq> CHR ''.'' \<and> \<not> is_unit c"
  using unit_chars [of c] is_digit_not_space [of c] by (auto simp: is_space_def ordc_def)

lemma tail_hd:
  assumes "list_all is_space sp" and "unit_ok unit" and "sp @ unit \<noteq> []"
  shows "\<not> is_digit (hd (sp @ unit)) \<and> hd (sp @ unit) \<noteq> CHR ''.''"
  using assms by (cases sp) (auto simp: unit_ok_def dest: unit_chars space_chars)

lemma goes_decimal:
  assumes "decimal_ok ip fp" and "s = [] \<or> (\<not> is_digit (hd s) \<and> hd s \<noteq> CHR ''.'')"
  shows "goes (Cat Digits (Opt (Cat (Cls (\<lambda>c. c = CHR ''.'')) Digits))) (decimal ip fp @ s) c s c"
proof (cases fp)
  case None
  with assms have "goes Digits (ip @ s) c s c"
    unfolding Digits_def by (intro goes_Plus_run) (auto simp: decimal_ok_def)
  moreover have "goes (Opt (Cat (Cls (\<lambda>c. c = CHR ''.'')) Digits)) s c s c"
    unfolding Opt_def using assms(2)
    by (intro goes_Alt2 run_Cat_Nil run_Cls_Nil goes_Eps) auto
  ultimately show ?thesis
    using None by (auto simp: decimal_def intro: goes_Cat)
next
  case (Some f)
  with assms have f: "f \<noteq> []" "list_all is_digit f" by (auto simp: decimal_ok_def)
  have "\<not> is_digit CHR ''.''" by (simp add: is_digit_def ordc_def)
  with assms have "goes Digits (ip @ (CHR ''.'' # f @ s)) c (CHR ''.'' # f @ s) c"
    unfolding Digits_def by (intro goes_Plus_run) (auto simp: decimal_ok_def)
  moreover have "goes Digits (f @ s) c s c"
    unfolding Digits_def using f assms(2) by (intro goes_Plus_run) auto
  then have "goes (Opt (Cat (Cls (\<lambda>c. c = CHR ''.'')) Digits)) (CHR ''.'' # f @ s) c s c"
    unfolding Opt_def by (auto intro: goes_Alt1 goes_Cat goes_Cls)
  ultimately show ?thesis
    using Some by (auto simp: decimal_def intro: goes_Cat)
qed

lemma goes_unit: "unit_ok unit \<Longrightarrow> goes (Grp 2 (Opt (Cls is_unit))) unit c [] (c(2 \<mapsto> unit))"
proof -
  assume "unit_ok unit"
  then have "goes (Opt (Cls is_unit)) (unit @ []) c [] c"
    by (auto simp: unit_ok_def Opt_def intro: goes_Alt1 goes_Cls goes_Alt2 goes_Eps run_Cls_Nil)
  from goes_Grp_append [OF this refl, of 2] show ?thesis by simp
qed

lemma CREDIT_RE_match:
  assumes "decimal_ok ip fp" and "list_all is_space sp" and "unit_ok unit"
  shows "re_match CREDIT_RE (decimal ip fp @ sp @ unit) = Some [1 \<mapsto> decimal ip fp, 2 \<mapsto> unit]"
proof -
  have "goes (Cat Digits (Opt (Cat (Cls (\<lambda>c. c = CHR ''.'')) Digits)))
      (decimal ip fp @ sp @ unit) Map.empty (sp @ unit) Map.empty"
    using assms tail_hd [of sp unit] by (intro goes_decimal) auto
  from goes_Grp_append [OF this refl, of 1]
  have 1: "goes (Grp 1 (Cat Digits (Opt (Cat (Cls (\<lambda>c. c = CHR ''.'')) Digits))))
      (decimal ip fp @ sp @ unit) Map.empty (sp @ unit) [1 \<mapsto> decimal ip fp]" .
  have 2: "goes Spaces0 (sp @ unit) [1 \<mapsto> decimal ip fp] unit [1 \<mapsto> decimal ip fp]"
    unfolding Spaces0_def using assms(2,3)
    by (intro goes_Star_run) (auto simp: unit_ok_def dest: unit_chars)
  from 1 2 goes_unit [OF assms(3)] show ?thesis
    unfolding CREDIT_RE_def
    by (intro goes_match [where t = "[]"]) (auto intro: goes_Cat goes_Eol)
qed

lemma decimal_ends:
  assumes "decimal_ok ip fp"
  shows "decimal ip fp \<noteq> []" and "is_digit (hd (decimal ip fp))" and "is_digit (last (decimal ip fp))"
  using assms by (auto simp: decimal_ok_def decimal_def list_all_iff hd_append split: option.splits)

lemma strip_decimal:
  assumes "decimal_ok ip fp" and "unit_ok unit"
    and "list_all is_space v" and "list_all is_space w" and "unit = [] \<Longrightarrow> sp = []"
  shows "strip (v @ (decimal ip fp @ sp @ unit) @ w) = decimal ip fp @ sp @ unit"
proof -
  let ?s = "decimal ip fp @ sp @ unit"
  have "?s \<noteq> []" using decimal_ends [OF assms(1)] by simp
  moreover have "\<not> is_space (hd ?s)"
    using decimal_ends [OF assms(1)] by (simp add: hd_append is_digit_not_space)
  moreover have "\<not> is_space (last ?s)"
    using decimal_ends [OF assms(1)] assms(2,5)
    by (auto simp: unit_ok_def is_digit_not_space dest: unit_chars)
  ultimately show ?thesis
    using assms(3,4) by (intro strip_around strip_id)
qed

definition fraction :: "string option \<Rightarrow> string" where
  "fraction fp = (case fp of None \<Rightarrow> [] | Some f \<Rightarrow> f)"

lemma py_float_decimal:
  assumes "decimal_ok ip fp"
  shows "py_float (decimal ip fp)
    = fl (int (digits_val (ip @ fraction fp))) (10 ^ length (fraction fp))"
proof -
  have "\<not> is_digit CHR ''.''" by (simp add: is_digit_def ordc_def)
  moreover have "list_all is_digit ip" using assms by (simp add: decimal_ok_def)
  ultimately have "takeWhile is_digit (decimal ip fp) = ip"
    by (auto simp: decimal_def list_all_iff takeWhile_append split: option.split)
  then show ?thesis
    by (simp add: py_float_def decimal_def fraction_def split: option.split)
qed

lemma multiplier_le: "multiplier s \<le> 2 ^ 40"
  by (simp add: multiplier_def)

lemma parse_credits_match:
  assumes "decimal_ok ip fp" and "unit_ok unit" and "list_all is_space sp"
    and "strip value = decimal ip fp @ sp @ unit"
  shows "parse_credits value =
    (case fround (fmul (py_float (decimal ip fp)) (multiplier (lower unit))) of
       None \<Rightarrow> Inl Overflow_Error | Some n \<Rightarrow> Inr (Some n))"
  using assms decimal_ends [OF assms(1)]
  by (simp add: parse_credits_def Let_def CREDIT_RE_match match_group_def)

text \<open>What the credit pattern accepts, on trimmed text.\<close>

definition credit_shape :: "string \<Rightarrow> bool" where
  "credit_shape s \<longleftrightarrow>
     (\<exists>ip fp sp unit. s = decimal ip fp @ sp @ unit \<and> decimal_ok ip fp \<and> unit_ok unit
        \<and> list_all is_space sp)"

lemma credit_consumes:
  assumes "consumes CREDIT_RE s t"
  shows "\<exists>ip fp sp unit. s = decimal ip fp @ sp @ unit @ t \<and> decimal_ok ip fp \<and> unit_ok unit
    \<and> list_all is_space sp \<and> (t = [] \<or> t = [newline])"
proof -
  from assms obtain s1 s2 s3 s4 where
    d: "consumes Digits s s1" "consumes (Opt (Cat (Cls (\<lambda>c. c = CHR ''.'')) Digits)) s1 s2"
    and sp: "consumes Spaces0 s2 s3" and u: "consumes (Opt (Cls is_unit)) s3 s4"
    and e: "consumes Eol s4 t"
    by (auto simp: CREDIT_RE_def consumes_simps)
  obtain ip where ip: "s = ip @ s1" "ip \<noteq> []" "list_all is_digit ip"
    using d(1) unfolding Digits_def consumes_Plus_cls by blast
  have "\<exists>fp. s1 = (case fp of None \<Rightarrow> [] | Some f \<Rightarrow> CHR ''.'' # f) @ s2
      \<and> (case fp of None \<Rightarrow> True | Some f \<Rightarrow> f \<noteq> [] \<and> list_all is_digit f)"
    using d(2) unfolding Opt_def Digits_def consumes_simps consumes_Plus_cls
    by (elim disjE) (auto intro: exI [of _ None] exI [of _ "Some _"])
  then obtain fp where "s1 = (case fp of None \<Rightarrow> [] | Some f \<Rightarrow> CHR ''.'' # f) @ s2"
    "case fp of None \<Rightarrow> True | Some f \<Rightarrow> f \<noteq> [] \<and> list_all is_digit f" by blast
  then have "s = decimal ip fp @ s2" "decimal_ok ip fp"
    using ip by (auto simp: decimal_def decimal_ok_def)
  moreover obtain spc where "s2 = spc @ s3" "list_all is_space spc"
    using sp unfolding Spaces0_def consumes_Star_cls by blast
  moreover obtain unit where "s3 = unit @ s4" "unit_ok unit"
    using u unfolding Opt_def consumes_simps by (auto simp: unit_ok_def)
  moreover have "s4 = t" "t = [] \<or> t = [newline]"
    using e by (auto simp: consumes_simps)
  ultimately show ?thesis by blast
qed

lemma strip_last: "strip s \<noteq> [] \<Longrightarrow> \<not> is_space (last (strip s))"
  unfolding strip_def
  by (metis hd_dropWhile dropWhile_eq_Nil_conv last_rev rev.simps(1))

lemma not_shape_None:
  assumes "\<not> credit_shape (strip value)"
  shows "parse_credits value = Inr None"
proof (cases "strip value = []")
  case False
  have "re_match CREDIT_RE (strip value) = None"
  proof (rule ccontr)
    assume "re_match CREDIT_RE (strip value) \<noteq> None"
    then obtain t where "consumes CREDIT_RE (strip value) t"
      using re_match_consumes [of CREDIT_RE] by blast
    then obtain ip fp sp unit where s: "strip value = decimal ip fp @ sp @ unit @ t"
      and ok: "decimal_ok ip fp" "unit_ok unit" "list_all is_space sp"
      and t: "t = [] \<or> t = [newline]"
      using credit_consumes by blast
    have "is_space newline" by (simp add: is_space_def newline_def ordc_def)
    then have "t = []"
      using t strip_last [OF False] s by auto
    with s ok assms show False unfolding credit_shape_def by auto
  qed
  with False show ?thesis by (simp add: parse_credits_def)
qed (simp add: parse_credits_def)

section \<open>Properties\<close>

text \<open>C6. A credit amount typed as digits with an optional fraction, optional spaces and an
  optional unit k, m or b in either case is read exactly: when the written amount is a whole
  number of credits up to 2^50, that number is the result. The two roundings of the float
  arithmetic (reading the decimal, multiplying by the unit) never show after the final
  \<open>round\<close>.\<close>

theorem parse_credits_exact:
  assumes "decimal_ok ip fp" and "unit_ok unit"
    and "list_all is_space v" and "list_all is_space sp" and "list_all is_space w"
    and "int (digits_val (ip @ fraction fp)) * multiplier (lower unit) = i * 10 ^ length (fraction fp)"
    and "i \<le> 2 ^ 50"
  shows "parse_credits (v @ decimal ip fp @ sp @ unit @ w) = Inr (Some i)"
proof -
  obtain sp' where sp': "list_all is_space sp'"
    and s: "strip (v @ decimal ip fp @ sp @ unit @ w) = decimal ip fp @ sp' @ unit"
  proof (cases "unit = []")
    case True
    with strip_decimal [of ip fp unit v "sp @ w" "[]"] assms that [of "[]"] show ?thesis by simp
  next
    case False
    with strip_decimal [of ip fp unit v w sp] assms that [of sp] show ?thesis by simp
  qed
  have "fround (fmul (fl (int (digits_val (ip @ fraction fp))) (10 ^ length (fraction fp)))
      (multiplier (lower unit))) = Some i"
    using assms(6,7) multiplier_pos multiplier_le by (intro scaled_decimal_exact) simp_all
  with parse_credits_match [OF assms(1,2) sp' s] show ?thesis
    by (simp add: py_float_decimal [OF assms(1)])
qed

lemma digits_concrete:
  "list_all is_digit ''1''" "list_all is_digit ''15''" "is_unit CHR ''M''" "is_space CHR '' ''"
  "lower ''M'' = ''m''" "digits_val ''115'' = 115" "is_space CHR 0x0A"
  by code_simp+

theorem parse_credits_exact_witness: "parse_credits '' 1.15 M'' = Inr (Some 1150000)"
  using parse_credits_exact [of "''1''" "Some ''15''" "''M''" "'' ''" "'' ''" "[]" 1150000]
  by (simp add: decimal_ok_def unit_ok_def fraction_def decimal_def multiplier_def
      digits_concrete [simplified])

text \<open>C7. Everything else is refused: \<open>parse_credits\<close> answers None exactly for the texts that,
  trimmed, are not a decimal followed by optional spaces and an optional unit. Signs, exponents,
  thousands separators and other suffixes are refused; a text of the right shape is never
  refused (it gives a number or, beyond the range of a float, OverflowError).\<close>

theorem parse_credits_None_iff:
  "parse_credits value = Inr None \<longleftrightarrow> \<not> credit_shape (strip value)"
proof
  assume n: "parse_credits value = Inr None"
  show "\<not> credit_shape (strip value)"
  proof
    assume "credit_shape (strip value)"
    then obtain ip fp sp unit where "strip value = decimal ip fp @ sp @ unit"
      "decimal_ok ip fp" "unit_ok unit" "list_all is_space sp"
      unfolding credit_shape_def by blast
    from parse_credits_match [OF this(2-4,1)] n show False
      by (simp split: option.splits)
  qed
qed (rule not_shape_None)

text \<open>C8. A range is accepted, with the bounds given, exactly when the trimmed text has a single
  dash, each side is blank or read by the parser of the dimension, at least one side is given,
  and the lower bound does not exceed the upper.\<close>

theorem parse_range_accepts_iff:
  "parse_range spec parser = Inr (Some (lo, hi)) \<longleftrightarrow>
   (\<exists>l r. strip spec = l @ ''-'' @ r \<and> CHR ''-'' \<notin> set l \<and> CHR ''-'' \<notin> set r
      \<and> (if strip l = [] then lo = None else \<exists>n. parser (strip l) = Inr (Some n) \<and> lo = Some n)
      \<and> (if strip r = [] then hi = None else \<exists>n. parser (strip r) = Inr (Some n) \<and> hi = Some n)
      \<and> \<not> (lo = None \<and> hi = None)
      \<and> \<not> (\<exists>a b. lo = Some a \<and> hi = Some b \<and> b < a))"
proof -
  have "list_all not_dash x \<longleftrightarrow> CHR ''-'' \<notin> set x" for x
    by (induction x) (auto simp: not_dash_def)
  then show ?thesis
    unfolding parse_range_Some_iff parse_side_Some sides_ok_def
    by (intro ex_cong1) (auto split: option.splits)
qed

end
