(* ===== verification/Tables.thy ===== *)
theory Tables
  imports Prelude
begin

text \<open>
  Relational tables as lists of rows in insertion order: primary and unique keys, foreign
  keys, and what the statements of the repositories (insert, update, delete) do to them.
  The lemmas are collected in \<open>table_rules\<close>; every repository operation keeps the database
  consistent by these rules alone.
\<close>

named_theorems table_rules "keys and references under table updates"

section \<open>Columns\<close>

definition int8 :: "int \<Rightarrow> bool" where
  "int8 n \<longleftrightarrow> - 9223372036854775808 \<le> n \<and> n < 9223372036854775808"

definition int4 :: "int \<Rightarrow> bool" where
  "int4 n \<longleftrightarrow> - 2147483648 \<le> n \<and> n < 2147483648"

text \<open>A nullable column.\<close>

definition null_or :: "('a \<Rightarrow> bool) \<Rightarrow> 'a option \<Rightarrow> bool" where
  "null_or P x = (case x of None \<Rightarrow> True | Some v \<Rightarrow> P v)"

lemma null_or_simps [simp]: "null_or P None" "null_or P (Some v) \<longleftrightarrow> P v"
  by (simp_all add: null_or_def)

section \<open>Rows\<close>

definition row_with :: "('r \<Rightarrow> 'k) \<Rightarrow> 'k \<Rightarrow> 'r list \<Rightarrow> 'r option" where
  "row_with key k rows = find (\<lambda>r. key r = k) rows"

definition unique :: "('r \<Rightarrow> 'k) \<Rightarrow> 'r list \<Rightarrow> bool" where
  "unique key rows \<longleftrightarrow> distinct (map key rows)"

definition refs :: "('r \<Rightarrow> 'k) \<Rightarrow> 'r list \<Rightarrow> ('s \<Rightarrow> 'k) \<Rightarrow> 's list \<Rightarrow> bool" where
  "refs f rows key parents \<longleftrightarrow> (\<forall>r \<in> set rows. f r \<in> key ` set parents)"

definition update_where :: "('r \<Rightarrow> bool) \<Rightarrow> ('r \<Rightarrow> 'r) \<Rightarrow> 'r list \<Rightarrow> 'r list" where
  "update_where P f rows = map (\<lambda>r. if P r then f r else r) rows"

definition delete_where :: "('r \<Rightarrow> bool) \<Rightarrow> 'r list \<Rightarrow> 'r list" where
  "delete_where P rows = filter (\<lambda>r. \<not> P r) rows"

text \<open>\<open>INSERT ... ON CONFLICT (key) DO UPDATE\<close>.\<close>

definition upsert :: "('r \<Rightarrow> 'k) \<Rightarrow> 'r \<Rightarrow> ('r \<Rightarrow> 'r) \<Rightarrow> 'r list \<Rightarrow> 'r list" where
  "upsert key new f rows =
     (if row_with key (key new) rows = None then rows @ [new]
      else update_where (\<lambda>r. key r = key new) f rows)"

text \<open>Ids come from a sequence that is ahead of every row.\<close>

definition below :: "('r \<Rightarrow> int) \<Rightarrow> 'r list \<Rightarrow> int \<Rightarrow> bool" where
  "below ident rows n \<longleftrightarrow> (\<forall>r \<in> set rows. ident r < n) \<and> distinct (map ident rows)"

section \<open>Rules\<close>

lemma row_with_None: "row_with key k rows = None \<longleftrightarrow> k \<notin> key ` set rows"
  by (auto simp: row_with_def find_None_iff image_iff)

lemma row_with_Some: "row_with key k rows = Some r \<Longrightarrow> r \<in> set rows \<and> key r = k"
  by (auto simp: row_with_def find_Some_iff)

lemma row_with_unique:
  "unique key rows \<Longrightarrow> r \<in> set rows \<Longrightarrow> row_with key (key r) rows = Some r"
  by (induction rows) (auto simp: row_with_def unique_def image_iff)

lemma row_with_iff:
  "unique key rows \<Longrightarrow> row_with key k rows = Some r \<longleftrightarrow> r \<in> set rows \<and> key r = k"
  using row_with_Some row_with_unique by fastforce

lemma row_with_append:
  "row_with key k (rows @ [r]) =
     (case row_with key k rows of Some x \<Rightarrow> Some x | None \<Rightarrow> if key r = k then Some r else None)"
  by (induction rows) (auto simp: row_with_def)

lemma row_with_delete_other:
  "\<not> P k \<Longrightarrow> row_with key k (delete_where (\<lambda>r. P (key r)) rows) = row_with key k rows"
  by (induction rows) (auto simp: row_with_def delete_where_def)

lemma row_with_delete:
  "P k \<Longrightarrow> row_with key k (delete_where (\<lambda>r. P (key r)) rows) = None"
  by (induction rows) (auto simp: row_with_def delete_where_def)

lemma row_with_update:
  assumes "\<And>r. key (f r) = key r"
  shows "row_with key k (update_where P f rows) =
    map_option (\<lambda>r. if P r then f r else r) (row_with key k rows)"
  using assms by (induction rows) (auto simp: row_with_def update_where_def)

lemma row_with_upsert:
  assumes "\<And>r. key (f r) = key r"
  shows "row_with key k (upsert key new f rows) =
    (if k = key new then Some (case row_with key k rows of None \<Rightarrow> new | Some r \<Rightarrow> f r)
     else row_with key k rows)"
  using assms
  by (auto simp: upsert_def row_with_append row_with_update split: option.splits
      dest: row_with_Some)

lemma mem_update_where: "r \<in> set (update_where P f rows) \<longleftrightarrow>
    (\<exists>x \<in> set rows. r = (if P x then f x else x))"
  by (auto simp: update_where_def)

lemma mem_delete_where [simp]: "r \<in> set (delete_where P rows) \<longleftrightarrow> r \<in> set rows \<and> \<not> P r"
  by (auto simp: delete_where_def)

lemma list_all_update_where:
  "list_all Q (update_where P f rows) \<longleftrightarrow> list_all (\<lambda>r. Q (if P r then f r else r)) rows"
  by (simp add: update_where_def list.pred_map comp_def)

lemma length_update_where [simp]: "length (update_where P f rows) = length rows"
  by (simp add: update_where_def)

lemma map_update_where:
  "(\<And>r. key (f r) = key r) \<Longrightarrow> map key (update_where P f rows) = map key rows"
  by (simp add: update_where_def)

lemma unique_Nil [table_rules]: "unique key []"
  by (simp add: unique_def)

lemma unique_insert [table_rules]:
  "unique key rows \<Longrightarrow> row_with key (key r) rows = None \<Longrightarrow> unique key (rows @ [r])"
  by (simp add: unique_def row_with_None)

lemma unique_update [table_rules]:
  "unique key rows \<Longrightarrow> (\<And>r. key (f r) = key r) \<Longrightarrow> unique key (update_where P f rows)"
  by (simp add: unique_def map_update_where)

lemma unique_delete [table_rules]: "unique key rows \<Longrightarrow> unique key (delete_where P rows)"
  by (simp add: unique_def delete_where_def distinct_map_filter)

lemma unique_upsert [table_rules]:
  "unique key rows \<Longrightarrow> (\<And>r. key (f r) = key r) \<Longrightarrow> unique key (upsert key new f rows)"
  by (simp add: upsert_def table_rules)

lemma keys_update:
  "(\<And>r. key (f r) = key r) \<Longrightarrow> key ` set (update_where P f rows) = key ` set rows"
  by (metis list.set_map map_update_where)

lemma keys_upsert:
  assumes "\<And>r. key (f r) = key r"
  shows "key ` set (upsert key new f rows) = insert (key new) (key ` set rows)"
proof (cases "row_with key (key new) rows = None")
  case True
  then show ?thesis by (simp add: upsert_def)
next
  case False
  then have "key new \<in> key ` set rows" by (simp add: row_with_None)
  with False show ?thesis by (simp add: upsert_def keys_update assms insert_absorb)
qed

lemma refs_Nil [table_rules]: "refs f [] key parents"
  by (simp add: refs_def)

lemma refs_insert [table_rules]:
  "refs f rows key parents \<Longrightarrow> row_with key (f r) parents \<noteq> None \<Longrightarrow> refs f (rows @ [r]) key parents"
  by (auto simp: refs_def row_with_None)

lemma refs_delete [table_rules]: "refs f rows key parents \<Longrightarrow> refs f (delete_where P rows) key parents"
  by (simp add: refs_def)

lemma refs_update [table_rules]:
  "refs f rows key parents \<Longrightarrow> (\<And>r. f (g r) = f r) \<Longrightarrow> refs f (update_where P g rows) key parents"
  by (auto simp: refs_def mem_update_where)

lemma refs_parent_insert [table_rules]: "refs f rows key parents \<Longrightarrow> refs f rows key (parents @ [p])"
  by (auto simp: refs_def)

lemma refs_parent_update [table_rules]:
  "refs f rows key parents \<Longrightarrow> (\<And>r. key (g r) = key r) \<Longrightarrow> refs f rows key (update_where P g parents)"
  by (simp add: refs_def keys_update)

lemma refs_parent_upsert [table_rules]:
  "refs f rows key parents \<Longrightarrow> (\<And>r. key (g r) = key r) \<Longrightarrow> refs f rows key (upsert key new g parents)"
  by (simp add: refs_def keys_upsert)

text \<open>\<open>ON DELETE CASCADE\<close>: the rows of the child table that refer to a deleted parent go too.\<close>

lemma refs_cascade [table_rules]:
  assumes "refs f rows key parents"
  shows "refs f (delete_where (\<lambda>r. f r \<in> key ` set (filter P parents)) rows) key (delete_where P parents)"
  using assms by (fastforce simp: refs_def image_iff)

lemma refs_cascade_also [table_rules]:
  assumes "refs f rows key parents"
  shows "refs f (delete_where (\<lambda>r. f r \<in> key ` set (filter P parents)) (delete_where Q rows))
    key (delete_where P parents)"
  using assms by (intro table_rules)

lemma below_Nil [table_rules]: "below ident [] n"
  by (simp add: below_def)

lemma below_insert [table_rules]:
  "below ident rows n \<Longrightarrow> ident r = n \<Longrightarrow> below ident (rows @ [r]) (n + 1)"
  by (fastforce simp: below_def)

lemma below_skip [table_rules]: "below ident rows n \<Longrightarrow> below ident rows (n + 1)"
  by (fastforce simp: below_def)

lemma below_delete [table_rules]: "below ident rows n \<Longrightarrow> below ident (delete_where P rows) n"
  by (auto simp: below_def delete_where_def distinct_map_filter)

lemma below_update [table_rules]:
  "below ident rows n \<Longrightarrow> (\<And>r. ident (f r) = ident r) \<Longrightarrow> below ident (update_where P f rows) n"
  by (auto simp: below_def map_update_where mem_update_where)

text \<open>A condition on every row.\<close>

lemma rows_insert [table_rules]: "list_all Q rows \<Longrightarrow> Q r \<Longrightarrow> list_all Q (rows @ [r])"
  by simp

lemma rows_delete [table_rules]: "list_all Q rows \<Longrightarrow> list_all Q (delete_where P rows)"
  by (simp add: list_all_iff)

lemma rows_update [table_rules]:
  "list_all Q rows \<Longrightarrow> (\<And>r. Q r \<Longrightarrow> P r \<Longrightarrow> Q (f r)) \<Longrightarrow> list_all Q (update_where P f rows)"
  by (auto simp: list_all_iff mem_update_where)

lemma rows_upsert [table_rules]:
  "list_all Q rows \<Longrightarrow> Q new \<Longrightarrow> (\<And>r. Q r \<Longrightarrow> Q (f r)) \<Longrightarrow> list_all Q (upsert key new f rows)"
  by (auto simp: upsert_def intro: table_rules)

end
