(* ===== verification/Db.thy ===== *)
theory Db
  imports Tables Py_Float
begin

text \<open>
  The PostgreSQL database (\<open>db/models.py\<close>) and the repository of the market tables
  (\<open>db/market_repo.py\<close>).

  A \<open>world\<close> holds one list of rows per table, the sequences behind the autoincrement ids, the
  server's clock and the chat messages handed to the chat sinks. Times are microseconds since
  the epoch. Every method of the repository commits what it changed before it returns, so a
  method is one transaction: it either changes the tables or raises and leaves them as they
  were, except that a sequence once advanced stays so. A value outside its column
  (\<open>BigInteger\<close> is 64 bits, \<open>Integer\<close> 32) is refused by the driver before anything is sent,
  also as a parameter of a query: \<open>Data_Error\<close>. Broken keys are \<open>Integrity_Error\<close>.

  \<open>SELECT\<close> without \<open>ORDER BY\<close> gives rows in an unspecified order; here it is the order of
  insertion. Ties of an \<open>ORDER BY\<close> are broken the same way. Texts are free of U+0000, which the
  database refuses.
\<close>

section \<open>Times\<close>

datatype stamp = Minus_Infinity | At int

instantiation stamp :: linorder
begin

fun less_eq_stamp :: "stamp \<Rightarrow> stamp \<Rightarrow> bool" where
  "less_eq_stamp Minus_Infinity y = True"
| "less_eq_stamp (At s) Minus_Infinity = False"
| "less_eq_stamp (At s) (At t) = (s \<le> t)"

definition less_stamp :: "stamp \<Rightarrow> stamp \<Rightarrow> bool" where
  "less_stamp x y \<longleftrightarrow> x \<le> y \<and> \<not> y \<le> x"

instance
proof
  fix x y z :: stamp
  show "x < y \<longleftrightarrow> x \<le> y \<and> \<not> y \<le> x" by (rule less_stamp_def)
  show "x \<le> x" by (cases x) simp_all
  show "x \<le> y \<Longrightarrow> y \<le> z \<Longrightarrow> x \<le> z" by (cases x; cases y; cases z) simp_all
  show "x \<le> y \<Longrightarrow> y \<le> x \<Longrightarrow> x = y" by (cases x; cases y) simp_all
  show "x \<le> y \<or> y \<le> x" by (cases x; cases y) auto
qed

end

lemma stamp_less [simp]:
  "At s < At t \<longleftrightarrow> s < t" "Minus_Infinity < At t" "\<not> x < Minus_Infinity"
  by (auto simp: less_stamp_def)

section \<open>Tables\<close>

record user_row =
  usr_player :: string
  usr_registered_at :: int
  usr_is_admin :: bool

record watch_row =
  wat_aoid :: int
  wat_name :: string
  wat_ql :: int
  wat_icon :: "int option"
  wat_first_seen :: int
  wat_last_polled :: stamp
  wat_auto_tracked :: bool

record history_row =
  his_id :: int
  his_aoid :: int
  his_ts :: int
  his_sell_count :: int
  his_buy_count :: int
  his_min_sell_price :: int
  his_max_buy_price :: int
  his_avg_sell_price :: pyfloat
  his_avg_buy_price :: pyfloat
  his_anchor_sell_count :: int
  his_anchor_buy_count :: int

datatype subscription_side = Side_buy | Side_sell

record sub_row =
  sub_id :: int
  sub_player :: string
  sub_aoid :: int
  sub_side :: "subscription_side option"
  sub_min_price :: "int option"
  sub_max_price :: "int option"
  sub_min_ql :: "int option"
  sub_max_ql :: "int option"
  sub_created_at :: int

record seen_row =
  seen_aoid :: int
  seen_fingerprint :: string

record alert_row =
  alr_id :: int
  alr_player :: string
  alr_aoid :: int
  alr_message :: string
  alr_created_at :: int

record action_row =
  act_id :: int
  act_player :: string
  act_action :: string
  act_aoid :: "int option"
  act_created_at :: int

record key_row =
  key_id :: int
  key_player :: string
  key_hash :: string
  key_prefix :: string
  key_created_at :: int
  key_revoked_at :: "int option"
  key_last_used_at :: "int option"

record backoff_row =
  bo_aoid :: int
  bo_failure_count :: int
  bo_last_attempted_at :: int
  bo_next_retry_at :: int

datatype value_type = VBool | VInt | VFloat | VStr

record setting_row =
  set_key :: string
  set_value :: string
  set_value_type :: value_type
  set_updated_at :: int

datatype chat_out = Privgroup string | Tell string string

record world =
  clock :: int
  users :: "user_row list"
  watches :: "watch_row list"
  history :: "history_row list"
  subs :: "sub_row list"
  seen :: "seen_row list"
  alerts :: "alert_row list"
  actions :: "action_row list"
  api_keys :: "key_row list"
  backoffs :: "backoff_row list"
  settings :: "setting_row list"
  history_seq :: int
  sub_seq :: int
  alert_seq :: int
  action_seq :: int
  key_seq :: int
  outbox :: "chat_out list"

definition empty_world :: world where
  "empty_world =
     \<lparr>clock = 0, users = [], watches = [], history = [], subs = [], seen = [], alerts = [], actions = [],
      api_keys = [], backoffs = [], settings = [], history_seq = 1, sub_seq = 1, alert_seq = 1,
      action_seq = 1, key_seq = 1, outbox = []\<rparr>"

section \<open>Consistency\<close>

definition sub_key :: "sub_row \<Rightarrow> string \<times> int" where
  "sub_key s = (sub_player s, sub_aoid s)"

definition seen_key :: "seen_row \<Rightarrow> int \<times> string" where
  "seen_key r = (seen_aoid r, seen_fingerprint r)"

text \<open>Primary and unique keys, foreign keys, ids, columns.\<close>

definition keys_ok :: "world \<Rightarrow> bool" where
  "keys_ok w \<longleftrightarrow>
     unique usr_player (users w) \<and> unique wat_aoid (watches w) \<and> unique sub_key (subs w)
     \<and> unique seen_key (seen w) \<and> unique key_hash (api_keys w) \<and> unique bo_aoid (backoffs w)
     \<and> unique set_key (settings w)"

definition refs_ok :: "world \<Rightarrow> bool" where
  "refs_ok w \<longleftrightarrow>
     refs sub_player (subs w) usr_player (users w) \<and> refs sub_aoid (subs w) wat_aoid (watches w)
     \<and> refs his_aoid (history w) wat_aoid (watches w)
     \<and> refs key_player (api_keys w) usr_player (users w)"

definition ids_ok :: "world \<Rightarrow> bool" where
  "ids_ok w \<longleftrightarrow>
     below his_id (history w) (history_seq w) \<and> below sub_id (subs w) (sub_seq w)
     \<and> below alr_id (alerts w) (alert_seq w) \<and> below act_id (actions w) (action_seq w)
     \<and> below key_id (api_keys w) (key_seq w)"

definition watch_fits :: "watch_row \<Rightarrow> bool" where
  "watch_fits r \<longleftrightarrow> int8 (wat_aoid r) \<and> int4 (wat_ql r) \<and> null_or int4 (wat_icon r)"

definition sub_fits :: "sub_row \<Rightarrow> bool" where
  "sub_fits s \<longleftrightarrow> int8 (sub_aoid s) \<and> null_or int8 (sub_min_price s) \<and> null_or int8 (sub_max_price s)
     \<and> null_or int4 (sub_min_ql s) \<and> null_or int4 (sub_max_ql s)"

definition backoff_fits :: "backoff_row \<Rightarrow> bool" where
  "backoff_fits r \<longleftrightarrow> int8 (bo_aoid r) \<and> int4 (bo_failure_count r)"

definition columns_ok :: "world \<Rightarrow> bool" where
  "columns_ok w \<longleftrightarrow> list_all watch_fits (watches w) \<and> list_all sub_fits (subs w)
     \<and> list_all (\<lambda>r. int8 (alr_aoid r)) (alerts w) \<and> list_all (\<lambda>r. null_or int8 (act_aoid r)) (actions w)
     \<and> list_all (\<lambda>r. int8 (seen_aoid r)) (seen w)
     \<and> list_all backoff_fits (backoffs w)"

definition db_ok :: "world \<Rightarrow> bool" where
  "db_ok w \<longleftrightarrow> keys_ok w \<and> refs_ok w \<and> ids_ok w \<and> columns_ok w"

lemmas db_defs = db_ok_def keys_ok_def refs_ok_def ids_ok_def columns_ok_def

section \<open>Statements\<close>

text \<open>The driver encodes the parameters of a statement first.\<close>

definition with_params :: "bool \<Rightarrow> (world, 'a) eff \<Rightarrow> (world, 'a) eff" where
  "with_params ok m = (if ok then m else raise Data_Error)"

text \<open>\<open>DELETE\<close> on the parent tables, with the cascades of the schema.\<close>

definition delete_users :: "(user_row \<Rightarrow> bool) \<Rightarrow> world \<Rightarrow> world" where
  "delete_users P w =
     (let gone = usr_player ` set (filter P (users w)) in
      w\<lparr>users := delete_where P (users w),
        subs := delete_where (\<lambda>s. sub_player s \<in> gone) (subs w),
        api_keys := delete_where (\<lambda>k. key_player k \<in> gone) (api_keys w)\<rparr>)"

definition delete_watches :: "(watch_row \<Rightarrow> bool) \<Rightarrow> world \<Rightarrow> world" where
  "delete_watches P w =
     (let gone = wat_aoid ` set (filter P (watches w)) in
      w\<lparr>watches := delete_where P (watches w),
        history := delete_where (\<lambda>r. his_aoid r \<in> gone) (history w),
        subs := delete_where (\<lambda>s. sub_aoid s \<in> gone) (subs w)\<rparr>)"

lemma delete_users_ok: "db_ok w \<Longrightarrow> db_ok (delete_users P w)"
  unfolding db_defs delete_users_def Let_def
  by (simp del: set_filter add: table_rules)

lemma delete_watches_ok: "db_ok w \<Longrightarrow> db_ok (delete_watches P w)"
  unfolding db_defs delete_watches_def Let_def
  by (simp del: set_filter add: table_rules)

section \<open>Users\<close>

definition is_registered :: "string \<Rightarrow> (world, bool) eff" where
  "is_registered player = gets (\<lambda>w. row_with usr_player player (users w) \<noteq> None)"

definition get_user :: "string \<Rightarrow> (world, user_row option) eff" where
  "get_user player = gets (\<lambda>w. row_with usr_player player (users w))"

definition new_user :: "string \<Rightarrow> int \<Rightarrow> user_row" where
  "new_user player now = \<lparr>usr_player = player, usr_registered_at = now, usr_is_admin = False\<rparr>"

definition repo_register :: "string \<Rightarrow> (world, unit) eff" where
  "repo_register player = (\<lambda>w.
     if row_with usr_player player (users w) \<noteq> None then (Inl Integrity_Error, w)
     else (Inr (), w\<lparr>users := users w @ [new_user player (clock w)]\<rparr>))"

definition count_where :: "('r \<Rightarrow> bool) \<Rightarrow> 'r list \<Rightarrow> int" where
  "count_where P rows = int (length (filter P rows))"

definition unregister_cascade :: "string \<Rightarrow> (world, int) eff" where
  "unregister_cascade player = (\<lambda>w.
     let sub_count = count_where (\<lambda>s. sub_player s = player) (subs w);
         w = w\<lparr>subs := delete_where (\<lambda>s. sub_player s = player) (subs w)\<rparr>;
         w = w\<lparr>alerts := delete_where (\<lambda>a. alr_player a = player) (alerts w)\<rparr>;
         w = w\<lparr>actions := delete_where (\<lambda>a. act_player a = player) (actions w)\<rparr>;
         w = delete_users (\<lambda>u. usr_player u = player) w
     in (Inr sub_count, w))"

section \<open>Tracked items\<close>

definition get_watch :: "int \<Rightarrow> (world, watch_row option) eff" where
  "get_watch aoid = with_params (int8 aoid) (gets (\<lambda>w. row_with wat_aoid aoid (watches w)))"

definition new_watch :: "int \<Rightarrow> string \<Rightarrow> int \<Rightarrow> int option \<Rightarrow> bool \<Rightarrow> int \<Rightarrow> watch_row" where
  "new_watch aoid name ql icon auto_tracked now =
     \<lparr>wat_aoid = aoid, wat_name = name, wat_ql = ql, wat_icon = icon, wat_first_seen = now,
      wat_last_polled = Minus_Infinity, wat_auto_tracked = auto_tracked\<rparr>"

definition refresh_watch :: "string \<Rightarrow> int \<Rightarrow> int option \<Rightarrow> bool \<Rightarrow> watch_row \<Rightarrow> watch_row" where
  "refresh_watch name ql icon auto_tracked r =
     r\<lparr>wat_name := name, wat_ql := ql, wat_icon := icon,
       wat_auto_tracked := (if auto_tracked then True else wat_auto_tracked r)\<rparr>"

definition upsert_watch ::
  "int \<Rightarrow> string \<Rightarrow> int \<Rightarrow> int option \<Rightarrow> bool \<Rightarrow> (world, bool) eff" where
  "upsert_watch aoid name ql icon auto_tracked =
     bnd (get_watch aoid) (\<lambda>existing.
     with_params (int4 ql \<and> null_or int4 icon) (\<lambda>w.
       (Inr (existing = None),
        w\<lparr>watches := upsert wat_aoid (new_watch aoid name ql icon auto_tracked (clock w))
            (refresh_watch name ql icon auto_tracked) (watches w)\<rparr>)))"

definition delete_watch :: "int \<Rightarrow> (world, bool) eff" where
  "delete_watch aoid = with_params (int8 aoid) (\<lambda>w.
     (Inr (0 < count_where (\<lambda>r. wat_aoid r = aoid) (watches w)),
      delete_watches (\<lambda>r. wat_aoid r = aoid) w))"

definition count_watch :: "bool option \<Rightarrow> (world, int) eff" where
  "count_watch auto_tracked = gets (\<lambda>w.
     count_where (\<lambda>r. case auto_tracked of None \<Rightarrow> True | Some b \<Rightarrow> wat_auto_tracked r = b) (watches w))"

definition clear_watch :: "(world, int) eff" where
  "clear_watch =
     bnd (count_watch None) (\<lambda>count. bnd (modify (delete_watches (\<lambda>_. True))) (\<lambda>_. ret count))"

text \<open>\<open>LIMIT\<close> and \<open>OFFSET\<close> take 64-bit values and refuse negative ones.\<close>

definition page_ok :: "int \<Rightarrow> bool" where
  "page_ok n \<longleftrightarrow> int8 n \<and> 0 \<le> n"

definition list_watch :: "int \<Rightarrow> int \<Rightarrow> bool option \<Rightarrow> (world, watch_row list) eff" where
  "list_watch limit offset auto_tracked = with_params (page_ok limit \<and> page_ok offset) (gets (\<lambda>w.
     take (nat limit) (drop (nat offset) (sort_key wat_aoid
       (filter (\<lambda>r. case auto_tracked of None \<Rightarrow> True | Some b \<Rightarrow> wat_auto_tracked r = b) (watches w))))))"

definition is_stale :: "int \<Rightarrow> watch_row \<Rightarrow> bool" where
  "is_stale cutoff r \<longleftrightarrow>
     \<not> wat_auto_tracked r \<and> max (wat_last_polled r) (At (wat_first_seen r)) < At cutoff"

definition expire_stale_watch :: "int \<Rightarrow> (world, int list) eff" where
  "expire_stale_watch cutoff =
     bnd (gets (\<lambda>w. map wat_aoid (filter (is_stale cutoff) (watches w)))) (\<lambda>aoids.
     bnd (if aoids \<noteq> [] then modify (delete_watches (\<lambda>r. wat_aoid r \<in> set aoids)) else ret ()) (\<lambda>_.
     ret aoids))"

definition due_for_poll :: "int \<Rightarrow> int \<Rightarrow> (world, watch_row list) eff" where
  "due_for_poll cutoff batch_size = with_params (page_ok batch_size) (gets (\<lambda>w.
     take (nat batch_size)
       (sort_key wat_last_polled (filter (\<lambda>r. wat_last_polled r < At cutoff) (watches w)))))"

definition update_last_polled :: "int \<Rightarrow> int \<Rightarrow> (world, unit) eff" where
  "update_last_polled aoid ts = with_params (int8 aoid) (modify (\<lambda>w.
     w\<lparr>watches := update_where (\<lambda>r. wat_aoid r = aoid) (\<lambda>r. r\<lparr>wat_last_polled := At ts\<rparr>) (watches w)\<rparr>))"

definition unflag_autotrack_not_in :: "int list \<Rightarrow> (world, unit) eff" where
  "unflag_autotrack_not_in keep_aoids = with_params (list_all int8 keep_aoids) (modify (\<lambda>w.
     w\<lparr>watches := update_where
         (\<lambda>r. wat_auto_tracked r \<and> (keep_aoids \<noteq> [] \<longrightarrow> wat_aoid r \<notin> set keep_aoids))
         (\<lambda>r. r\<lparr>wat_auto_tracked := False\<rparr>) (watches w)\<rparr>))"

definition existing_aoids :: "int list \<Rightarrow> (world, int list) eff" where
  "existing_aoids aoids =
     (if aoids = [] then ret []
      else with_params (list_all int8 aoids) (gets (\<lambda>w.
        map wat_aoid (filter (\<lambda>r. wat_aoid r \<in> set aoids) (watches w)))))"

section \<open>Price history\<close>

definition insert_snapshot ::
  "int \<Rightarrow> int \<Rightarrow> int \<Rightarrow> int \<Rightarrow> int \<Rightarrow> pyfloat \<Rightarrow> pyfloat \<Rightarrow> int \<Rightarrow> int \<Rightarrow> (world, unit) eff" where
  "insert_snapshot aoid sell_count buy_count min_sell_price max_buy_price avg_sell_price
       avg_buy_price anchor_sell_count anchor_buy_count =
     with_params (int8 aoid \<and> int4 sell_count \<and> int4 buy_count \<and> int8 min_sell_price
         \<and> int8 max_buy_price \<and> int4 anchor_sell_count \<and> int4 anchor_buy_count) (\<lambda>w.
       if row_with wat_aoid aoid (watches w) = None
       then (Inl Integrity_Error, w\<lparr>history_seq := history_seq w + 1\<rparr>)
       else (Inr (), w\<lparr>
         history := history w @ [\<lparr>his_id = history_seq w, his_aoid = aoid, his_ts = clock w,
           his_sell_count = sell_count, his_buy_count = buy_count,
           his_min_sell_price = min_sell_price, his_max_buy_price = max_buy_price,
           his_avg_sell_price = avg_sell_price, his_avg_buy_price = avg_buy_price,
           his_anchor_sell_count = anchor_sell_count, his_anchor_buy_count = anchor_buy_count\<rparr>],
         history_seq := history_seq w + 1\<rparr>))"

definition prune_history :: "int \<Rightarrow> (world, unit) eff" where
  "prune_history cutoff =
     modify (\<lambda>w. w\<lparr>history := delete_where (\<lambda>r. his_ts r < cutoff) (history w)\<rparr>)"

section \<open>Subscriptions\<close>

definition is_sub :: "string \<Rightarrow> int \<Rightarrow> sub_row \<Rightarrow> bool" where
  "is_sub player aoid s \<longleftrightarrow> sub_player s = player \<and> sub_aoid s = aoid"

definition get_subscription :: "string \<Rightarrow> int \<Rightarrow> (world, sub_row option) eff" where
  "get_subscription player aoid = with_params (int8 aoid) (gets (\<lambda>w.
     row_with sub_key (player, aoid) (subs w)))"

definition count_subscriptions :: "string \<Rightarrow> (world, int) eff" where
  "count_subscriptions player = gets (\<lambda>w. count_where (\<lambda>s. sub_player s = player) (subs w))"

definition new_sub :: "string \<Rightarrow> int \<Rightarrow> int \<Rightarrow> int \<Rightarrow> sub_row" where
  "new_sub player aoid ident now =
     \<lparr>sub_id = ident, sub_player = player, sub_aoid = aoid, sub_side = None, sub_min_price = None,
      sub_max_price = None, sub_min_ql = None, sub_max_ql = None, sub_created_at = now\<rparr>"

definition add_subscription :: "string \<Rightarrow> int \<Rightarrow> (world, unit) eff" where
  "add_subscription player aoid = with_params (int8 aoid) (\<lambda>w.
     if row_with sub_key (player, aoid) (subs w) \<noteq> None
        \<or> row_with usr_player player (users w) = None \<or> row_with wat_aoid aoid (watches w) = None
     then (Inl Integrity_Error, w\<lparr>sub_seq := sub_seq w + 1\<rparr>)
     else (Inr (), w\<lparr>subs := subs w @ [new_sub player aoid (sub_seq w) (clock w)],
                      sub_seq := sub_seq w + 1\<rparr>))"

definition delete_subscription :: "string \<Rightarrow> int \<Rightarrow> (world, bool) eff" where
  "delete_subscription player aoid = with_params (int8 aoid) (\<lambda>w.
     (Inr (0 < count_where (is_sub player aoid) (subs w)),
      w\<lparr>subs := delete_where (is_sub player aoid) (subs w)\<rparr>))"

definition delete_subscriptions_bulk :: "string \<Rightarrow> int list \<Rightarrow> (world, int list) eff" where
  "delete_subscriptions_bulk player aoids =
     fold_eff (\<lambda>aoid removed.
       bnd (delete_subscription player aoid) (\<lambda>deleted.
       ret (if deleted then List.insert aoid removed else removed))) aoids []"

definition delete_all_subscriptions :: "string \<Rightarrow> (world, int) eff" where
  "delete_all_subscriptions player =
     bnd (count_subscriptions player) (\<lambda>count.
     bnd (modify (\<lambda>w. w\<lparr>subs := delete_where (\<lambda>s. sub_player s = player) (subs w)\<rparr>)) (\<lambda>_.
     ret count))"

definition list_subscriptions :: "string \<Rightarrow> (world, sub_row list) eff" where
  "list_subscriptions player = gets (\<lambda>w.
     sort_key sub_created_at (filter (\<lambda>s. sub_player s = player) (subs w)))"

definition update_subs :: "string \<Rightarrow> int \<Rightarrow> (sub_row \<Rightarrow> sub_row) \<Rightarrow> (world, unit) eff" where
  "update_subs player aoid f =
     modify (\<lambda>w. w\<lparr>subs := update_where (is_sub player aoid) f (subs w)\<rparr>)"

definition update_price_filter ::
  "string \<Rightarrow> int \<Rightarrow> int option \<Rightarrow> int option \<Rightarrow> (world, unit) eff" where
  "update_price_filter player aoid min_price max_price =
     with_params (int8 aoid \<and> null_or int8 min_price \<and> null_or int8 max_price)
       (update_subs player aoid (\<lambda>s. s\<lparr>sub_min_price := min_price, sub_max_price := max_price\<rparr>))"

definition update_ql_filter ::
  "string \<Rightarrow> int \<Rightarrow> int option \<Rightarrow> int option \<Rightarrow> (world, unit) eff" where
  "update_ql_filter player aoid min_ql max_ql =
     with_params (int8 aoid \<and> null_or int4 min_ql \<and> null_or int4 max_ql)
       (update_subs player aoid (\<lambda>s. s\<lparr>sub_min_ql := min_ql, sub_max_ql := max_ql\<rparr>))"

definition repo_clear_filter :: "string \<Rightarrow> int \<Rightarrow> (world, unit) eff" where
  "repo_clear_filter player aoid =
     with_params (int8 aoid) (update_subs player aoid (\<lambda>s.
       s\<lparr>sub_min_price := None, sub_max_price := None, sub_min_ql := None, sub_max_ql := None\<rparr>))"

definition subscribers_for_aoid :: "int \<Rightarrow> (world, sub_row list) eff" where
  "subscribers_for_aoid aoid =
     with_params (int8 aoid) (gets (\<lambda>w. filter (\<lambda>s. sub_aoid s = aoid) (subs w)))"

section \<open>Seen orders\<close>

text \<open>The set of fingerprints is a list without repetitions, in the order of iteration.\<close>

definition get_seen_fingerprints :: "int \<Rightarrow> (world, string list) eff" where
  "get_seen_fingerprints aoid = with_params (int8 aoid) (gets (\<lambda>w.
     map seen_fingerprint (filter (\<lambda>r. seen_aoid r = aoid) (seen w))))"

text \<open>\<open>INSERT ... ON CONFLICT DO NOTHING\<close>.\<close>

definition insert_seen :: "int \<Rightarrow> string \<Rightarrow> seen_row list \<Rightarrow> seen_row list" where
  "insert_seen aoid fp rows =
     upsert seen_key \<lparr>seen_aoid = aoid, seen_fingerprint = fp\<rparr> (\<lambda>r. r) rows"

definition replace_seen_fingerprints :: "int \<Rightarrow> string list \<Rightarrow> (world, unit) eff" where
  "replace_seen_fingerprints aoid fingerprints = with_params (int8 aoid) (modify (\<lambda>w.
     w\<lparr>seen := fold (insert_seen aoid) fingerprints (delete_where (\<lambda>r. seen_aoid r = aoid) (seen w))\<rparr>))"

section \<open>Queued alerts\<close>

definition queue_pending_alert :: "string \<Rightarrow> int \<Rightarrow> string \<Rightarrow> (world, unit) eff" where
  "queue_pending_alert player aoid message = with_params (int8 aoid) (modify (\<lambda>w.
     w\<lparr>alerts := alerts w @ [\<lparr>alr_id = alert_seq w, alr_player = player, alr_aoid = aoid,
                              alr_message = message, alr_created_at = clock w\<rparr>],
       alert_seq := alert_seq w + 1\<rparr>))"

definition pop_pending_alerts :: "string \<Rightarrow> (world, alert_row list) eff" where
  "pop_pending_alerts player =
     bnd (gets (\<lambda>w. sort_key alr_created_at (filter (\<lambda>a. alr_player a = player) (alerts w)))) (\<lambda>popped.
     bnd (if popped \<noteq> []
          then modify (\<lambda>w. w\<lparr>alerts := delete_where (\<lambda>a. alr_id a \<in> set (map alr_id popped)) (alerts w)\<rparr>)
          else ret ()) (\<lambda>_.
     ret popped))"

section \<open>Action ledger\<close>

definition repo_log_action :: "string \<Rightarrow> string \<Rightarrow> int option \<Rightarrow> (world, unit) eff" where
  "repo_log_action player action aoid = with_params (null_or int8 aoid) (modify (\<lambda>w.
     w\<lparr>actions := actions w @ [\<lparr>act_id = action_seq w, act_player = player, act_action = action,
                                act_aoid = aoid, act_created_at = clock w\<rparr>],
       action_seq := action_seq w + 1\<rparr>))"

definition user_action_summary :: "string \<Rightarrow> (world, int \<times> int option) eff" where
  "user_action_summary player = gets (\<lambda>w.
     let mine = filter (\<lambda>a. act_player a = player) (actions w)
     in (int (length mine), if mine = [] then None else Some (Min (set (map act_created_at mine)))))"

definition user_action_breakdown :: "string \<Rightarrow> (world, (string \<times> int) list) eff" where
  "user_action_breakdown player = gets (\<lambda>w.
     let mine = map act_action (filter (\<lambda>a. act_player a = player) (actions w))
     in sort_key (\<lambda>(_, n). - n) (map (\<lambda>a. (a, count_where (\<lambda>b. b = a) mine)) (remdups mine)))"

section \<open>Every method keeps the database consistent\<close>

lemma keeping_params [keeps]: "keeping I m \<Longrightarrow> keeping I (with_params ok m)"
  by (simp add: with_params_def keeps)

lemma with_params_simps [simp]:
  "with_params True m = m"
  "with_params False m = raise Data_Error"
  by (simp_all add: with_params_def)

lemma with_params_Inr: "with_params ok m w = (Inr x, w') \<longleftrightarrow> ok \<and> m w = (Inr x, w')"
  by (simp add: with_params_def)

lemma read_only_repo [keeps]:
  "keeping I (is_registered player)"
  "keeping I (get_user player)"
  "keeping I (get_watch aoid)"
  "keeping I (count_watch auto)"
  "keeping I (list_watch limit off auto)"
  "keeping I (due_for_poll cutoff batch)"
  "keeping I (existing_aoids aoids)"
  "keeping I (get_subscription player aoid)"
  "keeping I (count_subscriptions player)"
  "keeping I (list_subscriptions player)"
  "keeping I (subscribers_for_aoid aoid)"
  "keeping I (get_seen_fingerprints aoid)"
  "keeping I (user_action_summary player)"
  "keeping I (user_action_breakdown player)"
  by (auto intro!: keeps simp: is_registered_def get_user_def get_watch_def count_watch_def
      list_watch_def due_for_poll_def existing_aoids_def get_subscription_def
      count_subscriptions_def list_subscriptions_def subscribers_for_aoid_def
      get_seen_fingerprints_def user_action_summary_def user_action_breakdown_def)


text \<open>A statement that only touches the row it is given keeps what the other tables hold.\<close>

lemma db_okD:
  assumes "db_ok w"
  shows "keys_ok w" "refs_ok w" "ids_ok w" "columns_ok w"
  using assms by (simp_all add: db_ok_def)

lemma repo_register_ok [keeps]: "keeping db_ok (repo_register player)"
  by (rule keepingI) (simp add: repo_register_def db_defs new_user_def table_rules)

lemma keeping_delete_users: "keeping db_ok (modify (delete_users P))"
  by (intro keeping_modify delete_users_ok)

lemma keeping_delete_watches [keeps]: "keeping db_ok (modify (delete_watches P))"
  by (intro keeping_modify delete_watches_ok)

lemma clear_player_ok:
  "db_ok w \<Longrightarrow> db_ok (w\<lparr>subs := delete_where P (subs w), alerts := delete_where Q (alerts w),
     actions := delete_where R (actions w)\<rparr>)"
  by (simp add: db_defs table_rules)

lemma unregister_cascade_ok [keeps]: "keeping db_ok (unregister_cascade player)"
  by (rule keepingI) (simp add: unregister_cascade_def Let_def delete_users_ok clear_player_ok)

lemma watch_changes_ok:
  "db_ok w \<Longrightarrow> (\<And>r. wat_aoid (f r) = wat_aoid r) \<Longrightarrow> (\<And>r. watch_fits r \<Longrightarrow> watch_fits (f r)) \<Longrightarrow>
   db_ok (w\<lparr>watches := update_where P f (watches w)\<rparr>)"
  by (simp add: db_defs table_rules)

lemma upsert_watch_ok [keeps]: "keeping db_ok (upsert_watch aoid name ql icon auto)"
proof (rule keepingI)
  fix w assume ok: "db_ok w"
  show "db_ok (snd (upsert_watch aoid name ql icon auto w))"
  proof (cases "int8 aoid \<and> int4 ql \<and> null_or int4 icon")
    case True
    let ?f = "refresh_watch name ql icon auto"
    have "wat_aoid (?f r) = wat_aoid r" "watch_fits r \<Longrightarrow> watch_fits (?f r)" for r
      using True by (simp_all add: refresh_watch_def watch_fits_def)
    moreover have "watch_fits (new_watch aoid name ql icon auto (clock w))"
      using True by (simp add: new_watch_def watch_fits_def)
    ultimately show ?thesis
      using True ok by (simp add: upsert_watch_def get_watch_def db_defs table_rules)
  next
    case False
    then show ?thesis
      using ok by (auto simp: upsert_watch_def get_watch_def with_params_def)
  qed
qed

lemma delete_watch_ok [keeps]: "keeping db_ok (delete_watch aoid)"
  by (rule keepingI) (simp add: delete_watch_def with_params_def delete_watches_ok)

lemma watch_writes_ok [keeps]:
  "keeping db_ok clear_watch"
  "keeping db_ok (expire_stale_watch cutoff)"
  by (auto intro!: keeps simp: clear_watch_def expire_stale_watch_def)

lemma watch_marks_ok [keeps]:
  "keeping db_ok (update_last_polled aoid ts)"
  "keeping db_ok (unflag_autotrack_not_in keep_aoids)"
  by (auto intro!: keeps keeping_modify watch_changes_ok
      simp: update_last_polled_def unflag_autotrack_not_in_def watch_fits_def)

lemma insert_snapshot_ok [keeps]: "keeping db_ok (insert_snapshot a b c d e f g h i)"
  by (rule keepingI) (simp add: insert_snapshot_def with_params_def db_defs table_rules)

lemma prune_history_ok [keeps]: "keeping db_ok (prune_history cutoff)"
  by (auto intro!: keeping_modify simp: prune_history_def db_defs table_rules)

lemma add_subscription_ok [keeps]: "keeping db_ok (add_subscription player aoid)"
  by (rule keepingI)
    (simp add: add_subscription_def with_params_def db_defs table_rules new_sub_def sub_key_def sub_fits_def)

lemma sub_deletes_ok: "db_ok w \<Longrightarrow> db_ok (w\<lparr>subs := delete_where P (subs w)\<rparr>)"
  by (simp add: db_defs table_rules)

lemma delete_subscription_ok [keeps]: "keeping db_ok (delete_subscription player aoid)"
  by (rule keepingI) (simp add: delete_subscription_def with_params_def sub_deletes_ok)

lemma delete_subscriptions_ok [keeps]:
  "keeping db_ok (delete_subscriptions_bulk player aoids)"
  "keeping db_ok (delete_all_subscriptions player)"
  by (auto intro!: keeps keeping_modify sub_deletes_ok
      simp: delete_subscriptions_bulk_def delete_all_subscriptions_def)

lemma update_subs_ok:
  assumes "\<And>s. sub_key (f s) = sub_key s \<and> sub_id (f s) = sub_id s" and "\<And>s. sub_fits s \<Longrightarrow> sub_fits (f s)"
  shows "keeping db_ok (update_subs player aoid f)"
  using assms
  by (auto intro!: keeping_modify simp: update_subs_def db_defs table_rules sub_key_def)

lemma update_filters_ok [keeps]:
  "keeping db_ok (update_price_filter player aoid lo hi)"
  "keeping db_ok (update_ql_filter player aoid lo hi)"
  "keeping db_ok (repo_clear_filter player aoid)"
  by (auto intro!: keeps update_subs_ok simp: update_price_filter_def update_ql_filter_def
      repo_clear_filter_def with_params_def sub_key_def sub_fits_def)

lemma insert_seen_ok:
  "unique seen_key rows \<and> list_all (\<lambda>r. int8 (seen_aoid r)) rows \<and> int8 aoid \<Longrightarrow>
   unique seen_key (fold (insert_seen aoid) fps rows)
   \<and> list_all (\<lambda>r. int8 (seen_aoid r)) (fold (insert_seen aoid) fps rows)"
  by (induction fps arbitrary: rows) (simp_all add: insert_seen_def table_rules)

lemma replace_seen_ok [keeps]: "keeping db_ok (replace_seen_fingerprints aoid fps)"
  by (rule keepingI)
    (simp add: replace_seen_fingerprints_def with_params_def db_defs table_rules insert_seen_ok)

lemma alerts_ok [keeps]:
  "keeping db_ok (queue_pending_alert player aoid message)"
  "keeping db_ok (pop_pending_alerts player)"
   apply (rule keepingI, simp add: queue_pending_alert_def with_params_def db_defs table_rules)
  apply (auto intro!: keeps keeping_modify simp: pop_pending_alerts_def db_defs table_rules)
  done

lemma repo_log_action_ok [keeps]: "keeping db_ok (repo_log_action player action aoid)"
  by (rule keepingI) (simp add: repo_log_action_def with_params_def db_defs table_rules)


section \<open>The fingerprint store\<close>

text \<open>What the detection of new orders needs: replacing the fingerprints of one item is read back
  for that item and leaves the others alone.\<close>

locale seen_store =
  fixes look :: "'w \<Rightarrow> 'k \<Rightarrow> 'f set"
    and replace :: "'k \<Rightarrow> 'f list \<Rightarrow> 'w \<Rightarrow> 'w"
  assumes look_same: "look (replace k fs w) k = set fs"
    and look_other: "k' \<noteq> k \<Longrightarrow> look (replace k fs w) k' = look w k'"
begin

text \<open>After any series of replacements an item has the fingerprints of its last one.\<close>

lemma look_last:
  "look (fold (\<lambda>(k, fs). replace k fs) polls w) k =
     (case map_of (rev polls) k of None \<Rightarrow> look w k | Some fs \<Rightarrow> set fs)"
proof (induction polls arbitrary: w)
  case (Cons poll polls)
  obtain k' fs' where poll: "poll = (k', fs')" by fastforce
  show ?case
    using Cons.IH [of "replace k' fs' w"] look_same [of k' fs' w] look_other [of k k' fs' w]
    by (auto simp: poll map_add_def split: option.split)
qed simp

end

definition seen_set :: "world \<Rightarrow> int \<Rightarrow> string set" where
  "seen_set w aoid = seen_fingerprint ` set (filter (\<lambda>r. seen_aoid r = aoid) (seen w))"

definition replace_seen :: "int \<Rightarrow> string list \<Rightarrow> world \<Rightarrow> world" where
  "replace_seen aoid fingerprints w =
     w\<lparr>seen := fold (insert_seen aoid) fingerprints (delete_where (\<lambda>r. seen_aoid r = aoid) (seen w))\<rparr>"

lemma replace_seen_run:
  "replace_seen_fingerprints aoid fps w =
     (if int8 aoid then (Inr (), replace_seen aoid fps w) else (Inl Data_Error, w))"
  by (simp add: replace_seen_fingerprints_def replace_seen_def with_params_def)

lemma insert_seen_set:
  "set (insert_seen aoid fp rows) = insert \<lparr>seen_aoid = aoid, seen_fingerprint = fp\<rparr> (set rows)"
proof (cases "row_with seen_key (aoid, fp) rows")
  case None
  then show ?thesis by (simp add: insert_seen_def upsert_def seen_key_def)
next
  case (Some r)
  then have "r \<in> set rows" "r = \<lparr>seen_aoid = aoid, seen_fingerprint = fp\<rparr>"
    using row_with_Some [OF Some] by (auto simp: seen_key_def)
  with Some show ?thesis
    by (auto simp: insert_seen_def upsert_def seen_key_def update_where_def)
qed

lemma fold_insert_seen:
  "set (fold (insert_seen aoid) fps rows) =
     (\<lambda>fp. \<lparr>seen_aoid = aoid, seen_fingerprint = fp\<rparr>) ` set fps \<union> set rows"
  by (induction fps arbitrary: rows) (auto simp: insert_seen_set)

lemma seen_set_iff: "fp \<in> seen_set w aoid \<longleftrightarrow> \<lparr>seen_aoid = aoid, seen_fingerprint = fp\<rparr> \<in> set (seen w)"
proof
  assume "fp \<in> seen_set w aoid"
  then obtain r where r: "r \<in> set (seen w)" "seen_aoid r = aoid" "seen_fingerprint r = fp"
    by (auto simp: seen_set_def)
  then have "r = \<lparr>seen_aoid = aoid, seen_fingerprint = fp\<rparr>" by simp
  with r show "\<lparr>seen_aoid = aoid, seen_fingerprint = fp\<rparr> \<in> set (seen w)" by simp
qed (force simp: seen_set_def)

interpretation seen: seen_store seen_set replace_seen
proof
  fix k k' fs w
  show "seen_set (replace_seen k fs w) k = set fs"
    by (rule set_eqI) (auto simp: seen_set_iff replace_seen_def fold_insert_seen)
  show "k' \<noteq> k \<Longrightarrow> seen_set (replace_seen k fs w) k' = seen_set w k'"
    by (rule set_eqI) (auto simp: seen_set_iff replace_seen_def fold_insert_seen)
qed

end
