(* ===== verification/Settings.thy ===== *)
theory Settings
  imports Db
begin

text \<open>
  \<open>db/settings_repo.py\<close>: runtime settings as rows of text with a type tag.

  A setting value is a Python \<open>bool\<close>, \<open>int\<close>, \<open>float\<close> or \<open>str\<close>. A float is represented by the
  text \<open>repr\<close> gives for it. Rows of type float are outside what the program creates: the
  defaults have none and \<open>set\<close> never changes the type of a row (\<open>set_value_types\<close>).

  The store is described to its clients by the locale \<open>setting_store\<close>: reading changes
  nothing, a value of the type of the row is read back as written, and other keys keep theirs.
\<close>

section \<open>Values\<close>

datatype setting_value = SBool bool | SInt int | SFloat string | SStr string

definition truthy :: "setting_value \<Rightarrow> bool" where
  "truthy v = (case v of
      SBool b \<Rightarrow> b
    | SInt n \<Rightarrow> n \<noteq> 0
    | SFloat s \<Rightarrow> s \<noteq> ''0.0'' \<and> s \<noteq> ''-0.0''
    | SStr s \<Rightarrow> s \<noteq> [])"

text \<open>\<open>str(value)\<close> and \<open>int(text)\<close>, both limited to 4300 digits.\<close>

definition digits_limit :: nat where "digits_limit = 4300"

definition str_of_int :: "int \<Rightarrow> exn + string" where
  "str_of_int n =
     (if digits_limit < length (nat_str (nat \<bar>n\<bar>))
      then Inl (Value_Error (''Exceeds the limit (4300 digits) for integer string conversion; ''
        @ ''use sys.set_int_max_str_digits() to increase the limit''))
      else Inr (int_str n))"

definition py_str :: "setting_value \<Rightarrow> exn + string" where
  "py_str v = (case v of
      SBool b \<Rightarrow> Inr (if b then ''True'' else ''False'')
    | SInt n \<Rightarrow> str_of_int n
    | SFloat s \<Rightarrow> Inr s
    | SStr s \<Rightarrow> Inr s)"

text \<open>Digits with single underscores between them; the flag says whether a digit came last.\<close>

fun digit_groups :: "bool \<Rightarrow> string \<Rightarrow> string option" where
  "digit_groups b [] = (if b then Some [] else None)"
| "digit_groups b (c # cs) =
     (if is_digit c then map_option ((#) c) (digit_groups True cs)
      else if c = CHR ''_'' \<and> b then digit_groups False cs
      else None)"

definition split_sign :: "string \<Rightarrow> bool \<times> string" where
  "split_sign s =
     (case s of
        [] \<Rightarrow> (False, [])
      | c # cs \<Rightarrow> if c = CHR ''-'' then (True, cs) else if c = CHR ''+'' then (False, cs) else (False, s))"

definition int_of_text :: "string \<Rightarrow> exn + int" where
  "int_of_text s =
     (case split_sign (strip s) of (neg, t) \<Rightarrow>
      (case digit_groups False t of
         None \<Rightarrow> Inl (Value_Error (''invalid literal for int() with base 10: '' @ py_repr s))
       | Some ds \<Rightarrow>
           if digits_limit < length ds
           then Inl (Value_Error (''Exceeds the limit (4300 digits) for integer string conversion: value has ''
             @ nat_str (length ds) @ '' digits; use sys.set_int_max_str_digits() to increase the limit''))
           else Inr (if neg then - int (digits_val ds) else int (digits_val ds))))"

definition serialize :: "setting_value \<Rightarrow> value_type \<Rightarrow> exn + string" where
  "serialize value value_type =
     (if value_type = VBool then Inr (if truthy value then ''true'' else ''false'')
      else py_str value)"

definition deserialize :: "string \<Rightarrow> value_type \<Rightarrow> exn + setting_value" where
  "deserialize value value_type =
     (case value_type of
        VBool \<Rightarrow> Inr (SBool (value = ''true''))
      | VInt \<Rightarrow> ebind (int_of_text value) (\<lambda>n. Inr (SInt n))
      | VFloat \<Rightarrow> Inr (SFloat value)
      | VStr \<Rightarrow> Inr (SStr value))"

section \<open>Defaults\<close>

definition DEFAULT_SETTINGS :: "(string \<times> setting_value \<times> value_type) list" where
  "DEFAULT_SETTINGS =
    [(''Enabled'', SBool False, VBool),
     (''ApiUrl'', SStr ''https://gmi.nadybot.org'', VStr),
     (''PollIntervalMinutes'', SInt 30, VInt),
     (''HistoryRetentionDays'', SInt 90, VInt),
     (''WatchExpireDays'', SInt 30, VInt),
     (''PollBatchSize'', SInt 25, VInt),
     (''AutoTrackEnabled'', SBool True, VBool),
     (''AutoTrackCount'', SInt 100, VInt),
     (''AutoTrackIntervalMinutes'', SInt 60, VInt),
     (''AutoTrackSourceUrl'', SStr ''https://ao-stonks.com'', VStr),
     (''AutoTrackLastSync'', SInt 0, VInt),
     (''MaxSubscriptionsPerPlayer'', SInt 25, VInt),
     (''LogToPrivateChannel'', SBool False, VBool),
     (''LogBackgroundToPrivateChannel'', SBool False, VBool)]"

section \<open>Repository\<close>

definition new_setting :: "string \<Rightarrow> string \<Rightarrow> value_type \<Rightarrow> int \<Rightarrow> setting_row" where
  "new_setting key text vt now =
     \<lparr>set_key = key, set_value = text, set_value_type = vt, set_updated_at = now\<rparr>"

definition seed_defaults :: "(world, unit) eff" where
  "seed_defaults = for_each DEFAULT_SETTINGS (\<lambda>(key, value, value_type).
     bnd (lift (serialize value value_type)) (\<lambda>text.
     modify (\<lambda>w. w\<lparr>settings := upsert set_key (new_setting key text value_type (clock w)) (\<lambda>r. r)
       (settings w)\<rparr>)))"

definition get_row :: "string \<Rightarrow> (world, setting_row) eff" where
  "get_row key = bnd (gets (\<lambda>w. row_with set_key key (settings w))) (\<lambda>row.
     case row of None \<Rightarrow> raise (Unknown_Setting key) | Some r \<Rightarrow> ret r)"

definition setting_get :: "string \<Rightarrow> (world, setting_value) eff" where
  "setting_get key = bnd (get_row key) (\<lambda>row. lift (deserialize (set_value row) (set_value_type row)))"

definition get_bool :: "string \<Rightarrow> (world, bool) eff" where
  "get_bool key = bnd (setting_get key) (\<lambda>value.
     case value of SBool b \<Rightarrow> ret b | _ \<Rightarrow> raise Assertion_Error)"

definition get_int :: "string \<Rightarrow> (world, int) eff" where
  "get_int key = bnd (setting_get key) (\<lambda>value.
     case value of SInt n \<Rightarrow> ret n | _ \<Rightarrow> raise Assertion_Error)"

definition get_str :: "string \<Rightarrow> (world, string) eff" where
  "get_str key = bnd (setting_get key) (\<lambda>value.
     case value of SStr s \<Rightarrow> ret s | _ \<Rightarrow> raise Assertion_Error)"

definition setting_set :: "string \<Rightarrow> setting_value \<Rightarrow> (world, unit) eff" where
  "setting_set key value =
     bnd (get_row key) (\<lambda>row.
     bnd (lift (serialize value (set_value_type row))) (\<lambda>text.
     modify (\<lambda>w. w\<lparr>settings := update_where (\<lambda>r. set_key r = key)
       (\<lambda>r. r\<lparr>set_value := text, set_updated_at := clock w\<rparr>) (settings w)\<rparr>)))"

fun deserialize_all :: "setting_row list \<Rightarrow> exn + (string \<times> setting_value) list" where
  "deserialize_all [] = Inr []"
| "deserialize_all (r # rs) =
     ebind (deserialize (set_value r) (set_value_type r)) (\<lambda>v.
     ebind (deserialize_all rs) (\<lambda>vs. Inr ((set_key r, v) # vs)))"

definition setting_all :: "(world, (string \<times> setting_value) list) eff" where
  "setting_all = bnd (gets (\<lambda>w. deserialize_all (settings w))) lift"

section \<open>Numbers are read back\<close>

lemma digit_groups_digits: "list_all is_digit s \<Longrightarrow> digit_groups b s = (if s = [] \<and> \<not> b then None else Some s)"
  by (induction s arbitrary: b) auto

lemma code_minus: "ordc CHR ''-'' = 45" "ordc CHR ''+'' = 43"
  by (simp_all add: ordc_def)

lemma hd_nat_str: "is_digit (hd (nat_str n))" "is_digit (last (nat_str n))"
  using nat_str_digits [of n] by (simp_all add: list_all_iff)

lemma split_sign_nat_str: "split_sign (nat_str n) = (False, nat_str n)"
  using hd_nat_str(1) [of n] code_minus
  by (cases "nat_str n") (auto simp: split_sign_def is_digit_def)

lemma strip_int_str: "strip (int_str n) = int_str n"
proof -
  have "\<not> is_space CHR ''-''" by (simp add: is_space_def code_minus)
  moreover have "\<not> is_space (hd (nat_str k))" "\<not> is_space (last (nat_str k))" for k
    using hd_nat_str is_digit_not_space by blast+
  ultimately show ?thesis by (intro strip_id) (auto simp: int_str_def)
qed

lemma int_of_text_str:
  assumes len: "length (nat_str (nat \<bar>n\<bar>)) \<le> digits_limit"
  shows "int_of_text (int_str n) = Inr n"
proof -
  show ?thesis
  proof (cases "n < 0")
    case True
    then have "split_sign (int_str n) = (True, nat_str (nat \<bar>n\<bar>))"
      by (simp add: int_str_def split_sign_def)
    with True len show ?thesis
      by (simp add: int_of_text_def strip_int_str digit_groups_digits nat_str_digits)
  next
    case False
    then have "split_sign (int_str n) = (False, nat_str (nat \<bar>n\<bar>))"
      by (simp add: int_str_def split_sign_nat_str)
    with False len show ?thesis
      by (simp add: int_of_text_def strip_int_str digit_groups_digits nat_str_digits)
  qed
qed

section \<open>The store\<close>

text \<open>A value fits a row when it has the type of the row.\<close>

definition has_type :: "setting_value \<Rightarrow> value_type \<Rightarrow> bool" where
  "has_type v vt = (case v of
      SBool _ \<Rightarrow> vt = VBool
    | SInt n \<Rightarrow> vt = VInt \<and> length (nat_str (nat \<bar>n\<bar>)) \<le> digits_limit
    | SFloat _ \<Rightarrow> vt = VFloat
    | SStr _ \<Rightarrow> vt = VStr)"

definition setting_type :: "world \<Rightarrow> string \<Rightarrow> value_type option" where
  "setting_type w key = map_option set_value_type (row_with set_key key (settings w))"

definition fits :: "world \<Rightarrow> string \<Rightarrow> setting_value \<Rightarrow> bool" where
  "fits w key v \<longleftrightarrow> (\<exists>vt. setting_type w key = Some vt \<and> has_type v vt)"

lemma serialize_round: "has_type v vt \<Longrightarrow> \<exists>s. serialize v vt = Inr s \<and> deserialize s vt = Inr v"
  by (cases v) (auto simp: has_type_def serialize_def deserialize_def py_str_def truthy_def
      str_of_int_def int_of_text_str)

lemma get_row_simp:
  "get_row key w = (case row_with set_key key (settings w) of
     None \<Rightarrow> (Inl (Unknown_Setting key), w) | Some r \<Rightarrow> (Inr r, w))"
  by (simp add: get_row_def split: option.split)

lemma setting_get_simp:
  "setting_get key w = (case row_with set_key key (settings w) of
     None \<Rightarrow> (Inl (Unknown_Setting key), w)
   | Some r \<Rightarrow> (deserialize (set_value r) (set_value_type r), w))"
  by (simp add: setting_get_def bnd_def get_row_simp split: option.split)

lemma setting_set_simp:
  "setting_set key value w = (case row_with set_key key (settings w) of
     None \<Rightarrow> (Inl (Unknown_Setting key), w)
   | Some r \<Rightarrow> (case serialize value (set_value_type r) of
        Inl e \<Rightarrow> (Inl e, w)
      | Inr text \<Rightarrow> (Inr (), w\<lparr>settings := update_where (\<lambda>r. set_key r = key)
          (\<lambda>r. r\<lparr>set_value := text, set_updated_at := clock w\<rparr>) (settings w)\<rparr>)))"
  by (simp add: setting_set_def bnd_def get_row_simp split: option.split sum.split)

locale setting_store =
  fixes get :: "'k \<Rightarrow> ('w, 'v) eff"
    and put :: "'k \<Rightarrow> 'v \<Rightarrow> ('w, unit) eff"
    and accepts :: "'w \<Rightarrow> 'k \<Rightarrow> 'v \<Rightarrow> bool"
  assumes get_pure: "snd (get k w) = w"
    and put_total: "accepts w k v \<Longrightarrow> fst (put k v w) = Inr ()"
    and put_same: "accepts w k v \<Longrightarrow> fst (get k (snd (put k v w))) = Inr v"
    and put_other: "k' \<noteq> k \<Longrightarrow> fst (get k' (snd (put k v w))) = fst (get k' w)"
    and put_accepts: "accepts (snd (put k v w)) k' v' \<longleftrightarrow> accepts w k' v'"
begin

text \<open>A series of writes: every key reads back the last value written to it.\<close>

lemma puts_run:
  "\<forall>(k, v) \<in> set kvs. accepts w k v \<Longrightarrow> fst (for_each kvs (\<lambda>(k, v). put k v) w) = Inr ()"
proof (induction kvs arbitrary: w)
  case (Cons kv kvs)
  obtain k v where kv: "kv = (k, v)" by fastforce
  with Cons.prems have "put k v w = (Inr (), snd (put k v w))"
    using put_total [of w k v] by (simp add: prod_eq_iff)
  with Cons kv show ?case by (simp add: bnd_apply(1) put_accepts)
qed simp

lemma puts_get:
  "\<forall>(k, v) \<in> set kvs. accepts w k v \<Longrightarrow>
   fst (get k (snd (for_each kvs (\<lambda>(k, v). put k v) w))) =
     (case map_of (rev kvs) k of None \<Rightarrow> fst (get k w) | Some v \<Rightarrow> Inr v)"
proof (induction kvs arbitrary: w)
  case (Cons kv kvs)
  obtain k' v' where kv: "kv = (k', v')" by fastforce
  with Cons.prems have "put k' v' w = (Inr (), snd (put k' v' w))"
    using put_total [of w k' v'] by (simp add: prod_eq_iff)
  moreover have "accepts w k' v'" using Cons.prems kv by simp
  ultimately show ?case
    using Cons kv put_same [of w k' v'] put_other [of k k' v' w]
    by (cases "k = k'") (auto simp: bnd_apply(1) put_accepts map_add_def split: option.split)
qed simp

end

lemma settings_update_row:
  "row_with set_key k (update_where (\<lambda>r. set_key r = key) (\<lambda>r. r\<lparr>set_value := t, set_updated_at := n\<rparr>) rows) =
   map_option (\<lambda>r. if set_key r = key then r\<lparr>set_value := t, set_updated_at := n\<rparr> else r) (row_with set_key k rows)"
  by (rule row_with_update) simp

lemma setting_type_set: "setting_type (snd (setting_set k v w)) k' = setting_type w k'"
  by (auto simp: setting_type_def setting_set_simp settings_update_row option.map_comp comp_def
      split: option.split sum.split intro!: option.map_cong)

interpretation store: setting_store setting_get setting_set fits
proof
  fix k k' v v' w
  show "snd (setting_get k w) = w"
    by (simp add: setting_get_simp split: option.split)
  show "fits (snd (setting_set k v w)) k' v' \<longleftrightarrow> fits w k' v'"
    by (simp add: fits_def setting_type_set)
  show "fst (setting_set k v w) = Inr ()" if "fits w k v"
    using that serialize_round by (fastforce simp: fits_def setting_type_def setting_set_simp)
  show "fst (setting_get k (snd (setting_set k v w))) = Inr v" if typed: "fits w k v"
  proof -
    obtain r where r: "row_with set_key k (settings w) = Some r" "has_type v (set_value_type r)"
      using typed unfolding fits_def setting_type_def by auto
    with serialize_round [OF r(2)] row_with_Some [OF r(1)] show ?thesis
      by (auto simp: setting_set_simp setting_get_simp settings_update_row)
  qed
  show "fst (setting_get k' (snd (setting_set k v w))) = fst (setting_get k' w)" if "k' \<noteq> k"
    using that
    by (auto simp: setting_set_simp setting_get_simp settings_update_row dest: row_with_Some
        split: option.split sum.split)
qed


section \<open>Invariants\<close>

lemma settings_read_only [keeps]:
  "keeping I (get_row key)"
  "keeping I (setting_get key)"
  "keeping I (get_bool key)"
  "keeping I (get_int key)"
  "keeping I (get_str key)"
  "keeping I setting_all"
  by (auto intro!: keeps simp: get_row_def setting_get_def get_bool_def get_int_def get_str_def
      setting_all_def split: setting_value.split)

lemma settings_update_ok:
  "db_ok w \<Longrightarrow> db_ok (w\<lparr>settings := update_where P (\<lambda>r. r\<lparr>set_value := t, set_updated_at := n\<rparr>) (settings w)\<rparr>)"
  by (simp add: db_defs table_rules)

lemma setting_set_ok [keeps]: "keeping db_ok (setting_set key value)"
  unfolding setting_set_def by (auto intro!: keeps keeping_modify settings_update_ok)

lemma seed_defaults_ok [keeps]: "keeping db_ok seed_defaults"
  unfolding seed_defaults_def
  by (auto intro!: keeps keeping_modify simp: db_defs table_rules)

section \<open>Seeding\<close>

definition seed_one :: "string \<times> setting_value \<times> value_type \<Rightarrow> (world, unit) eff" where
  "seed_one = (\<lambda>(key, value, value_type).
     bnd (lift (serialize value value_type)) (\<lambda>text.
     modify (\<lambda>w. w\<lparr>settings := upsert set_key (new_setting key text value_type (clock w)) (\<lambda>r. r)
       (settings w)\<rparr>)))"

lemma seed_defaults_alt: "seed_defaults = for_each DEFAULT_SETTINGS seed_one"
  by (simp add: seed_defaults_def seed_one_def)

lemma seed_one_run:
  assumes "has_type v vt"
  shows "\<exists>s. deserialize s vt = Inr v \<and> seed_one (k, v, vt) w =
    (Inr (), w\<lparr>settings := upsert set_key (new_setting k s vt (clock w)) (\<lambda>r. r) (settings w)\<rparr>)"
  using serialize_round [OF assms] by (auto simp: seed_one_def bnd_def)

lemma seed_one_row:
  assumes "has_type v vt"
  shows "fst (seed_one (k, v, vt) w) = Inr ()"
    and "row_with set_key k' (settings (snd (seed_one (k, v, vt) w))) = row_with set_key k' (settings w)
      \<or> k' = k \<and> row_with set_key k (settings w) = None"
    and "setting_get k (snd (seed_one (k, v, vt) w)) = (Inr v, snd (seed_one (k, v, vt) w))
      \<or> row_with set_key k (settings w) \<noteq> None"
  using seed_one_run [OF assms, of k w]
  by (auto simp: row_with_upsert setting_get_simp new_setting_def split: option.splits if_splits)

text \<open>Seeding leaves a key that is present alone and gives every missing one its default.\<close>

lemma seed_list:
  assumes "\<forall>(k, v, vt) \<in> set ds. has_type v vt" and "distinct (map fst ds)"
  shows "fst (for_each ds seed_one w) = Inr ()
    \<and> (\<forall>k. row_with set_key k (settings w) \<noteq> None \<or> k \<notin> fst ` set ds \<longrightarrow>
         row_with set_key k (settings (snd (for_each ds seed_one w))) = row_with set_key k (settings w))
    \<and> (\<forall>(k, v, vt) \<in> set ds. row_with set_key k (settings w) = None \<longrightarrow>
         fst (setting_get k (snd (for_each ds seed_one w))) = Inr v)"
  using assms
proof (induction ds arbitrary: w)
  case (Cons d ds)
  obtain k v vt where d: "d = (k, v, vt)" by (cases d) auto
  have v: "has_type v vt" using Cons.prems d by simp
  define w' where "w' = snd (seed_one d w)"
  have run: "for_each (d # ds) seed_one w = for_each ds seed_one w'"
  proof -
    have "seed_one d w = (Inr (), w')"
      using seed_one_row(1) [OF v, of k w] unfolding w'_def d by (intro prod_eqI) simp_all
    then show ?thesis by (simp add: bnd_apply(1))
  qed
  have rows: "row_with set_key k' (settings w') = row_with set_key k' (settings w)
      \<or> k' = k \<and> row_with set_key k (settings w) = None" for k'
    using seed_one_row(2) [OF v, of k' k w] d by (simp add: w'_def)
  have new: "setting_get k w' = (Inr v, w') \<or> row_with set_key k (settings w) \<noteq> None"
    using seed_one_row(3) [OF v, of k w] d by (simp add: w'_def)
  have ds: "\<forall>(k, v, vt) \<in> set ds. has_type v vt" "distinct (map fst ds)" "k \<notin> fst ` set ds"
    using Cons.prems d by auto
  note IH = Cons.IH [OF ds(1,2), of w', folded run]
  show ?case
  proof (intro conjI)
    show "fst (for_each (d # ds) seed_one w) = Inr ()" using IH by simp
    show "\<forall>k'. row_with set_key k' (settings w) \<noteq> None \<or> k' \<notin> fst ` set (d # ds) \<longrightarrow>
         row_with set_key k' (settings (snd (for_each (d # ds) seed_one w))) = row_with set_key k' (settings w)"
    proof (intro allI impI)
      fix k' assume a: "row_with set_key k' (settings w) \<noteq> None \<or> k' \<notin> fst ` set (d # ds)"
      then have "row_with set_key k' (settings w') = row_with set_key k' (settings w)"
        using rows [of k'] d by auto
      with a IH d show "row_with set_key k' (settings (snd (for_each (d # ds) seed_one w)))
          = row_with set_key k' (settings w)" by auto
    qed
    show "\<forall>(k', v, vt) \<in> set (d # ds). row_with set_key k' (settings w) = None \<longrightarrow>
         fst (setting_get k' (snd (for_each (d # ds) seed_one w))) = Inr v"
    proof (clarify)
      fix k' v' vt' assume in_ds: "(k', v', vt') \<in> set (d # ds)" and none: "row_with set_key k' (settings w) = None"
      show "fst (setting_get k' (snd (for_each (d # ds) seed_one w))) = Inr v'"
      proof (cases "k' = k")
        case True
        then have "v' = v" using in_ds d ds(3) by force
        moreover have "row_with set_key k (settings (snd (for_each (d # ds) seed_one w)))
            = row_with set_key k (settings w')" using IH ds(3) by blast
        ultimately show ?thesis
          using new none True by (simp add: setting_get_simp split: option.splits)
      next
        case False
        then have "(k', v', vt') \<in> set ds" using in_ds d by auto
        moreover have "row_with set_key k' (settings w') = None" using rows [of k'] none False by auto
        ultimately show ?thesis using IH by fastforce
      qed
    qed
  qed
qed simp

lemma defaults_typed: "\<forall>(k, v, vt) \<in> set DEFAULT_SETTINGS. has_type v vt"
  "distinct (map fst DEFAULT_SETTINGS)"
  by code_simp+


section \<open>Properties\<close>

text \<open>C9. Settings are a map: after any series of writes of values of the right types, all of
  them succeed, every key written reads back the last value written to it, and every other key
  reads as before.\<close>

theorem settings_last_write_wins:
  assumes "\<forall>(key, value) \<in> set writes. fits w key value"
  defines "after \<equiv> for_each writes (\<lambda>(key, value). setting_set key value) w"
  shows "fst after = Inr ()
    \<and> fst (setting_get key (snd after))
      = (case map_of (rev writes) key of None \<Rightarrow> fst (setting_get key w) | Some value \<Rightarrow> Inr value)"
  unfolding after_def using store.puts_run store.puts_get assms(1) by blast

definition one_setting :: "string \<Rightarrow> string \<Rightarrow> value_type \<Rightarrow> world" where
  "one_setting key text vt = empty_world\<lparr>settings := [new_setting key text vt 0]\<rparr>"

theorem settings_last_write_wins_witness:
  "fst (setting_get ''PollBatchSize'' (snd (for_each [(''PollBatchSize'', SInt 7), (''PollBatchSize'', SInt 9)]
     (\<lambda>(key, value). setting_set key value) (one_setting ''PollBatchSize'' ''25'' VInt)))) = Inr (SInt 9)"
proof -
  have "length (nat_str 7) = 1" "length (nat_str 9) = 1" by code_simp+
  then have "fits (one_setting ''PollBatchSize'' ''25'' VInt) ''PollBatchSize'' (SInt n)" if "n \<in> {7, 9}" for n
    using that by (auto simp: fits_def setting_type_def one_setting_def new_setting_def row_with_def
        has_type_def digits_limit_def)
  then show ?thesis
    using settings_last_write_wins [of "[(''PollBatchSize'', SInt 7), (''PollBatchSize'', SInt 9)]"
        "one_setting ''PollBatchSize'' ''25'' VInt" "''PollBatchSize''"] by simp
qed


text \<open>Start-up seeding never fails, leaves every setting that has a row as it is, gives every
  missing default its value with its type, and invents no other key.\<close>

theorem seed_defaults_spec:
  "fst (seed_defaults w) = Inr ()
   \<and> fst (setting_get key (snd (seed_defaults w))) =
      (case row_with set_key key (settings w) of
         Some r \<Rightarrow> fst (setting_get key w)
       | None \<Rightarrow> (case map_of DEFAULT_SETTINGS key of
                    None \<Rightarrow> Inl (Unknown_Setting key)
                  | Some (value, value_type) \<Rightarrow> Inr value))"
proof (cases "row_with set_key key (settings w)")
  case (Some r)
  with seed_list [OF defaults_typed, of w] show ?thesis
    by (simp add: seed_defaults_alt setting_get_simp)
next
  case None
  show ?thesis
  proof (cases "map_of DEFAULT_SETTINGS key")
    case no: None
    then have "key \<notin> fst ` set DEFAULT_SETTINGS" by (simp add: map_of_eq_None_iff)
    with seed_list [OF defaults_typed, of w] None no show ?thesis
      by (simp add: seed_defaults_alt setting_get_simp)
  next
    case (Some vvt)
    then obtain v vt where "vvt = (v, vt)" "(key, v, vt) \<in> set DEFAULT_SETTINGS"
      by (cases vvt) (auto dest: map_of_SomeD)
    with seed_list [OF defaults_typed, of w] None Some show ?thesis
      by (fastforce simp: seed_defaults_alt)
  qed
qed

end
