(* ===== verification/Clients.thy ===== *)
theory Clients
  imports Parsing Settings
begin

text \<open>
  The HTTP clients: \<open>aodb/client.py\<close>, \<open>gmi/client.py\<close> and \<open>autotrack/scraper.py\<close>.

  The HTTP library is a parameter: \<open>Transport_Failed\<close> stands for any \<open>httpx.HTTPError\<close> of the transport,
  otherwise there is a status, a body (as text and, when it parses, as JSON) and headers. JSON
  values are what \<open>response.json()\<close> gives. The clients copy field values without looking at
  their types, so their results (\<open>raw_item\<close>, \<open>raw_orders\<close>) hold JSON values; the functions
  \<open>item_of\<close> and \<open>orders_of\<close> read them at the types the rest of the program declares.
\<close>

section \<open>Replies\<close>

datatype json =
    JNull
  | JBool bool
  | JInt int
  | JFloat string
  | JStr string
  | JArr "json list"
  | JObj "(string \<times> json) list"

record response =
  status_code :: int
  body_text :: string
  body_json :: "json option"
  total_count_header :: "string option"

datatype http_reply = Transport_Failed | Reply response

definition raise_for_status :: "response \<Rightarrow> exn + unit" where
  "raise_for_status r =
     (if 200 \<le> status_code r \<and> status_code r \<le> 299 then Inr () else Inl Http_Status_Error)"

definition response_json :: "response \<Rightarrow> exn + json" where
  "response_json r = (case body_json r of
     None \<Rightarrow> Inl (Value_Error ''invalid JSON'') | Some j \<Rightarrow> Inr j)"

definition transport :: "http_reply \<Rightarrow> exn + response" where
  "transport reply = (case reply of Transport_Failed \<Rightarrow> Inl Http_Status_Error | Reply r \<Rightarrow> Inr r)"

text \<open>\<open>data[key]\<close>, \<open>data.get(key)\<close> and \<open>for row in data\<close> on a JSON value.\<close>

definition subscript :: "json \<Rightarrow> string \<Rightarrow> exn + json" where
  "subscript data key =
     (case data of
        JObj kvs \<Rightarrow> (case map_of (rev kvs) key of None \<Rightarrow> Inl Key_Error | Some v \<Rightarrow> Inr v)
      | _ \<Rightarrow> Inl Type_Error)"

definition dict_get :: "json \<Rightarrow> string \<Rightarrow> json" where
  "dict_get data key = (case subscript data key of Inl _ \<Rightarrow> JNull | Inr v \<Rightarrow> v)"

definition elements :: "json \<Rightarrow> exn + json list" where
  "elements data =
     (case data of
        JArr xs \<Rightarrow> Inr xs
      | JObj kvs \<Rightarrow> Inr (map JStr (remdups (map fst kvs)))
      | JStr s \<Rightarrow> Inr (map (\<lambda>c. JStr [c]) s)
      | _ \<Rightarrow> Inl Type_Error)"

fun map_err :: "('a \<Rightarrow> exn + 'b) \<Rightarrow> 'a list \<Rightarrow> exn + 'b list" where
  "map_err f [] = Inr []"
| "map_err f (x # xs) = ebind (f x) (\<lambda>y. ebind (map_err f xs) (\<lambda>ys. Inr (y # ys)))"

text \<open>\<open>url.rstrip("/")\<close>.\<close>

definition rstrip_slash :: "string \<Rightarrow> string" where
  "rstrip_slash s = rev (dropWhile (\<lambda>c. c = CHR ''/'') (rev s))"

section \<open>Items\<close>

record raw_item =
  ri_aoid :: json
  ri_name :: json
  ri_ql :: json
  ri_icon :: json
  ri_description :: json

definition item_from_json :: "json \<Rightarrow> exn + raw_item" where
  "item_from_json data =
     ebind (subscript data ''id'') (\<lambda>aoid.
     ebind (subscript data ''name'') (\<lambda>name.
     ebind (subscript data ''ql'') (\<lambda>ql.
     Inr \<lparr>ri_aoid = aoid, ri_name = name, ri_ql = ql, ri_icon = dict_get data ''icon'',
          ri_description = dict_get data ''description''\<rparr>)))"

definition aodb_get_item :: "(string \<Rightarrow> http_reply) \<Rightarrow> string \<Rightarrow> int \<Rightarrow> exn + raw_item option" where
  "aodb_get_item http base_url aoid =
     ebind (transport (http (rstrip_slash base_url @ ''/api/items/'' @ int_str aoid))) (\<lambda>response.
     if status_code response = 404 then Inr None
     else ebind (raise_for_status response) (\<lambda>_.
          ebind (response_json response) (\<lambda>data.
          ebind (item_from_json data) (\<lambda>item. Inr (Some item)))))"

text \<open>The query parameters are part of the parameter \<open>http\<close>; the URL is the same for all.\<close>

definition aodb_search_items ::
  "(string \<Rightarrow> (string \<times> string) list \<Rightarrow> http_reply) \<Rightarrow> string \<Rightarrow> string \<Rightarrow> int option \<Rightarrow> int \<Rightarrow> int \<Rightarrow>
   exn + raw_item list \<times> int" where
  "aodb_search_items http base_url query ql limit offset =
     (let params = [(''q'', query), (''limit'', int_str limit), (''offset'', int_str offset)]
                   @ (case ql of None \<Rightarrow> [] | Some n \<Rightarrow> [(''ql'', int_str n)]) in
      ebind (transport (http (rstrip_slash base_url @ ''/api/items'') params)) (\<lambda>response.
      ebind (raise_for_status response) (\<lambda>_.
      ebind (response_json response) (\<lambda>data.
      ebind (elements data) (\<lambda>rows.
      ebind (map_err item_from_json rows) (\<lambda>items.
      ebind (case total_count_header response of
               None \<Rightarrow> Inr (int (length items)) | Some t \<Rightarrow> int_of_text t) (\<lambda>total_count.
      Inr (items, total_count))))))))"

section \<open>Orders\<close>

record raw_sell =
  rs_price :: json
  rs_ql :: json
  rs_count :: json
  rs_seller :: json

record raw_buy =
  rb_price :: json
  rb_min_ql :: json
  rb_max_ql :: json
  rb_count :: json
  rb_buyer :: json

record raw_orders =
  raw_sells :: "raw_sell list"
  raw_buys :: "raw_buy list"

definition sell_from_json :: "json \<Rightarrow> exn + raw_sell" where
  "sell_from_json row =
     ebind (subscript row ''price'') (\<lambda>price.
     ebind (subscript row ''ql'') (\<lambda>ql.
     ebind (subscript row ''count'') (\<lambda>count.
     ebind (subscript row ''seller'') (\<lambda>seller.
     Inr \<lparr>rs_price = price, rs_ql = ql, rs_count = count, rs_seller = seller\<rparr>))))"

definition buy_from_json :: "json \<Rightarrow> exn + raw_buy" where
  "buy_from_json row =
     ebind (subscript row ''price'') (\<lambda>price.
     ebind (subscript row ''min_ql'') (\<lambda>min_ql.
     ebind (subscript row ''max_ql'') (\<lambda>max_ql.
     ebind (subscript row ''count'') (\<lambda>count.
     ebind (subscript row ''buyer'') (\<lambda>buyer.
     Inr \<lparr>rb_price = price, rb_min_ql = min_ql, rb_max_ql = max_ql, rb_count = count,
          rb_buyer = buyer\<rparr>)))))"

definition orders_from_json :: "json \<Rightarrow> exn + raw_orders" where
  "orders_from_json data =
     ebind (subscript data ''sell_orders'') (\<lambda>sells.
     ebind (elements sells) (\<lambda>rows.
     ebind (map_err sell_from_json rows) (\<lambda>sell_orders.
     ebind (subscript data ''buy_orders'') (\<lambda>buys.
     ebind (elements buys) (\<lambda>rows.
     ebind (map_err buy_from_json rows) (\<lambda>buy_orders.
     Inr \<lparr>raw_sells = sell_orders, raw_buys = buy_orders\<rparr>))))))"

text \<open>The two \<open>except\<close> clauses.\<close>

definition fetch_errors :: "exn \<Rightarrow> bool" where
  "fetch_errors e = (case e of Http_Status_Error \<Rightarrow> True | Value_Error _ \<Rightarrow> True | _ \<Rightarrow> False)"

definition shape_errors :: "exn \<Rightarrow> bool" where
  "shape_errors e =
     (case e of Key_Error \<Rightarrow> True | Type_Error \<Rightarrow> True | Value_Error _ \<Rightarrow> True | _ \<Rightarrow> False)"

definition or_none :: "(exn \<Rightarrow> bool) \<Rightarrow> exn + 'a \<Rightarrow> exn + 'a option" where
  "or_none caught r = (case r of
     Inl e \<Rightarrow> if caught e then Inr None else Inl e | Inr x \<Rightarrow> Inr (Some x))"

definition gmi_get_orders :: "(string \<Rightarrow> http_reply) \<Rightarrow> string \<Rightarrow> int \<Rightarrow> exn + raw_orders option" where
  "gmi_get_orders http base_url aoid =
     ebind (or_none fetch_errors
        (ebind (transport (http (rstrip_slash base_url @ ''/v1.0/aoid/'' @ int_str aoid))) (\<lambda>response.
         ebind (raise_for_status response) (\<lambda>_. response_json response)))) (\<lambda>data.
     case data of None \<Rightarrow> Inr None | Some d \<Rightarrow> or_none shape_errors (orders_from_json d))"

section \<open>Ranking pages\<close>

definition ITEM_LINK_RE :: re where
  "ITEM_LINK_RE = Seq
     [Lit ''class=\"item-name\"'', Spaces, Lit ''href=\"/item/'', Grp 1 Digits, Lit ''\"'']"

definition extract_aoids :: "string \<Rightarrow> exn + int list" where
  "extract_aoids html = map_err py_int (findall ITEM_LINK_RE html)"

definition scraper_fetch_page :: "(string \<Rightarrow> http_reply) \<Rightarrow> string \<Rightarrow> int \<Rightarrow> exn + string option" where
  "scraper_fetch_page http source_url page =
     or_none (\<lambda>e. e = Http_Status_Error)
       (ebind (transport (http (rstrip_slash source_url @ ''/items/'' @ int_str page))) (\<lambda>response.
        ebind (raise_for_status response) (\<lambda>_. Inr (body_text response))))"

section \<open>The types the program declares\<close>

record item =
  it_aoid :: int
  it_name :: string
  it_ql :: int
  it_icon :: "int option"
  it_description :: "string option"

record sell_order =
  so_price :: int
  so_ql :: int
  so_count :: int
  so_seller :: string

record buy_order =
  bu_price :: int
  bu_min_ql :: int
  bu_max_ql :: int
  bu_count :: int
  bu_buyer :: string

record orders =
  sell_orders :: "sell_order list"
  buy_orders :: "buy_order list"


definition json_int :: "json \<Rightarrow> int option" where
  "json_int j = (case j of JInt n \<Rightarrow> Some n | _ \<Rightarrow> None)"

definition json_str :: "json \<Rightarrow> string option" where
  "json_str j = (case j of JStr s \<Rightarrow> Some s | _ \<Rightarrow> None)"

definition json_null_or :: "(json \<Rightarrow> 'a option) \<Rightarrow> json \<Rightarrow> 'a option option" where
  "json_null_or f j = (case j of JNull \<Rightarrow> Some None | _ \<Rightarrow> map_option Some (f j))"

definition item_of :: "raw_item \<Rightarrow> item option" where
  "item_of r =
     Option.bind (json_int (ri_aoid r)) (\<lambda>aoid.
     Option.bind (json_str (ri_name r)) (\<lambda>name.
     Option.bind (json_int (ri_ql r)) (\<lambda>ql.
     Option.bind (json_null_or json_int (ri_icon r)) (\<lambda>icon.
     Option.bind (json_null_or json_str (ri_description r)) (\<lambda>description.
     Some \<lparr>it_aoid = aoid, it_name = name, it_ql = ql, it_icon = icon,
           it_description = description\<rparr>)))))"

section \<open>Shapes\<close>

definition has_fields :: "string list \<Rightarrow> json \<Rightarrow> bool" where
  "has_fields names j \<longleftrightarrow>
     (case j of JObj kvs \<Rightarrow> list_all (\<lambda>n. n \<in> fst ` set kvs) names | _ \<Rightarrow> names = [])"

lemma map_of_rev_None: "map_of (rev kvs) key = None \<longleftrightarrow> key \<notin> fst ` set kvs"
  by (simp add: map_of_eq_None_iff)

lemma subscript_Inr: "(\<exists>v. subscript j key = Inr v) \<longleftrightarrow> has_fields [key] j"
proof (cases j)
  case (JObj kvs)
  then show ?thesis
    using map_of_rev_None [of kvs key]
    by (cases "map_of (rev kvs) key") (simp_all add: subscript_def has_fields_def)
qed (simp_all add: subscript_def has_fields_def)

lemma has_fields_Cons: "has_fields (n # ns) j \<longleftrightarrow> (\<exists>v. subscript j n = Inr v) \<and> (ns = [] \<or> has_fields ns j)"
  unfolding subscript_Inr by (cases j) (auto simp: has_fields_def)

lemma map_err_Inr: "(\<exists>ys. map_err f xs = Inr ys) \<longleftrightarrow> list_all (\<lambda>x. \<exists>y. f x = Inr y) xs"
  by (induction xs) (auto simp: ebind_Inr_iff)

lemma row_shapes:
  "(\<exists>o'. sell_from_json row = Inr o') \<longleftrightarrow> has_fields [''price'', ''ql'', ''count'', ''seller''] row"
  "(\<exists>o'. buy_from_json row = Inr o') \<longleftrightarrow>
     has_fields [''price'', ''min_ql'', ''max_ql'', ''count'', ''buyer''] row"
  "(\<exists>i. item_from_json row = Inr i) \<longleftrightarrow> has_fields [''id'', ''name'', ''ql''] row"
  by (auto simp: sell_from_json_def buy_from_json_def item_from_json_def has_fields_Cons ebind_Inr_iff)


text \<open>What a price feed must look like: an object with the two fields, each a list (or, as Python
  iterates over them too, an object or text) all of whose rows are objects with the order's fields.\<close>

definition rows_with :: "string list \<Rightarrow> json \<Rightarrow> bool" where
  "rows_with names j = (case elements j of Inl _ \<Rightarrow> False | Inr rows \<Rightarrow> list_all (has_fields names) rows)"

definition well_shaped :: "json \<Rightarrow> bool" where
  "well_shaped data \<longleftrightarrow>
     (case (subscript data ''sell_orders'', subscript data ''buy_orders'') of
        (Inr sells, Inr buys) \<Rightarrow>
          rows_with [''price'', ''ql'', ''count'', ''seller''] sells
          \<and> rows_with [''price'', ''min_ql'', ''max_ql'', ''count'', ''buyer''] buys
      | _ \<Rightarrow> False)"

lemma orders_from_json_shape: "(\<exists>x. orders_from_json data = Inr x) \<longleftrightarrow> well_shaped data"
proof -
  have rows: "(\<exists>ys. map_err f rows = Inr ys) \<longleftrightarrow> list_all (has_fields names) rows"
    if "\<And>row. (\<exists>y. f row = Inr y) \<longleftrightarrow> has_fields names row" for f :: "json \<Rightarrow> exn + 'b" and names rows
    using that by (simp add: map_err_Inr)
  show ?thesis
    unfolding orders_from_json_def well_shaped_def rows_with_def
      rows [OF row_shapes(1), symmetric] rows [OF row_shapes(2), symmetric]
    by (auto simp: ebind_Inr_iff split: sum.split)
qed

text \<open>The exceptions of the reading code are among those caught.\<close>

lemma subscript_errors: "subscript j k = Inl e \<Longrightarrow> shape_errors e"
  by (auto simp: subscript_def shape_errors_def split: json.splits option.splits)

lemma elements_errors: "elements j = Inl e \<Longrightarrow> shape_errors e"
  by (auto simp: elements_def shape_errors_def split: json.splits)

lemma ebind_errors:
  "ebind r f = Inl e \<Longrightarrow> (\<And>e. r = Inl e \<Longrightarrow> P e) \<Longrightarrow> (\<And>x e. f x = Inl e \<Longrightarrow> P e) \<Longrightarrow> P e"
  by (cases r) auto

lemma map_err_errors: "map_err f xs = Inl e \<Longrightarrow> (\<And>x e. f x = Inl e \<Longrightarrow> P e) \<Longrightarrow> P e"
proof (induction xs)
  case (Cons x xs)
  then show ?case by (cases "f x"; cases "map_err f xs") auto
qed simp

lemma row_errors:
  "sell_from_json row = Inl e \<Longrightarrow> shape_errors e"
  "buy_from_json row = Inl e \<Longrightarrow> shape_errors e"
  unfolding sell_from_json_def buy_from_json_def
  by (auto elim!: ebind_errors intro: subscript_errors)

lemma orders_errors: "orders_from_json data = Inl e \<Longrightarrow> shape_errors e"
  unfolding orders_from_json_def
  by (auto elim!: ebind_errors map_err_errors intro: subscript_errors elements_errors row_errors)

section \<open>Properties\<close>


end
