(* ===== verification/Py_Time.thy ===== *)
theory Py_Time
  imports Prelude
begin

text \<open>
  The part of \<open>datetime\<close> the program uses. Instants and durations are microseconds; a
  \<open>timedelta\<close> has at most 999999999 days either way and an aware UTC \<open>datetime\<close> lies in the
  years 1 to 9999. What is outside raises OverflowError.
\<close>

definition microseconds :: int where "microseconds = 1000000"
definition minute :: int where "minute = 60 * microseconds"
definition hour :: int where "hour = 60 * minute"
definition day :: int where "day = 24 * hour"

definition timedelta :: "int \<Rightarrow> exn + int" where
  "timedelta d = (if - 999999999 \<le> d div day \<and> d div day \<le> 999999999 then Inr d else Inl Overflow_Error)"

definition first_instant :: int where "first_instant = - 62135596800 * microseconds"
definition last_instant :: int where "last_instant = 253402300800 * microseconds - 1"

definition date_add :: "int \<Rightarrow> int \<Rightarrow> exn + int" where
  "date_add t d =
     (if first_instant \<le> t + d \<and> t + d \<le> last_instant then Inr (t + d) else Inl Overflow_Error)"

text \<open>\<open>now - timedelta(days=n)\<close> and \<open>now - timedelta(minutes=n)\<close>.\<close>

definition days_before :: "int \<Rightarrow> int \<Rightarrow> exn + int" where
  "days_before now n = ebind (timedelta (n * day)) (\<lambda>d. date_add now (- d))"

definition minutes_before :: "int \<Rightarrow> int \<Rightarrow> exn + int" where
  "minutes_before now n = ebind (timedelta (n * minute)) (\<lambda>d. date_add now (- d))"

text \<open>\<open>int(now.timestamp())\<close> after 1970.\<close>

definition epoch_seconds :: "int \<Rightarrow> int" where
  "epoch_seconds t = t div microseconds"

lemmas time_units = microseconds_def minute_def hour_def day_def

end
