(* ===== verification/Backoff.thy ===== *)
theory Backoff
  imports Db Py_Time
begin

text \<open>
  \<open>db/aodb_backoff_repo.py\<close>: the exponential backoff of item lookups that failed.

  \<open>next_retry_at\<close> multiplies the base delay by the power of two before it takes the minimum
  with the cap, so the product has to fit a \<open>timedelta\<close>. The counter of a stored row is at
  least 1 (\<open>backoff_ok\<close>), so the exponent is never negative.

  What the resync relies on is the locale \<open>lookup_backoff\<close>.
\<close>

definition BASE_DELAY :: int where "BASE_DELAY = hour"
definition MAX_DELAY :: int where "MAX_DELAY = 7 * day"

definition next_retry_at :: "int \<Rightarrow> int \<Rightarrow> exn + int" where
  "next_retry_at failure_count now =
     ebind (timedelta (BASE_DELAY * 2 ^ nat (failure_count - 1))) (\<lambda>product.
     date_add now (min product MAX_DELAY))"

text \<open>The sets of aoids are lists without repetitions.\<close>

definition due_for_retry :: "int list \<Rightarrow> (world, int list) eff" where
  "due_for_retry aoids =
     (if aoids = [] then ret []
      else with_params (list_all int8 aoids) (gets (\<lambda>w.
        let still_backed_off = map bo_aoid
              (filter (\<lambda>r. bo_aoid r \<in> set aoids \<and> clock w < bo_next_retry_at r) (backoffs w))
        in filter (\<lambda>a. a \<notin> set still_backed_off) aoids)))"

definition record_failure :: "int \<Rightarrow> (world, unit) eff" where
  "record_failure aoid =
     bnd (with_params (int8 aoid) (gets (\<lambda>w. row_with bo_aoid aoid (backoffs w)))) (\<lambda>existing.
     let failure_count = (case existing of Some r \<Rightarrow> bo_failure_count r | None \<Rightarrow> 0) + 1 in
     bnd (gets clock) (\<lambda>now.
     bnd (lift (next_retry_at failure_count now)) (\<lambda>retry.
     with_params (int4 failure_count) (modify (\<lambda>w. w\<lparr>backoffs := upsert bo_aoid
       \<lparr>bo_aoid = aoid, bo_failure_count = failure_count, bo_last_attempted_at = now,
        bo_next_retry_at = retry\<rparr>
       (\<lambda>r. r\<lparr>bo_failure_count := failure_count, bo_last_attempted_at := now,
             bo_next_retry_at := retry\<rparr>) (backoffs w)\<rparr>)))))"

definition record_success :: "int \<Rightarrow> (world, unit) eff" where
  "record_success aoid = with_params (int8 aoid) (modify (\<lambda>w.
     w\<lparr>backoffs := delete_where (\<lambda>r. bo_aoid r = aoid) (backoffs w)\<rparr>))"

section \<open>The delay\<close>

lemma next_retry_cases:
  assumes "1 \<le> n"
  shows "next_retry_at n now =
    (if n \<le> 35 then date_add now (if n \<le> 8 then hour * 2 ^ nat (n - 1) else 7 * day)
     else Inl Overflow_Error)"
proof -
  define k where "k = nat (n - 1)"
  have n: "n = int k + 1" using assms by (simp add: k_def)
  have div: "hour * 2 ^ k div day = 2 ^ k div (24 :: int)"
    by (simp add: time_units)
  have cap: "min (hour * 2 ^ k) (7 * day) = (if k \<le> 7 then hour * 2 ^ k else 7 * day)"
  proof (cases "k \<le> 7")
    case True
    then have "(2 :: int) ^ k \<le> 2 ^ 7" by (intro power_increasing) simp_all
    with True show ?thesis by (simp add: time_units min_def)
  next
    case False
    then have "(2 :: int) ^ 8 \<le> 2 ^ k" by (intro power_increasing) simp_all
    with False show ?thesis by (simp add: time_units min_def)
  qed
  have "2 ^ k div (24 :: int) \<le> 999999999 \<longleftrightarrow> k \<le> 34"
  proof (cases "k \<le> 34")
    case True
    then have "(2 :: int) ^ k \<le> 2 ^ 34" by (intro power_increasing) simp_all
    with True show ?thesis by simp
  next
    case False
    then have "(2 :: int) ^ 35 \<le> 2 ^ k" by (intro power_increasing) simp_all
    with False show ?thesis by simp
  qed
  moreover have "0 \<le> 2 ^ k div (24 :: int)" by (simp add: pos_imp_zdiv_nonneg_iff)
  ultimately show ?thesis
    unfolding next_retry_at_def timedelta_def BASE_DELAY_def MAX_DELAY_def k_def [symmetric] div
    by (auto simp: n cap)
qed

section \<open>The interface\<close>

locale lookup_backoff =
  fixes due :: "'k list \<Rightarrow> ('w, 'k list) eff"
    and failure :: "'k \<Rightarrow> ('w, unit) eff"
    and success :: "'k \<Rightarrow> ('w, unit) eff"
    and ready :: "'w \<Rightarrow> 'k \<Rightarrow> bool"
  assumes due_ready: "due ks w = (Inr ks', w') \<Longrightarrow> w' = w \<and> ks' = filter (ready w) ks"
    and failure_same: "failure k w = (Inr (), w') \<Longrightarrow> \<not> ready w' k"
    and failure_other: "failure k w = (r, w') \<Longrightarrow> k' \<noteq> k \<Longrightarrow> ready w' k' = ready w k'"
    and success_same: "success k w = (Inr (), w') \<Longrightarrow> ready w' k"
    and success_other: "success k w = (r, w') \<Longrightarrow> k' \<noteq> k \<Longrightarrow> ready w' k' = ready w k'"
begin

definition note_outcome :: "'k \<times> bool \<Rightarrow> ('w, unit) eff" where
  "note_outcome = (\<lambda>(k, found). if found then success k else failure k)"

lemma note_same: "note_outcome (k, found) w = (Inr (), w') \<Longrightarrow> ready w' k = found"
  by (auto simp: note_outcome_def dest: failure_same success_same split: if_splits)

lemma note_other: "note_outcome (k, found) w = (r, w') \<Longrightarrow> k' \<noteq> k \<Longrightarrow> ready w' k' = ready w k'"
  by (auto simp: note_outcome_def dest: failure_other success_other split: if_splits)

lemma outcomes_ready:
  assumes "distinct (map fst outcomes)" and "for_each outcomes note_outcome w = (Inr (), w')"
  shows "ready w' k = (case map_of outcomes k of None \<Rightarrow> ready w k | Some found \<Rightarrow> found)"
  using assms
proof (induction outcomes arbitrary: w)
  case (Cons ob os)
  obtain j found where ob: "ob = (j, found)" by fastforce
  from Cons.prems(2) ob obtain u where step: "note_outcome (j, found) w = (Inr (), u)"
    and rest: "for_each os note_outcome u = (Inr (), w')"
    by (auto simp: bnd_Inr_iff)
  have IH: "ready w' k = (case map_of os k of None \<Rightarrow> ready u k | Some found \<Rightarrow> found)"
    using Cons.IH [OF _ rest] Cons.prems(1) by simp
  show ?case
  proof (cases "k = j")
    case True
    then have "map_of os k = None" using Cons.prems(1) ob by (simp add: map_of_eq_None_iff)
    then show ?thesis using IH True ob note_same [OF step] by simp
  next
    case False
    then show ?thesis using IH ob note_other [OF step False] by (simp split: option.split)
  qed
qed simp

lemma outcomes_due:
  assumes "distinct (map fst outcomes)" and "for_each outcomes note_outcome w = (Inr (), w')"
    and "due ks w' = (Inr ks', w'')"
  shows "ks' = filter (\<lambda>k. case map_of outcomes k of None \<Rightarrow> ready w k | Some found \<Rightarrow> found) ks"
proof -
  have "ready w' = (\<lambda>k. case map_of outcomes k of None \<Rightarrow> ready w k | Some found \<Rightarrow> found)"
    using outcomes_ready [OF assms(1,2)] by (rule ext)
  with due_ready [OF assms(3)] show ?thesis by simp
qed

end

definition retry_due :: "world \<Rightarrow> int \<Rightarrow> bool" where
  "retry_due w aoid \<longleftrightarrow> list_all (\<lambda>r. bo_aoid r = aoid \<longrightarrow> bo_next_retry_at r \<le> clock w) (backoffs w)"

lemma next_retry_later: "next_retry_at n now = Inr t \<Longrightarrow> now < t"
  by (auto simp: next_retry_at_def ebind_Inr_iff date_add_def timedelta_def BASE_DELAY_def MAX_DELAY_def
      time_units min_def split: if_splits)

definition backoff_ok :: "world \<Rightarrow> bool" where
  "backoff_ok w \<longleftrightarrow> list_all (\<lambda>r. 1 \<le> bo_failure_count r) (backoffs w)"

lemma record_failure_Inr:
  assumes "record_failure aoid w = (Inr (), w')"
  defines "n \<equiv> (case row_with bo_aoid aoid (backoffs w) of Some r \<Rightarrow> bo_failure_count r | None \<Rightarrow> 0) + 1"
  shows "\<exists>t. next_retry_at n (clock w) = Inr t \<and> int8 aoid \<and> int4 n \<and> w' = w\<lparr>backoffs := upsert bo_aoid
       \<lparr>bo_aoid = aoid, bo_failure_count = n, bo_last_attempted_at = clock w, bo_next_retry_at = t\<rparr>
       (\<lambda>r. r\<lparr>bo_failure_count := n, bo_last_attempted_at := clock w, bo_next_retry_at := t\<rparr>)
       (backoffs w)\<rparr>"
  using assms(1) unfolding record_failure_def Let_def n_def
  by (auto simp: bnd_Inr_iff with_params_def split: if_splits)

lemma record_failure_Inl: "record_failure aoid w = (Inl e, w') \<Longrightarrow> w' = w"
  by (auto simp: record_failure_def Let_def bnd_def with_params_def split: if_splits sum.splits)


lemma ready_upsert:
  "list_all (\<lambda>r. bo_aoid r = a \<longrightarrow> bo_next_retry_at r \<le> c) (upsert bo_aoid
     \<lparr>bo_aoid = k, bo_failure_count = n, bo_last_attempted_at = c, bo_next_retry_at = t\<rparr>
     (\<lambda>r. r\<lparr>bo_failure_count := n, bo_last_attempted_at := c, bo_next_retry_at := t\<rparr>) rows) \<longleftrightarrow>
   (if a = k then t \<le> c else list_all (\<lambda>r. bo_aoid r = a \<longrightarrow> bo_next_retry_at r \<le> c) rows)"
proof (cases "row_with bo_aoid k rows = None")
  case True
  then show ?thesis by (auto simp: upsert_def list_all_iff row_with_None)
next
  case False
  then obtain r where "r \<in> set rows" "bo_aoid r = k" by (auto dest: row_with_Some)
  with False show ?thesis
    by (simp add: upsert_def list_all_update_where) (auto simp: list_all_iff)
qed

interpretation backoff: lookup_backoff due_for_retry record_failure record_success retry_due
proof
  fix k k' :: int and ks ks' w w' and r :: "exn + unit"
  show "w' = w \<and> ks' = filter (retry_due w) ks" if "due_for_retry ks w = (Inr ks', w')"
  proof -
    have "a \<notin> set (map bo_aoid (filter (\<lambda>r. bo_aoid r \<in> set ks \<and> clock w < bo_next_retry_at r) (backoffs w)))
        \<longleftrightarrow> retry_due w a" if "a \<in> set ks" for a
      using that by (auto simp: retry_due_def list_all_iff not_less)
    then show ?thesis
      using that by (auto simp: due_for_retry_def with_params_def Let_def split: if_splits
          intro!: filter_cong)
  qed
  show "\<not> retry_due w' k" if run: "record_failure k w = (Inr (), w')"
    using record_failure_Inr [OF run] by (auto simp: retry_due_def ready_upsert dest: next_retry_later)
  show "retry_due w' k' = retry_due w k'" if run: "record_failure k w = (r, w')" and "k' \<noteq> k"
  proof (cases r)
    case (Inl e)
    then show ?thesis using run record_failure_Inl by blast
  next
    case (Inr u)
    then show ?thesis
      using record_failure_Inr [of k w w'] run that(2) by (auto simp: retry_due_def ready_upsert)
  qed
  show "retry_due w' k" if "record_success k w = (Inr (), w')"
    using that by (auto simp: record_success_def with_params_def retry_due_def list_all_iff split: if_splits)
  show "retry_due w' k' = retry_due w k'" if "record_success k w = (r, w')" and "k' \<noteq> k"
    using that by (auto simp: record_success_def with_params_def retry_due_def list_all_iff split: if_splits)
qed

section \<open>Invariants\<close>

lemma due_for_retry_keeps [keeps]: "keeping I (due_for_retry aoids)"
  by (auto intro!: keeps simp: due_for_retry_def)

lemma backoff_upsert_ok:
  "db_ok w \<Longrightarrow> int8 a \<Longrightarrow> int4 n \<Longrightarrow> db_ok (w\<lparr>backoffs := upsert bo_aoid
     \<lparr>bo_aoid = a, bo_failure_count = n, bo_last_attempted_at = c, bo_next_retry_at = t\<rparr>
     (\<lambda>r. r\<lparr>bo_failure_count := n, bo_last_attempted_at := c, bo_next_retry_at := t\<rparr>) (backoffs w)\<rparr>)"
proof -
  assume a: "db_ok w" "int8 a" "int4 n"
  then have "backoff_fits r \<Longrightarrow> backoff_fits (r\<lparr>bo_failure_count := n, bo_last_attempted_at := c,
      bo_next_retry_at := t\<rparr>)" for r
    by (simp add: backoff_fits_def)
  moreover have "backoff_fits \<lparr>bo_aoid = a, bo_failure_count = n, bo_last_attempted_at = c, bo_next_retry_at = t\<rparr>"
    using a by (simp add: backoff_fits_def)
  ultimately show ?thesis using a by (simp add: db_defs table_rules)
qed

lemma record_failure_ok [keeps]: "keeping db_ok (record_failure aoid)"
proof (rule keepingI)
  fix w assume ok: "db_ok w"
  obtain r w' where run: "record_failure aoid w = (r, w')" by fastforce
  show "db_ok (snd (record_failure aoid w))"
  proof (cases r)
    case (Inl e)
    then show ?thesis using run record_failure_Inl ok by fastforce
  next
    case (Inr u)
    then show ?thesis using run record_failure_Inr [of aoid w w'] ok by (auto intro: backoff_upsert_ok)
  qed
qed

lemma record_success_ok [keeps]: "keeping db_ok (record_success aoid)"
  by (rule keepingI) (simp add: record_success_def with_params_def db_defs table_rules)

section \<open>Properties\<close>

text \<open>C11. The n-th failure in a row schedules the next lookup 1, 2, 4, ... hours later, doubling up
  to 128 hours at the eighth, and seven days later from the ninth to the thirty-fifth. From the
  thirty-sixth on nothing is scheduled: the product is formed before the cap is applied, it no
  longer fits a \<open>timedelta\<close>, and OverflowError is raised.\<close>

theorem next_retry_at_spec:
  assumes "1 \<le> failure_count"
  shows "next_retry_at failure_count now =
    (if failure_count \<le> 8 then date_add now (hour * 2 ^ nat (failure_count - 1))
     else if failure_count \<le> 35 then date_add now (7 * day)
     else Inl Overflow_Error)"
  using next_retry_cases [OF assms, of now] by simp

theorem next_retry_at_spec_witness: "next_retry_at 36 0 = Inl Overflow_Error"
  using next_retry_at_spec [of 36 0] by simp

text \<open>C12. After any run of lookups of different items whose outcomes were all recorded, the items
  due are exactly those whose lookup succeeded and those not looked up that were due before: a
  failed item is held back for a while, a found one is not, and no item's outcome affects another.\<close>

theorem outcomes_decide_due:
  assumes "distinct (map fst outcomes)"
    and "for_each outcomes (\<lambda>(aoid, found). if found then record_success aoid else record_failure aoid) w
      = (Inr (), w')"
    and "due_for_retry aoids w' = (Inr due, w'')"
  shows "due = filter (\<lambda>aoid. case map_of outcomes aoid of
      None \<Rightarrow> retry_due w aoid | Some found \<Rightarrow> found) aoids"
  using backoff.outcomes_due [of outcomes w w' aoids due w''] assms
  unfolding backoff.note_outcome_def by blast

theorem outcomes_decide_due_witness:
  "fst (due_for_retry [5, 6, 7] (snd (for_each [(5, False), (6, True)]
     (\<lambda>(aoid, found). if found then record_success aoid else record_failure aoid) empty_world))) = Inr [6, 7]"
proof -
  let ?run = "for_each [(5, False), (6, True)]
     (\<lambda>(aoid, found). if found then record_success aoid else record_failure aoid) empty_world"
  have "fst ?run = Inr ()" by code_simp
  then have 1: "?run = (Inr (), snd ?run)" by (simp add: prod_eq_iff)
  have "isl (fst (due_for_retry [5, 6, 7] (snd ?run))) = False" by code_simp
  then obtain due where due: "fst (due_for_retry [5, 6, 7] (snd ?run)) = Inr due"
    by (cases "fst (due_for_retry [5, 6, 7] (snd ?run))") auto
  then have 2: "due_for_retry [5, 6, 7] (snd ?run)
      = (Inr due, snd (due_for_retry [5, 6, 7] (snd ?run)))" by (simp add: prod_eq_iff)
  have "retry_due empty_world 7" by (simp add: retry_due_def empty_world_def)
  with outcomes_decide_due [OF _ 1 2] have "due = [6, 7]" by simp
  with due show ?thesis by (simp only:)
qed

end
