(* ===== verification/Service.thy ===== *)
theory Service
  imports Clients Backoff
begin

text \<open>
  \<open>market/service.py\<close>: the business logic, method by method.

  An \<open>env\<close> holds what the service is built with: the two HTTP clients at the types they
  declare, the page fetcher, and the chat sinks (\<open>None\<close> for a sink that is not set). What a sink
  delivered is recorded in the \<open>outbox\<close>; a sink that raises delivers nothing. The order in which
  Python walks through a \<open>set\<close> is unspecified; \<open>string_set_order\<close> and \<open>int_set_order\<close> stand for
  it, a set being a list without repetitions.

  A method is a value of \<open>(world, _) eff\<close>: what it committed before an exception stays.
\<close>

record env =
  aodb_get :: "int \<Rightarrow> exn + item option"
  aodb_search :: "string \<Rightarrow> exn + item list \<times> int"
  gmi_get :: "int \<Rightarrow> exn + orders option"
  fetch_page :: "string \<Rightarrow> int \<Rightarrow> exn + string option"
  privgroup_sink :: "(string \<Rightarrow> exn + unit) option"
  tell_sink :: "(string \<Rightarrow> string \<Rightarrow> exn + unit) option"
  online_sink :: "(string \<Rightarrow> exn + bool) option"
  string_set_order :: "string list \<Rightarrow> string list"
  int_set_order :: "int list \<Rightarrow> int list"

definition emit :: "chat_out \<Rightarrow> (world, unit) eff" where
  "emit out = modify (\<lambda>w. w\<lparr>outbox := outbox w @ [out]\<rparr>)"

definition send_privgroup :: "env \<Rightarrow> string \<Rightarrow> (world, unit) eff" where
  "send_privgroup env message = (case privgroup_sink env of
     None \<Rightarrow> ret ()
   | Some f \<Rightarrow> bnd (lift (f message)) (\<lambda>_. emit (Privgroup message)))"

definition send_tell :: "env \<Rightarrow> string \<Rightarrow> string \<Rightarrow> (world, unit) eff" where
  "send_tell env player message = (case tell_sink env of
     None \<Rightarrow> ret ()
   | Some f \<Rightarrow> bnd (lift (f player message)) (\<lambda>_. emit (Tell player message)))"

definition is_online :: "env \<Rightarrow> string \<Rightarrow> (world, bool) eff" where
  "is_online env player = (case online_sink env of
     None \<Rightarrow> ret False | Some f \<Rightarrow> lift (f player))"

section \<open>Announcements\<close>

definition spaced :: "string \<Rightarrow> string" where
  "spaced action = map (\<lambda>c. if c = CHR ''_'' then CHR '' '' else c) action"

definition announce :: "env \<Rightarrow> string \<Rightarrow> string \<Rightarrow> int option \<Rightarrow> (world, unit) eff" where
  "announce env player action aoid =
     bnd (get_bool ''LogToPrivateChannel'') (\<lambda>enabled.
     if \<not> enabled then ret ()
     else
       bnd (case aoid of
              None \<Rightarrow> ret []
            | Some a \<Rightarrow> bnd (lift (aodb_get env a)) (\<lambda>item. ret (case item of
                  Some i \<Rightarrow> '' ('' @ it_name i @ '')''
                | None \<Rightarrow> '' (AOID '' @ int_str a @ '')''))) (\<lambda>suffix.
       send_privgroup env (player @ '' used market '' @ spaced action @ suffix)))"

definition announce_background :: "env \<Rightarrow> string \<Rightarrow> (world, unit) eff" where
  "announce_background env message =
     bnd (get_bool ''LogBackgroundToPrivateChannel'') (\<lambda>enabled.
     if \<not> enabled then ret () else send_privgroup env (''Market: '' @ message))"

definition announce_tracked :: "env \<Rightarrow> string \<Rightarrow> bool \<Rightarrow> (world, unit) eff" where
  "announce_tracked env item_name auto =
     (if auto then announce_background env (item_name @ '' added to auto-tracking'')
      else
        bnd (get_bool ''LogToPrivateChannel'') (\<lambda>enabled.
        if \<not> enabled then ret ()
        else send_privgroup env (item_name @ '' added to tracking (manual)'')))"

definition log_action :: "env \<Rightarrow> string \<Rightarrow> string \<Rightarrow> int option \<Rightarrow> (world, unit) eff" where
  "log_action env player action aoid =
     bnd (repo_log_action player action aoid) (\<lambda>_. announce env player action aoid)"

section \<open>Registration\<close>

definition register :: "env \<Rightarrow> string \<Rightarrow> (world, unit) eff" where
  "register env player =
     bnd (is_registered player) (\<lambda>known.
     if known then raise (Market_Error (Already_Registered player))
     else bnd (repo_register player) (\<lambda>_. log_action env player ''register'' None))"

definition unregister :: "env \<Rightarrow> string \<Rightarrow> (world, int) eff" where
  "unregister env player =
     bnd (is_registered player) (\<lambda>known.
     if \<not> known then raise (Market_Error (Not_Registered player))
     else
       bnd (unregister_cascade player) (\<lambda>removed.
       bnd (announce env player ''unregister'' None) (\<lambda>_.
       ret removed)))"

section \<open>Tracking\<close>

definition watch_item ::
  "env \<Rightarrow> int \<Rightarrow> string \<Rightarrow> int \<Rightarrow> int option \<Rightarrow> bool \<Rightarrow> (world, bool) eff" where
  "watch_item env aoid name ql icon auto_tracked =
     bnd (upsert_watch aoid name ql icon auto_tracked) (\<lambda>is_new.
     bnd (if is_new then announce_tracked env name auto_tracked else ret ()) (\<lambda>_.
     ret is_new))"

definition untrack_all :: "(world, int) eff" where
  "untrack_all = clear_watch"

section \<open>Subscriptions\<close>

definition subscribe :: "env \<Rightarrow> string \<Rightarrow> int \<Rightarrow> (world, item) eff" where
  "subscribe env player aoid =
     bnd (lift (aodb_get env aoid)) (\<lambda>found. case found of
       None \<Rightarrow> raise (Market_Error (Unknown_Item aoid))
     | Some item \<Rightarrow>
     bnd (is_registered player) (\<lambda>known.
     if \<not> known then
       bnd (log_action env player ''watch_denied'' (Some aoid)) (\<lambda>_.
       raise (Market_Error (Not_Registered player)))
     else
     bnd (get_subscription player aoid) (\<lambda>existing.
     if existing \<noteq> None then raise (Market_Error (Already_Watching aoid))
     else
     bnd (get_int ''MaxSubscriptionsPerPlayer'') (\<lambda>limit.
     bnd (count_subscriptions player) (\<lambda>count.
     if limit \<le> count then raise (Market_Error (Subscription_Limit limit))
     else
     bnd (watch_item env aoid (it_name item) (it_ql item) (it_icon item) False) (\<lambda>_.
     bnd (add_subscription player aoid) (\<lambda>_.
     bnd (log_action env player ''watch'' (Some aoid)) (\<lambda>_.
     ret item))))))))"

definition unsubscribe :: "env \<Rightarrow> string \<Rightarrow> int \<Rightarrow> (world, bool) eff" where
  "unsubscribe env player aoid =
     bnd (delete_subscription player aoid) (\<lambda>deleted.
     bnd (log_action env player ''unwatch'' (Some aoid)) (\<lambda>_.
     ret deleted))"

definition bulk_step ::
  "env \<Rightarrow> string \<Rightarrow> int \<Rightarrow> int list \<times> int list \<Rightarrow> (world, int list \<times> int list) eff" where
  "bulk_step env player aoid acc = (case acc of (removed, not_watched) \<Rightarrow>
     bnd (unsubscribe env player aoid) (\<lambda>deleted.
     ret (if deleted then (removed @ [aoid], not_watched) else (removed, not_watched @ [aoid]))))"

definition unsubscribe_bulk :: "env \<Rightarrow> string \<Rightarrow> int list \<Rightarrow> (world, int list \<times> int list) eff" where
  "unsubscribe_bulk env player aoids =
     fold_eff (bulk_step env player) (sort (remdups aoids)) ([], [])"

definition unsubscribe_all :: "env \<Rightarrow> string \<Rightarrow> (world, int) eff" where
  "unsubscribe_all env player =
     bnd (delete_all_subscriptions player) (\<lambda>count.
     bnd (log_action env player ''unwatch_all'' None) (\<lambda>_.
     ret count))"

definition list_watchlist :: "string \<Rightarrow> (world, sub_row list) eff" where
  "list_watchlist player = list_subscriptions player"

section \<open>Filters\<close>

definition require_subscription :: "string \<Rightarrow> int \<Rightarrow> (world, sub_row) eff" where
  "require_subscription player aoid =
     bnd (get_subscription player aoid) (\<lambda>sub. case sub of
       None \<Rightarrow> raise (Market_Error (Not_Watching aoid)) | Some s \<Rightarrow> ret s)"

definition set_price_filter :: "string \<Rightarrow> int \<Rightarrow> string \<Rightarrow> (world, unit) eff" where
  "set_price_filter player aoid spec =
     bnd (require_subscription player aoid) (\<lambda>_.
     bnd (lift (parse_range spec parse_credits)) (\<lambda>parsed. case parsed of
       None \<Rightarrow> raise (Market_Error (Invalid_Range spec))
     | Some (min_price, max_price) \<Rightarrow> update_price_filter player aoid min_price max_price))"

definition set_ql_filter :: "string \<Rightarrow> int \<Rightarrow> string \<Rightarrow> (world, unit) eff" where
  "set_ql_filter player aoid spec =
     bnd (require_subscription player aoid) (\<lambda>_.
     bnd (lift (parse_range spec parse_ql)) (\<lambda>parsed. case parsed of
       None \<Rightarrow> raise (Market_Error (Invalid_Range spec))
     | Some (min_ql, max_ql) \<Rightarrow> update_ql_filter player aoid min_ql max_ql))"

definition clear_filter :: "string \<Rightarrow> int \<Rightarrow> (world, unit) eff" where
  "clear_filter player aoid =
     bnd (require_subscription player aoid) (\<lambda>_. repo_clear_filter player aoid)"

definition get_filter :: "string \<Rightarrow> int \<Rightarrow> (world, sub_row) eff" where
  "get_filter player aoid = require_subscription player aoid"

section \<open>Statistics\<close>

record user_statistics =
  total_actions :: int
  first_action :: "int option"
  active_subscriptions :: int
  by_action :: "(string \<times> int) list"

definition user_stats :: "string \<Rightarrow> (world, user_statistics option) eff" where
  "user_stats player =
     bnd (user_action_summary player) (\<lambda>(total, first_seen).
     if total = 0 then ret None
     else
       bnd (user_action_breakdown player) (\<lambda>breakdown.
       bnd (count_subscriptions player) (\<lambda>subscriptions.
       ret (Some \<lparr>total_actions = total, first_action = first_seen,
                  active_subscriptions = subscriptions, by_action = breakdown\<rparr>))))"

record market_status =
  total_tracked :: int
  auto_tracked_items :: int
  manually_tracked :: int
  auto_track_enabled :: bool
  auto_track_count :: int
  auto_track_last_sync :: int

definition status_summary :: "(world, market_status) eff" where
  "status_summary =
     bnd (count_watch None) (\<lambda>total.
     bnd (count_watch (Some True)) (\<lambda>auto.
     bnd (get_bool ''AutoTrackEnabled'') (\<lambda>enabled.
     bnd (get_int ''AutoTrackCount'') (\<lambda>count.
     bnd (get_int ''AutoTrackLastSync'') (\<lambda>last.
     ret \<lparr>total_tracked = total, auto_tracked_items = auto, manually_tracked = total - auto,
          auto_track_enabled = enabled, auto_track_count = count, auto_track_last_sync = last\<rparr>)))))"

definition status_details :: "int \<Rightarrow> int \<Rightarrow> (world, watch_row list) eff" where
  "status_details limit offset = list_watch limit offset None"

end
