(* ===== verification/Polling.thy ===== *)
theory Polling
  imports Service
begin

text \<open>
  The cycles of \<open>market/service.py\<close>: polling the price feed, detecting new orders and alerting
  subscribers, and the resync of the auto-tracked items.
\<close>

section \<open>Python dictionaries\<close>

text \<open>Insertion order; assigning to a key that is present keeps its place.\<close>

fun dict_put :: "'k \<Rightarrow> 'v \<Rightarrow> ('k \<times> 'v) list \<Rightarrow> ('k \<times> 'v) list" where
  "dict_put k v [] = [(k, v)]"
| "dict_put k v ((k', v') # d) = (if k' = k then (k, v) # d else (k', v') # dict_put k v d)"

lemma map_of_dict_put [simp]: "map_of (dict_put k v d) = (map_of d)(k \<mapsto> v)"
  by (induction d) auto

lemma keys_dict_put [simp]: "fst ` set (dict_put k v d) = insert k (fst ` set d)"
  unfolding dom_map_of_conv_image_fst [symmetric] by simp

lemma distinct_dict_put: "distinct (map fst d) \<Longrightarrow> distinct (map fst (dict_put k v d))"
  by (induction d) (auto simp: image_iff split: if_splits)

section \<open>New orders\<close>

record new_order =
  no_side :: string
  no_price :: int
  no_min_ql :: int
  no_max_ql :: int

definition sell_fingerprint :: "sell_order \<Rightarrow> string" where
  "sell_fingerprint o' = ''sell|'' @ int_str (so_price o') @ ''|'' @ int_str (so_ql o') @ ''|''
     @ int_str (so_count o') @ ''|'' @ so_seller o'"

definition buy_fingerprint :: "buy_order \<Rightarrow> string" where
  "buy_fingerprint o' = ''buy|'' @ int_str (bu_price o') @ ''|'' @ int_str (bu_min_ql o') @ ''|''
     @ int_str (bu_max_ql o') @ ''|'' @ int_str (bu_count o') @ ''|'' @ bu_buyer o'"

definition fingerprint_map :: "orders \<Rightarrow> (string \<times> new_order) list" where
  "fingerprint_map os =
     fold (\<lambda>b. dict_put (buy_fingerprint b)
         \<lparr>no_side = ''buy'', no_price = bu_price b, no_min_ql = bu_min_ql b, no_max_ql = bu_max_ql b\<rparr>)
       (buy_orders os)
       (fold (\<lambda>s. dict_put (sell_fingerprint s)
           \<lparr>no_side = ''sell'', no_price = so_price s, no_min_ql = so_ql s, no_max_ql = so_ql s\<rparr>)
         (sell_orders os) [])"

definition order_matches_filter ::
  "new_order \<Rightarrow> int option \<Rightarrow> int option \<Rightarrow> int option \<Rightarrow> int option \<Rightarrow> bool" where
  "order_matches_filter order min_price max_price min_ql max_ql =
     (if min_price \<noteq> None \<and> no_price order < the min_price then False
      else if max_price \<noteq> None \<and> the max_price < no_price order then False
      else if min_ql \<noteq> None \<and> no_min_ql order < the min_ql then False
      else if max_ql \<noteq> None \<and> the max_ql < no_max_ql order then False
      else True)"

definition matches_sub :: "sub_row \<Rightarrow> new_order \<Rightarrow> bool" where
  "matches_sub s order =
     order_matches_filter order (sub_min_price s) (sub_max_price s) (sub_min_ql s) (sub_max_ql s)"

fun join_lines :: "string list \<Rightarrow> string" where
  "join_lines [] = []"
| "join_lines [l] = l"
| "join_lines (l # ls) = l @ [newline] @ join_lines ls"

text \<open>\<open>side.capitalize()\<close> for the two sides.\<close>

definition capitalized_side :: "string \<Rightarrow> string" where
  "capitalized_side side = (if side = ''sell'' then ''Sell'' else ''Buy'')"

definition alert_line :: "new_order \<Rightarrow> string" where
  "alert_line order =
     (let ql_part = (if no_min_ql order = no_max_ql order then ''QL'' @ int_str (no_min_ql order)
                     else ''QL'' @ int_str (no_min_ql order) @ ''-'' @ int_str (no_max_ql order))
      in '' - '' @ capitalized_side (no_side order) @ '': '' @ format_credits (no_price order)
         @ '' '' @ ql_part)"

definition format_alert :: "string \<Rightarrow> int \<Rightarrow> new_order list \<Rightarrow> string" where
  "format_alert item_name aoid matching = join_lines
     ([int_str (int (length matching)) @ '' new order(s) posted for '' @ item_name @ '':'', []]
      @ map alert_line matching
      @ [[], ''[market '' @ int_str aoid @ '']''])"

definition alert_subscriber :: "env \<Rightarrow> int \<Rightarrow> string \<Rightarrow> new_order list \<Rightarrow> sub_row \<Rightarrow> int \<Rightarrow> (world, int) eff" where
  "alert_subscriber env aoid item_name new_orders sub notified =
     (let matching = filter (matches_sub sub) new_orders in
      if matching = [] then ret notified
      else
        (let message = format_alert item_name aoid matching in
         bnd (is_online env (sub_player sub)) (\<lambda>online.
         bnd (if online then send_tell env (sub_player sub) message
              else queue_pending_alert (sub_player sub) aoid message) (\<lambda>_.
         ret (notified + 1)))))"

definition notify_subscribers :: "env \<Rightarrow> int \<Rightarrow> string \<Rightarrow> new_order list \<Rightarrow> (world, int) eff" where
  "notify_subscribers env aoid item_name new_orders =
     bnd (subscribers_for_aoid aoid) (\<lambda>found.
     fold_eff (alert_subscriber env aoid item_name new_orders) found 0)"

definition detect_new_orders :: "env \<Rightarrow> int \<Rightarrow> orders \<Rightarrow> string \<Rightarrow> (world, unit) eff" where
  "detect_new_orders env aoid os item_name =
     (let fmap = fingerprint_map os; fingerprints = map fst fmap in
      bnd (get_seen_fingerprints aoid) (\<lambda>before.
      bnd (if before \<noteq> []
           then (let new_fingerprints = string_set_order env (filter (\<lambda>fp. fp \<notin> set before) fingerprints) in
                 if new_fingerprints \<noteq> []
                 then bnd (notify_subscribers env aoid item_name
                        (map (\<lambda>fp. the (map_of fmap fp)) new_fingerprints)) (\<lambda>_. ret ())
                 else ret ())
           else ret ()) (\<lambda>_.
      replace_seen_fingerprints aoid (string_set_order env fingerprints))))"

definition deliver_pending_alerts :: "env \<Rightarrow> string \<Rightarrow> (world, int) eff" where
  "deliver_pending_alerts env player =
     bnd (pop_pending_alerts player) (\<lambda>popped.
     bnd (for_each popped (\<lambda>a. send_tell env player (alr_message a))) (\<lambda>_.
     ret (int (length popped))))"

section \<open>Snapshots\<close>

text \<open>\<open>sum(xs) / len(xs) if len(xs) else 0\<close>: true division of integers is correctly rounded and
  raises when the quotient is beyond the largest float.\<close>

definition average :: "int list \<Rightarrow> exn + pyfloat" where
  "average xs =
     (if xs = [] then Inr (Fin 0 1)
      else (case fl (sum_list xs) (int (length xs)) of Infty \<Rightarrow> Inl Overflow_Error | x \<Rightarrow> Inr x))"

definition min_or_0 :: "int list \<Rightarrow> int" where
  "min_or_0 xs = (if xs = [] then 0 else Min (set xs))"

definition max_or_0 :: "int list \<Rightarrow> int" where
  "max_or_0 xs = (if xs = [] then 0 else Max (set xs))"

definition snapshot :: "int \<Rightarrow> orders \<Rightarrow> int \<Rightarrow> (world, unit) eff" where
  "snapshot aoid os anchor_ql =
     (let sell_count = int (length (sell_orders os));
          buy_count = int (length (buy_orders os));
          min_sell = min_or_0 (map so_price (sell_orders os));
          max_buy = max_or_0 (map bu_price (buy_orders os));
          anchor_sell_prices = map so_price (filter (\<lambda>o'. so_ql o' = anchor_ql) (sell_orders os));
          anchor_buy_prices = map bu_price
            (filter (\<lambda>o'. bu_min_ql o' \<le> anchor_ql \<and> anchor_ql \<le> bu_max_ql o') (buy_orders os))
      in bnd (lift (average anchor_sell_prices)) (\<lambda>avg_sell.
         bnd (lift (average anchor_buy_prices)) (\<lambda>avg_buy.
         insert_snapshot aoid sell_count buy_count min_sell max_buy avg_sell avg_buy
           (int (length anchor_sell_prices)) (int (length anchor_buy_prices)))))"

section \<open>The poll cycle\<close>

record poll_summary =
  due_count :: int
  updated_count :: int
  expired_count :: int

definition poll_item :: "env \<Rightarrow> int \<Rightarrow> watch_row \<Rightarrow> int \<Rightarrow> (world, int) eff" where
  "poll_item env now watch updated =
     bnd (lift (gmi_get env (wat_aoid watch))) (\<lambda>found.
     bnd (case found of
            None \<Rightarrow> ret updated
          | Some os \<Rightarrow>
              bnd (snapshot (wat_aoid watch) os (wat_ql watch)) (\<lambda>_.
              bnd (detect_new_orders env (wat_aoid watch) os (wat_name watch)) (\<lambda>_.
              ret (updated + 1)))) (\<lambda>updated.
     bnd (update_last_polled (wat_aoid watch) now) (\<lambda>_.
     ret updated)))"

definition poll_market :: "env \<Rightarrow> (world, poll_summary) eff" where
  "poll_market env =
     bnd (gets clock) (\<lambda>now.
     bnd (get_int ''HistoryRetentionDays'') (\<lambda>retention_days.
     bnd (get_int ''WatchExpireDays'') (\<lambda>expire_days.
     bnd (get_int ''PollIntervalMinutes'') (\<lambda>interval_minutes.
     bnd (get_int ''PollBatchSize'') (\<lambda>batch_size.
     bnd (lift (days_before now expire_days)) (\<lambda>expire_cutoff.
     bnd (expire_stale_watch expire_cutoff) (\<lambda>expired.
     bnd (lift (days_before now retention_days)) (\<lambda>retention_cutoff.
     bnd (prune_history retention_cutoff) (\<lambda>_.
     bnd (lift (minutes_before now interval_minutes)) (\<lambda>poll_cutoff.
     bnd (due_for_poll poll_cutoff batch_size) (\<lambda>due.
     bnd (fold_eff (poll_item env now) due 0) (\<lambda>updated.
     bnd (if due \<noteq> [] then
            announce_background env
              (''Poll cycle complete: '' @ int_str updated @ ''/'' @ int_str (int (length due))
               @ '' item(s) successfully updated''
               @ (if expired \<noteq> [] then '', '' @ int_str (int (length expired))
                    @ '' item(s) expired and dropped from tracking'' else []))
          else ret ()) (\<lambda>_.
     ret \<lparr>due_count = int (length due), updated_count = updated,
          expired_count = int (length expired)\<rparr>)))))))))))))"

section \<open>Auto-tracking\<close>

record autotrack_summary =
  pages_fetched :: int
  ranked_count :: int
  resolved_count :: int

definition MAX_AUTOTRACK_PAGES :: int where "MAX_AUTOTRACK_PAGES = 50"

definition add_new :: "int list \<Rightarrow> int list \<Rightarrow> int list" where
  "add_new found aoids = fold (\<lambda>aoid as. if aoid \<in> set as then as else as @ [aoid]) found aoids"

text \<open>The loop over the pages; each \<open>break\<close> returns what is there.\<close>

fun scan_pages :: "env \<Rightarrow> string \<Rightarrow> int \<Rightarrow> int list \<Rightarrow> int list \<Rightarrow> int \<Rightarrow> exn + int list \<times> int" where
  "scan_pages env source_url count [] aoids fetched = Inr (aoids, fetched)"
| "scan_pages env source_url count (page # pages) aoids fetched =
     ebind (fetch_page env source_url page) (\<lambda>html. case html of
       None \<Rightarrow> Inr (aoids, fetched)
     | Some html \<Rightarrow>
         ebind (extract_aoids html) (\<lambda>found.
         if found = [] then Inr (aoids, fetched)
         else (let aoids = add_new found aoids in
               if count \<le> int (length aoids) then Inr (aoids, fetched + 1)
               else scan_pages env source_url count pages aoids (fetched + 1))))"

definition page_count :: "int \<Rightarrow> exn + int" where
  "page_count count = (case fl count 20 of
     Infty \<Rightarrow> Inl Overflow_Error
   | x \<Rightarrow> (case fceil x of None \<Rightarrow> Inl Overflow_Error | Some n \<Rightarrow> Inr (min MAX_AUTOTRACK_PAGES n)))"

definition record_lookup ::
  "int \<times> item option \<Rightarrow> (int \<times> item) list \<Rightarrow> (world, (int \<times> item) list) eff" where
  "record_lookup lookup resolved = (case lookup of (aoid, found) \<Rightarrow> case found of
       None \<Rightarrow> bnd (record_failure aoid) (\<lambda>_. ret resolved)
     | Some item \<Rightarrow> bnd (record_success aoid) (\<lambda>_. ret (dict_put aoid item resolved)))"

definition resolve_ranked :: "env \<Rightarrow> int list \<Rightarrow> (world, (int \<times> item) list) eff" where
  "resolve_ranked env aoids =
     (if aoids = [] then ret []
      else
        bnd (due_for_retry (int_set_order env aoids)) (\<lambda>due.
        let due_aoids = int_set_order env due in
        bnd (lift (map_err (aodb_get env) due_aoids)) (\<lambda>items.
        fold_eff record_lookup (zip due_aoids items) [])))"

definition track_resolved :: "env \<Rightarrow> int list \<Rightarrow> int \<times> item \<Rightarrow> (world, unit) eff" where
  "track_resolved env existing = (\<lambda>(aoid, item).
     bnd (upsert_watch aoid (it_name item) (it_ql item) (it_icon item) True) (\<lambda>_.
     if aoid \<notin> set existing then announce_tracked env (it_name item) True else ret ()))"

definition sync_top_traded_items :: "env \<Rightarrow> (world, autotrack_summary option) eff" where
  "sync_top_traded_items env =
     bnd (get_bool ''AutoTrackEnabled'') (\<lambda>enabled.
     if \<not> enabled then ret None
     else
     bnd (get_int ''AutoTrackCount'') (\<lambda>count.
     if count < 1 then ret None
     else
     bnd (lift (page_count count)) (\<lambda>pages.
     bnd (get_str ''AutoTrackSourceUrl'') (\<lambda>url.
     bnd (lift (scan_pages env (rstrip_slash url) count [1..pages] [] 0)) (\<lambda>(aoids, fetched).
     if fetched = 0 then ret None
     else
     let aoids = take (nat count) aoids in
     bnd (resolve_ranked env aoids) (\<lambda>resolved.
     bnd (unflag_autotrack_not_in (map fst resolved)) (\<lambda>_.
     bnd (existing_aoids (map fst resolved)) (\<lambda>existing.
     bnd (for_each resolved (track_resolved env existing)) (\<lambda>_.
     bnd (gets clock) (\<lambda>now.
     bnd (setting_set ''AutoTrackLastSync'' (SInt (epoch_seconds now))) (\<lambda>_.
     bnd (announce_background env
            (''Resync complete: '' @ int_str fetched @ '' page(s) fetched, ''
             @ int_str (int (length aoids)) @ '' ranked AOID(s) found, ''
             @ int_str (int (length resolved))
             @ '' resolved against aodb-api and now auto-tracked'')) (\<lambda>_.
     ret (Some \<lparr>pages_fetched = fetched, ranked_count = int (length aoids),
                resolved_count = int (length resolved)\<rparr>)))))))))))))"


section \<open>Operations that only read\<close>

lemma read_only_service [keeps]:
  "keeping I (is_online env p)"
  "keeping I (list_watchlist p)"
  "keeping I (require_subscription p aoid)"
  "keeping I (get_filter p aoid)"
  "keeping I (user_stats p)"
  "keeping I status_summary"
  "keeping I (status_details l off)"
  by (auto intro!: keeps simp: is_online_def list_watchlist_def require_subscription_def get_filter_def
      user_stats_def status_summary_def status_details_def)

end
