(* ===== verification/Subscriptions.thy ===== *)
theory Subscriptions
  imports Polling
begin

text \<open>
  What the subscription, filter and registration methods of the service achieve, on their
  successful and their failing branches.

  Announcements only talk to the chat: they change nothing but the \<open>outbox\<close> (\<open>same_db\<close>).
\<close>

section \<open>Announcements leave the database alone\<close>

definition same_db :: "world \<Rightarrow> world \<Rightarrow> bool" where
  "same_db w u \<longleftrightarrow> u\<lparr>outbox := []\<rparr> = w\<lparr>outbox := []\<rparr>"

lemma same_db_refl [simp]: "same_db w w"
  by (simp add: same_db_def)

lemma same_db_trans: "same_db u v \<Longrightarrow> same_db v w \<Longrightarrow> same_db u w"
  by (simp add: same_db_def)

lemma same_dbD:
  assumes "same_db w u"
  shows "clock u = clock w" "users u = users w" "watches u = watches w" "history u = history w"
    "subs u = subs w" "seen u = seen w" "alerts u = alerts w" "actions u = actions w"
    "api_keys u = api_keys w" "backoffs u = backoffs w" "settings u = settings w"
    "sub_seq u = sub_seq w" "action_seq u = action_seq w"
proof -
  have "u\<lparr>outbox := []\<rparr> = w\<lparr>outbox := []\<rparr>" using assms by (simp add: same_db_def)
  from arg_cong [OF this, of clock] arg_cong [OF this, of users] arg_cong [OF this, of watches]
    arg_cong [OF this, of history] arg_cong [OF this, of subs] arg_cong [OF this, of seen]
    arg_cong [OF this, of alerts] arg_cong [OF this, of actions] arg_cong [OF this, of api_keys]
    arg_cong [OF this, of backoffs] arg_cong [OF this, of settings] arg_cong [OF this, of sub_seq]
    arg_cong [OF this, of action_seq]
  show "clock u = clock w" "users u = users w" "watches u = watches w" "history u = history w"
    "subs u = subs w" "seen u = seen w" "alerts u = alerts w" "actions u = actions w"
    "api_keys u = api_keys w" "backoffs u = backoffs w" "settings u = settings w"
    "sub_seq u = sub_seq w" "action_seq u = action_seq w"
    by simp_all
qed

lemma emit_same [keeps]: "keeping (same_db w) (emit out)"
  by (rule keepingI) (simp add: emit_def same_db_def)

lemma chat_same [keeps]:
  "keeping (same_db w) (send_privgroup env m)"
  "keeping (same_db w) (send_tell env p m)"
  by (auto intro!: keeps simp: send_privgroup_def send_tell_def is_online_def)

lemma announcements_same [keeps]:
  "keeping (same_db w) (announce env p a x)"
  "keeping (same_db w) (announce_background env m)"
  "keeping (same_db w) (announce_tracked env n auto)"
  by (auto intro!: keeps simp: announce_def announce_background_def announce_tracked_def)

lemma announce_same: "announce env p a x w = (r, w') \<Longrightarrow> same_db w w'"
  "announce_tracked env n auto w = (r, w') \<Longrightarrow> same_db w w'"
  "announce_background env m w = (r, w') \<Longrightarrow> same_db w w'"
  by (rule keeping_result [of "same_db w", OF _ same_db_refl]; (rule keeps | assumption))+

section \<open>Reading back\<close>

definition logged :: "string \<Rightarrow> string \<Rightarrow> int option \<Rightarrow> world \<Rightarrow> world" where
  "logged player action aoid w =
     w\<lparr>actions := actions w @ [\<lparr>act_id = action_seq w, act_player = player, act_action = action,
                                act_aoid = aoid, act_created_at = clock w\<rparr>],
       action_seq := action_seq w + 1\<rparr>"

lemma log_action_Inr:
  "log_action env p a x w = (Inr (), w') \<Longrightarrow> null_or int8 x \<and> same_db (logged p a x w) w'"
  by (auto simp: log_action_def repo_log_action_def bnd_Inr_iff with_params_Inr logged_def
      dest: announce_same)

lemma log_action_any:
  "log_action env p a x w = (r, w') \<Longrightarrow> same_db w w' \<or> same_db (logged p a x w) w'"
proof -
  assume run: "log_action env p a x w = (r, w')"
  show ?thesis
  proof (cases "null_or int8 x")
    case True
    then have "log_action env p a x w = announce env p a x (logged p a x w)"
      by (simp add: log_action_def repo_log_action_def logged_def)
    with run announce_same(1) show ?thesis by fastforce
  next
    case False
    with run show ?thesis by (simp add: log_action_def repo_log_action_def)
  qed
qed

lemma subs_logged [simp]: "subs (logged p a x w) = subs w"
  by (simp add: logged_def)

definition limit_of :: "world \<Rightarrow> exn + int" where
  "limit_of w = fst (get_int ''MaxSubscriptionsPerPlayer'' w)"

lemma get_int_Inr: "get_int key w = (Inr n, w') \<longleftrightarrow> w' = w \<and> fst (get_int key w) = Inr n"
  using keepingD [OF settings_read_only(4), of "\<lambda>u. u = w" w key] by (auto simp: prod_eq_iff)

definition tracked :: "int \<Rightarrow> item \<Rightarrow> world \<Rightarrow> world" where
  "tracked aoid item w =
     w\<lparr>watches := upsert wat_aoid (new_watch aoid (it_name item) (it_ql item) (it_icon item) False (clock w))
        (refresh_watch (it_name item) (it_ql item) (it_icon item) False) (watches w)\<rparr>"

lemma watch_item_Inr:
  "watch_item env aoid (it_name item) (it_ql item) (it_icon item) False w = (Inr b, w') \<Longrightarrow>
   int8 aoid \<and> same_db (tracked aoid item w) w'"
  by (auto simp: watch_item_def upsert_watch_def get_watch_def bnd_Inr_iff with_params_Inr tracked_def
      dest!: announce_same split: if_splits)

lemma add_subscription_Inr:
  "add_subscription p aoid w = (Inr (), w') \<longleftrightarrow>
   int8 aoid \<and> row_with sub_key (p, aoid) (subs w) = None \<and> row_with usr_player p (users w) \<noteq> None
   \<and> row_with wat_aoid aoid (watches w) \<noteq> None
   \<and> w' = w\<lparr>subs := subs w @ [new_sub p aoid (sub_seq w) (clock w)], sub_seq := sub_seq w + 1\<rparr>"
  by (auto simp: add_subscription_def with_params_Inr)

lemma subscribe_Inr:
  assumes "subscribe env p aoid w = (Inr item, w')"
  shows "aodb_get env aoid = Inr (Some item)"
    and "row_with usr_player p (users w) \<noteq> None"
    and "row_with sub_key (p, aoid) (subs w) = None"
    and "\<exists>limit. limit_of w = Inr limit \<and> count_where (\<lambda>s. sub_player s = p) (subs w) < limit"
    and "subs w' = subs w @ [new_sub p aoid (sub_seq w) (clock w)]"
    and "watches w' = watches (tracked aoid item w)"
    and "users w' = users w"
    and "actions w' = actions (logged p ''watch'' (Some aoid) w)"
proof -
  from assms obtain limit b u v where
    found: "aodb_get env aoid = Inr (Some item)"
    and reg: "row_with usr_player p (users w) \<noteq> None"
    and no_sub: "row_with sub_key (p, aoid) (subs w) = None"
    and limit: "limit_of w = Inr limit" "count_where (\<lambda>s. sub_player s = p) (subs w) < limit"
    and track: "watch_item env aoid (it_name item) (it_ql item) (it_icon item) False w = (Inr b, u)"
    and add: "add_subscription p aoid u = (Inr (), v)"
    and log: "log_action env p ''watch'' (Some aoid) v = (Inr (), w')"
    unfolding subscribe_def
    by (auto simp: bnd_Inr_iff is_registered_def get_subscription_def with_params_Inr
        count_subscriptions_def limit_of_def get_int_Inr split: option.splits if_splits)
  from found reg no_sub limit show "aodb_get env aoid = Inr (Some item)"
    "row_with usr_player p (users w) \<noteq> None" "row_with sub_key (p, aoid) (subs w) = None"
    "\<exists>limit. limit_of w = Inr limit \<and> count_where (\<lambda>s. sub_player s = p) (subs w) < limit"
    by blast+
  have u: "same_db (tracked aoid item w) u" using watch_item_Inr [OF track] by simp
  have v: "v = u\<lparr>subs := subs u @ [new_sub p aoid (sub_seq u) (clock u)], sub_seq := sub_seq u + 1\<rparr>"
    using add by (simp add: add_subscription_Inr)
  have w': "same_db (logged p ''watch'' (Some aoid) v) w'" using log_action_Inr [OF log] by simp
  show "subs w' = subs w @ [new_sub p aoid (sub_seq w) (clock w)]"
    "watches w' = watches (tracked aoid item w)" "users w' = users w"
    "actions w' = actions (logged p ''watch'' (Some aoid) w)"
    using same_dbD [OF u] same_dbD [OF w'] v by (simp_all add: tracked_def logged_def)
qed


section \<open>Exceptions\<close>

text \<open>Clients and sinks raise none of the market's own exceptions and refuse no request.\<close>

definition outside_env :: "env \<Rightarrow> bool" where
  "outside_env env \<longleftrightarrow>
     (\<forall>a e. aodb_get env a = Inl e \<longrightarrow> foreign e) \<and> (\<forall>q e. aodb_search env q = Inl e \<longrightarrow> foreign e)
     \<and> (\<forall>a e. gmi_get env a = Inl e \<longrightarrow> foreign e)
     \<and> (\<forall>f m e. privgroup_sink env = Some f \<longrightarrow> f m = Inl e \<longrightarrow> foreign e)"

lemma foreign_params [raising]: "raises_only foreign m \<Longrightarrow> raises_only foreign (with_params ok m)"
  by (auto simp: with_params_def intro: raising)

lemma foreign_repo [raising]:
  "raises_only E (is_registered p)"
  "raises_only foreign (repo_register p)"
  "raises_only foreign (unregister_cascade p)"
  "raises_only foreign (get_subscription p aoid)"
  "raises_only E (count_subscriptions p)"
  "raises_only foreign (upsert_watch aoid n q i auto)"
  "raises_only foreign (add_subscription p aoid)"
  "raises_only foreign (delete_subscription p aoid)"
  "raises_only foreign (delete_all_subscriptions p)"
  "raises_only foreign (repo_log_action p a x)"
  "raises_only foreign (update_price_filter p aoid lo hi)"
  "raises_only foreign (update_ql_filter p aoid lo hi)"
  "raises_only foreign (repo_clear_filter p aoid)"
  by (auto intro!: raising simp: is_registered_def get_subscription_def count_subscriptions_def
      upsert_watch_def get_watch_def delete_subscription_def delete_all_subscriptions_def
      repo_log_action_def update_price_filter_def update_ql_filter_def repo_clear_filter_def
      update_subs_def add_subscription_def)
    (auto simp: raises_only_def repo_register_def unregister_cascade_def Let_def split: if_splits)

lemma foreign_settings [raising]:
  "raises_only foreign (setting_get key)"
  "raises_only foreign (get_bool key)"
  "raises_only foreign (get_int key)"
  "raises_only foreign (get_str key)"
proof -
  have int: "int_of_text s = Inl e \<Longrightarrow> foreign e" for s e
    by (auto simp: int_of_text_def split: prod.splits option.splits if_splits)
  have "deserialize s vt = Inl e \<Longrightarrow> foreign e" for s vt e
    by (cases vt; cases "int_of_text s") (auto simp: deserialize_def dest: int)
  then show get: "raises_only foreign (setting_get key)" for key
    by (auto intro!: raising raises_lift simp: setting_get_def get_row_def)
  show "raises_only foreign (get_bool key)" "raises_only foreign (get_int key)"
    "raises_only foreign (get_str key)"
    by (auto intro!: raising get simp: get_bool_def get_int_def get_str_def split: setting_value.split)
qed

lemma foreign_chat [raising]:
  assumes "outside_env env"
  shows "raises_only foreign (announce env p a x)"
    and "raises_only foreign (announce_background env m)"
    and "raises_only foreign (announce_tracked env n auto)"
    and "raises_only foreign (log_action env p a x)"
proof -
  have send: "raises_only foreign (send_privgroup env m)" for m
    using assms by (auto intro!: raising raises_lift simp: outside_env_def send_privgroup_def emit_def
        split: option.split)
  show ann: "raises_only foreign (announce env p a x)" for p a x
    using assms by (auto intro!: raising raises_lift send simp: outside_env_def announce_def)
  show "raises_only foreign (announce_background env m)" for m
    by (auto intro!: raising send simp: announce_background_def)
  then show "raises_only foreign (announce_tracked env n auto)"
    by (auto intro!: raising send simp: announce_tracked_def)
  show "raises_only foreign (log_action env p a x)"
    by (auto intro!: raising ann simp: log_action_def)
qed

lemma foreign_watch_item [raising]:
  "outside_env env \<Longrightarrow> raises_only foreign (watch_item env aoid n q i auto)"
  by (auto intro!: raising simp: watch_item_def)

text \<open>A run of \<open>bnd\<close> that ends in one of the market's exceptions passed the foreign part.\<close>

lemma bnd_market:
  "bnd m f w = (Inl (Market_Error e), w') \<Longrightarrow> raises_only foreign m \<Longrightarrow>
   \<exists>x u. m w = (Inr x, u) \<and> f x u = (Inl (Market_Error e), w')"
  by (auto simp: bnd_def split: prod.splits sum.splits dest: raises_onlyD)


lemma subscribe_market:
  assumes out: "outside_env env" and run: "subscribe env p aoid w = (Inl (Market_Error e), w')"
  shows "(e = Unknown_Item aoid \<and> aodb_get env aoid = Inr None \<and> w' = w)
    \<or> (e = Not_Registered p \<and> row_with usr_player p (users w) = None
        \<and> same_db (logged p ''watch_denied'' (Some aoid) w) w')
    \<or> (e = Already_Watching aoid \<and> row_with sub_key (p, aoid) (subs w) \<noteq> None \<and> w' = w)
    \<or> (\<exists>limit. e = Subscription_Limit limit \<and> limit_of w = Inr limit
        \<and> limit \<le> count_where (\<lambda>s. sub_player s = p) (subs w) \<and> w' = w)"
proof (cases "aodb_get env aoid")
  case (Inl e')
  then have "foreign e'" using out by (simp add: outside_env_def)
  with Inl run show ?thesis by (auto simp: subscribe_def bnd_def)
next
  case (Inr found)
  show ?thesis
  proof (cases found)
    case None
    with Inr run show ?thesis by (simp add: subscribe_def bnd_def)
  next
    case (Some item)
    note found = Inr [unfolded Some]
    show ?thesis
    proof (cases "row_with usr_player p (users w)")
      case None
      with found run have "bnd (log_action env p ''watch_denied'' (Some aoid))
          (\<lambda>_. raise (Market_Error (Not_Registered p)) :: (world, item) eff) w = (Inl (Market_Error e), w')"
        by (simp add: subscribe_def is_registered_def)
      from bnd_market [OF this foreign_chat(4) [OF out]] None show ?thesis
        by (auto dest: log_action_Inr)
    next
      case (Some u)
      have tail: "raises_only foreign (bnd (watch_item env aoid n q i False) (\<lambda>_.
          bnd (add_subscription p aoid) (\<lambda>_. bnd (log_action env p ''watch'' (Some aoid)) (\<lambda>_. ret x))))" for n q i x
        by (intro raising out)
      from found Some run show ?thesis
        unfolding subscribe_def
        by (auto simp: is_registered_def get_subscription_def limit_of_def get_int_Inr count_subscriptions_def
            with_params_def bnd_def [of "lift r" for r] split: if_splits
            dest!: bnd_market raises_onlyD [OF tail] intro: raising)
    qed
  qed
qed


lemma delete_subscription_Inr:
  "delete_subscription p aoid w = (Inr b, w') \<longleftrightarrow> int8 aoid \<and> b = (row_with sub_key (p, aoid) (subs w) \<noteq> None)
     \<and> w' = w\<lparr>subs := delete_where (is_sub p aoid) (subs w)\<rparr>"
proof -
  have "0 < count_where (is_sub p aoid) rows \<longleftrightarrow> row_with sub_key (p, aoid) rows \<noteq> None" for rows
    by (auto simp: count_where_def row_with_None filter_empty_conv is_sub_def sub_key_def image_iff)
  then show ?thesis by (auto simp: delete_subscription_def with_params_Inr)
qed

lemma unsubscribe_Inr:
  assumes "unsubscribe env p aoid w = (Inr b, w')"
  shows "b = (row_with sub_key (p, aoid) (subs w) \<noteq> None)
    \<and> subs w' = delete_where (is_sub p aoid) (subs w) \<and> users w' = users w \<and> watches w' = watches w"
proof -
  from assms obtain u where "delete_subscription p aoid w = (Inr b, u)"
    and "log_action env p ''unwatch'' (Some aoid) u = (Inr (), w')"
    by (auto simp: unsubscribe_def bnd_Inr_iff)
  then have "same_db (logged p ''unwatch'' (Some aoid) u) w'"
    and "b = (row_with sub_key (p, aoid) (subs w) \<noteq> None)"
    and "u = w\<lparr>subs := delete_where (is_sub p aoid) (subs w)\<rparr>"
    using log_action_Inr by (auto simp: delete_subscription_Inr)
  then show ?thesis
    using same_dbD [of "logged p ''unwatch'' (Some aoid) u" w'] by (simp add: logged_def)
qed

lemma row_with_delete_sub:
  "row_with sub_key (q, a) (delete_where (is_sub p aoid) rows) =
     (if q = p \<and> a = aoid then None else row_with sub_key (q, a) rows)"
proof -
  have "is_sub p aoid = (\<lambda>s. sub_key s = (p, aoid))"
    by (auto simp: is_sub_def sub_key_def)
  then show ?thesis
    using row_with_delete [of "\<lambda>k. k = (p, aoid)"] row_with_delete_other [of "\<lambda>k. k = (p, aoid)" "(q, a)"]
    by auto
qed

lemma delete_where_twice: "delete_where P (delete_where Q rows) = delete_where (\<lambda>r. P r \<or> Q r) rows"
  by (simp add: delete_where_def conj_commute)

lemma bulk_step_Inr:
  assumes "bulk_step env p a (removed, not_watched) w = (Inr acc, u)"
  obtains b where "unsubscribe env p a w = (Inr b, u)"
    and "acc = (if b then (removed @ [a], not_watched) else (removed, not_watched @ [a]))"
  using assms by (auto simp: bulk_step_def bnd_Inr_iff)

lemma bulk_loop:
  assumes "fold_eff (bulk_step env p) todo acc w = (Inr acc', w')" and "distinct todo"
  shows "acc' = (fst acc @ filter (\<lambda>a. row_with sub_key (p, a) (subs w) \<noteq> None) todo,
      snd acc @ filter (\<lambda>a. row_with sub_key (p, a) (subs w) = None) todo)
    \<and> subs w' = delete_where (\<lambda>s. sub_player s = p \<and> sub_aoid s \<in> set todo) (subs w)"
  using assms
proof (induction todo arbitrary: acc w)
  case Nil
  then show ?case by (simp add: delete_where_def)
next
  case (Cons a todo)
  obtain removed not_watched where acc: "acc = (removed, not_watched)" by fastforce
  from Cons.prems(1) acc obtain mid u where step: "bulk_step env p a (removed, not_watched) w = (Inr mid, u)"
    and rest: "fold_eff (bulk_step env p) todo mid u = (Inr acc', w')"
    by (auto simp: bnd_Inr_iff)
  obtain b where un: "unsubscribe env p a w = (Inr b, u)"
    and mid: "mid = (if b then (removed @ [a], not_watched) else (removed, not_watched @ [a]))"
    using bulk_step_Inr [OF step] .
  note u = unsubscribe_Inr [OF un]
  have "distinct todo" "a \<notin> set todo" using Cons.prems(2) by simp_all
  have same: "row_with sub_key (p, x) (subs u) = row_with sub_key (p, x) (subs w)" if "x \<in> set todo" for x
    using u that \<open>a \<notin> set todo\<close> by (auto simp: row_with_delete_sub)
  then have filters: "filter (\<lambda>x. row_with sub_key (p, x) (subs u) \<noteq> None) todo
      = filter (\<lambda>x. row_with sub_key (p, x) (subs w) \<noteq> None) todo"
    "filter (\<lambda>x. row_with sub_key (p, x) (subs u) = None) todo
      = filter (\<lambda>x. row_with sub_key (p, x) (subs w) = None) todo"
    by (auto intro: filter_cong)
  have rows: "delete_where (\<lambda>s. sub_player s = p \<and> sub_aoid s \<in> set todo) (subs u)
      = delete_where (\<lambda>s. sub_player s = p \<and> sub_aoid s \<in> set (a # todo)) (subs w)"
    using u by (auto simp: is_sub_def delete_where_def intro: filter_cong)
  show ?case
    using Cons.IH [OF rest \<open>distinct todo\<close>] u unfolding filters rows mid acc by simp
qed

section \<open>Properties\<close>


definition sample_item :: item where
  "sample_item = \<lparr>it_aoid = 100, it_name = ''Lava capsule'', it_ql = 200, it_icon = None, it_description = None\<rparr>"

definition sample_env :: env where
  "sample_env = \<lparr>aodb_get = (\<lambda>a. Inr (if a = 100 then Some sample_item else None)),
     aodb_search = (\<lambda>q. Inr ([sample_item], 1)), gmi_get = (\<lambda>a. Inr None), fetch_page = (\<lambda>u n. Inr None),
     privgroup_sink = None, tell_sink = None, online_sink = None, string_set_order = (\<lambda>xs. xs),
     int_set_order = (\<lambda>xs. xs)\<rparr>"

definition sample_world :: world where
  "sample_world = empty_world\<lparr>users := [new_user ''Ann'' 0],
     settings := [new_setting ''MaxSubscriptionsPerPlayer'' ''25'' VInt 0,
                  new_setting ''LogToPrivateChannel'' ''false'' VBool 0]\<rparr>"


text \<open>C17. Bulk removal splits the aoids asked for, whatever their order and repetitions: the ones
  returned as removed, in ascending order, are those the player was subscribed to, the others are
  returned as not watched, and exactly the player's subscriptions to these aoids are gone.\<close>

theorem unsubscribe_bulk_spec:
  assumes "unsubscribe_bulk env player aoids w = (Inr (removed, not_watched), w')"
  shows "removed = filter (\<lambda>a. row_with sub_key (player, a) (subs w) \<noteq> None) (sort (remdups aoids))
    \<and> not_watched = filter (\<lambda>a. row_with sub_key (player, a) (subs w) = None) (sort (remdups aoids))
    \<and> subs w' = filter (\<lambda>s. \<not> (sub_player s = player \<and> sub_aoid s \<in> set aoids)) (subs w)"
  using bulk_loop [OF assms [unfolded unsubscribe_bulk_def]] by (simp add: delete_where_def)

theorem unsubscribe_bulk_spec_witness:
  "fst (unsubscribe_bulk sample_env ''Ann'' [300, 100, 300]
     (snd (subscribe sample_env ''Ann'' 100 sample_world))) = Inr ([100], [300])"
proof -
  let ?w = "snd (subscribe sample_env ''Ann'' 100 sample_world)"
  let ?run = "unsubscribe_bulk sample_env ''Ann'' [300, 100, 300] ?w"
  have "\<not> isl (fst ?run)" by code_simp
  then obtain removed not_watched where run: "fst ?run = Inr (removed, not_watched)"
    by (cases "fst ?run") auto
  then have "?run = (Inr (removed, not_watched), snd ?run)" by (simp add: prod_eq_iff)
  from unsubscribe_bulk_spec [OF this]
  have "removed = filter (\<lambda>a. row_with sub_key (''Ann'', a) (subs ?w) \<noteq> None) (sort (remdups [300, 100, 300]))"
    "not_watched = filter (\<lambda>a. row_with sub_key (''Ann'', a) (subs ?w) = None) (sort (remdups [300, 100, 300]))"
    by blast+
  moreover have "filter (\<lambda>a. row_with sub_key (''Ann'', a) (subs ?w) \<noteq> None) (sort (remdups [300, 100, 300])) = [100]"
    "filter (\<lambda>a. row_with sub_key (''Ann'', a) (subs ?w) = None) (sort (remdups [300, 100, 300])) = [300]"
    by code_simp+
  ultimately show ?thesis using run by simp
qed

end
