(* ===== verification/Auth.thy ===== *)
theory Auth
  imports Db
begin

text \<open>
  \<open>db/api_key_repo.py\<close> and \<open>auth/service.py\<close>: API keys.

  The digest of a token (PBKDF2-HMAC-SHA256 with the server's pepper as salt) is a parameter
  \<open>digest\<close>, and the random part of a new token (\<open>secrets.token_urlsafe\<close>) is an argument.
  Statements that need it assume that the digest separates the tokens they speak of.

  The service sees the keys through the locale \<open>key_store\<close>: which player, if any, a hash
  identifies, and how issuing and revoking change that.
\<close>

section \<open>Repository\<close>

definition new_key :: "string \<Rightarrow> string \<Rightarrow> string \<Rightarrow> int \<Rightarrow> int \<Rightarrow> key_row" where
  "new_key player hash prefix ident now =
     \<lparr>key_id = ident, key_player = player, key_hash = hash, key_prefix = prefix,
      key_created_at = now, key_revoked_at = None, key_last_used_at = None\<rparr>"

definition key_create :: "string \<Rightarrow> string \<Rightarrow> string \<Rightarrow> (world, key_row) eff" where
  "key_create player hash prefix = (\<lambda>w.
     if row_with key_hash hash (api_keys w) \<noteq> None \<or> row_with usr_player player (users w) = None
     then (Inl Integrity_Error, w\<lparr>key_seq := key_seq w + 1\<rparr>)
     else (let key = new_key player hash prefix (key_seq w) (clock w)
           in (Inr key, w\<lparr>api_keys := api_keys w @ [key], key_seq := key_seq w + 1\<rparr>)))"

definition active :: "key_row \<Rightarrow> bool" where
  "active k \<longleftrightarrow> key_revoked_at k = None"

definition get_by_hash :: "string \<Rightarrow> (world, key_row option) eff" where
  "get_by_hash hash = gets (\<lambda>w. find (\<lambda>k. key_hash k = hash \<and> active k) (api_keys w))"

definition revoke_all_for_player :: "string \<Rightarrow> (world, int) eff" where
  "revoke_all_for_player player = (\<lambda>w.
     (Inr (count_where (\<lambda>k. key_player k = player \<and> active k) (api_keys w)),
      w\<lparr>api_keys := update_where (\<lambda>k. key_player k = player \<and> active k)
          (\<lambda>k. k\<lparr>key_revoked_at := Some (clock w)\<rparr>) (api_keys w)\<rparr>))"

definition list_for_player :: "string \<Rightarrow> (world, key_row list) eff" where
  "list_for_player player = gets (\<lambda>w.
     sort_key (\<lambda>k. - key_created_at k) (filter (\<lambda>k. key_player k = player) (api_keys w)))"

definition touch_last_used :: "int \<Rightarrow> (world, unit) eff" where
  "touch_last_used ident = modify (\<lambda>w.
     w\<lparr>api_keys := update_where (\<lambda>k. key_id k = ident) (\<lambda>k. k\<lparr>key_last_used_at := Some (clock w)\<rparr>)
       (api_keys w)\<rparr>)"

section \<open>Service\<close>

definition TOKEN_PREFIX :: string where "TOKEN_PREFIX = ''aomk_''"
definition PREFIX_LENGTH :: nat where "PREFIX_LENGTH = 12"

record auth_config =
  owner_character :: string
  digest :: "string \<Rightarrow> string"

record principal =
  prc_player :: string
  prc_is_admin :: bool

definition generate_token :: "string \<Rightarrow> string" where
  "generate_token random = TOKEN_PREFIX @ random"

definition token_prefix :: "string \<Rightarrow> string" where
  "token_prefix raw = take PREFIX_LENGTH raw"

definition generate_key :: "auth_config \<Rightarrow> string \<Rightarrow> string \<Rightarrow> (world, string) eff" where
  "generate_key auth player random =
     bnd (is_registered player) (\<lambda>registered.
     bnd (if \<not> registered then repo_register player else ret ()) (\<lambda>_.
     bnd (revoke_all_for_player player) (\<lambda>_.
     let raw = generate_token random in
     bnd (key_create player (digest auth raw) (token_prefix raw)) (\<lambda>_.
     ret raw))))"

definition revoke_keys :: "string \<Rightarrow> (world, int) eff" where
  "revoke_keys player = revoke_all_for_player player"

definition list_keys :: "string \<Rightarrow> (world, key_row list) eff" where
  "list_keys player = list_for_player player"

definition is_admin_player :: "auth_config \<Rightarrow> string \<Rightarrow> (world, bool) eff" where
  "is_admin_player auth player =
     (if owner_character auth \<noteq> [] \<and> player = owner_character auth then ret True
      else bnd (get_user player) (\<lambda>user.
        ret (case user of None \<Rightarrow> False | Some u \<Rightarrow> usr_is_admin u)))"

definition authenticate :: "auth_config \<Rightarrow> string \<Rightarrow> (world, principal option) eff" where
  "authenticate auth raw_token =
     bnd (get_by_hash (digest auth raw_token)) (\<lambda>key. case key of
       None \<Rightarrow> ret None
     | Some key \<Rightarrow>
         bnd (touch_last_used (key_id key)) (\<lambda>_.
         bnd (is_admin_player auth (key_player key)) (\<lambda>is_admin.
         ret (Some \<lparr>prc_player = key_player key, prc_is_admin = is_admin\<rparr>))))"

section \<open>Invariants\<close>

lemma auth_read_only [keeps]:
  "keeping I (get_by_hash hash)"
  "keeping I (list_for_player player)"
  "keeping I (list_keys player)"
  "keeping I (is_admin_player auth player)"
  by (auto intro!: keeps simp: get_by_hash_def list_for_player_def list_keys_def is_admin_player_def)

lemma key_create_ok [keeps]: "keeping db_ok (key_create player hash prefix)"
  by (rule keepingI) (simp add: key_create_def Let_def db_defs table_rules new_key_def)

lemma key_updates_ok [keeps]:
  "keeping db_ok (revoke_all_for_player player)"
  "keeping db_ok (revoke_keys player)"
  "keeping db_ok (touch_last_used ident)"
  by (rule keepingI, simp add: revoke_all_for_player_def revoke_keys_def touch_last_used_def
      db_defs table_rules)+

lemma auth_ok [keeps]:
  "keeping db_ok (generate_key auth player random)"
  "keeping db_ok (authenticate auth raw)"
  by (auto intro!: keeps simp: generate_key_def authenticate_def Let_def)

text \<open>At most one key of a player is active.\<close>

definition one_active :: "world \<Rightarrow> bool" where
  "one_active w \<longleftrightarrow> unique key_player (filter active (api_keys w))"

section \<open>The interface\<close>

locale key_store =
  fixes issue :: "'p \<Rightarrow> 'h \<Rightarrow> 'w \<Rightarrow> 'w"
    and revoke :: "'p \<Rightarrow> 'w \<Rightarrow> 'w"
    and holder :: "'w \<Rightarrow> 'h \<Rightarrow> 'p option"
    and fresh :: "'w \<Rightarrow> 'h \<Rightarrow> bool"
    and sound :: "'w \<Rightarrow> bool"
  assumes issue_same: "sound w \<Longrightarrow> fresh w h \<Longrightarrow> holder (issue p h w) h = Some p"
    and issue_other: "sound w \<Longrightarrow> fresh w h \<Longrightarrow> h' \<noteq> h \<Longrightarrow> holder (issue p h w) h' = holder w h'"
    and revoke_holder: "sound w \<Longrightarrow>
      holder (revoke p w) h = (if holder w h = Some p then None else holder w h)"
    and revoke_fresh: "fresh (revoke p w) h = fresh w h"
    and revoke_sound: "sound w \<Longrightarrow> sound (revoke p w)"
begin

text \<open>Replacing a player's key: the new hash is the only one that identifies the player, and nobody
  else is affected.\<close>

lemma replace_holder:
  assumes "sound w" and "fresh w h"
  shows "holder (issue p h (revoke p w)) h' =
    (if h' = h then Some p else if holder w h' = Some p then None else holder w h')"
  using assms issue_same [of "revoke p w" h p] issue_other [of "revoke p w" h h' p]
  by (simp add: revoke_fresh revoke_holder revoke_sound)

lemma replace_only:
  assumes "sound w" and "fresh w h" and "holder (issue p h (revoke p w)) h' = Some p"
  shows "h' = h"
  using assms replace_holder [OF assms(1,2), of p h'] by (auto split: if_splits)

lemma revoke_twice: "sound w \<Longrightarrow> holder (revoke p (revoke p w)) h = holder (revoke p w) h"
  by (simp add: revoke_holder revoke_sound)

end

definition key_holder :: "world \<Rightarrow> string \<Rightarrow> string option" where
  "key_holder w hash =
     map_option key_player (find (\<lambda>k. key_hash k = hash \<and> active k) (api_keys w))"

definition put_key :: "string \<Rightarrow> string \<Rightarrow> string \<Rightarrow> world \<Rightarrow> world" where
  "put_key prefix player hash w =
     w\<lparr>api_keys := api_keys w @ [new_key player hash prefix (key_seq w) (clock w)], key_seq := key_seq w + 1\<rparr>"

definition drop_keys :: "string \<Rightarrow> world \<Rightarrow> world" where
  "drop_keys player w =
     w\<lparr>api_keys := update_where (\<lambda>k. key_player k = player \<and> active k)
          (\<lambda>k. k\<lparr>key_revoked_at := Some (clock w)\<rparr>) (api_keys w)\<rparr>"

definition hash_fresh :: "world \<Rightarrow> string \<Rightarrow> bool" where
  "hash_fresh w hash \<longleftrightarrow> row_with key_hash hash (api_keys w) = None"

definition hashes_unique :: "world \<Rightarrow> bool" where
  "hashes_unique w \<longleftrightarrow> unique key_hash (api_keys w)"

lemma find_append: "find P (xs @ ys) = (case find P xs of None \<Rightarrow> find P ys | Some x \<Rightarrow> Some x)"
  by (induction xs) auto

lemma find_update_where:
  assumes "unique key_hash rows"
  shows "find (\<lambda>k. key_hash k = h \<and> active k)
      (update_where (\<lambda>k. key_player k = p \<and> active k) (\<lambda>k. k\<lparr>key_revoked_at := Some c\<rparr>) rows) =
    (case find (\<lambda>k. key_hash k = h \<and> active k) rows of
       None \<Rightarrow> None | Some k \<Rightarrow> if key_player k = p then None else Some k)"
  using assms
proof (induction rows)
  case (Cons k rows)
  have "find (\<lambda>k. key_hash k = h \<and> active k) rows = None" if "key_hash k = h"
    using Cons.prems that by (auto simp: unique_def find_None_iff image_iff)
  with Cons show ?case
    by (auto simp: unique_def update_where_def active_def split: option.splits)
qed (simp add: update_where_def)

interpretation keys: key_store "put_key prefix" drop_keys key_holder hash_fresh hashes_unique for prefix
proof
  fix w p h h'
  show "key_holder (put_key prefix p h w) h = Some p" if "hashes_unique w" "hash_fresh w h"
  proof -
    have "find (\<lambda>k. key_hash k = h \<and> active k) (api_keys w) = None"
      using that(2) by (auto simp: hash_fresh_def row_with_None find_None_iff)
    then show ?thesis by (simp add: key_holder_def put_key_def find_append new_key_def active_def)
  qed
  show "key_holder (put_key prefix p h w) h' = key_holder w h'" if "h' \<noteq> h"
    using that by (simp add: key_holder_def put_key_def find_append new_key_def split: option.split)
  show "key_holder (drop_keys p w) h = (if key_holder w h = Some p then None else key_holder w h)"
    if "hashes_unique w"
    using that by (auto simp: key_holder_def drop_keys_def hashes_unique_def find_update_where
        split: option.split)
  show "hash_fresh (drop_keys p w) h = hash_fresh w h"
    by (simp add: hash_fresh_def drop_keys_def row_with_None keys_update)
  show "hashes_unique w \<Longrightarrow> hashes_unique (drop_keys p w)"
    by (simp add: hashes_unique_def drop_keys_def table_rules)
qed

section \<open>Runs\<close>

lemma revoke_run: "revoke_all_for_player player w =
    (Inr (count_where (\<lambda>k. key_player k = player \<and> active k) (api_keys w)), drop_keys player w)"
  by (simp add: revoke_all_for_player_def drop_keys_def)

definition ensure_user :: "string \<Rightarrow> world \<Rightarrow> world" where
  "ensure_user player w =
     (if row_with usr_player player (users w) = None
      then w\<lparr>users := users w @ [new_user player (clock w)]\<rparr> else w)"

lemma generate_key_run:
  fixes random :: string
  defines "raw \<equiv> generate_token random"
  shows "generate_key auth player random w =
    (if hash_fresh w (digest auth raw)
     then (Inr raw, put_key (token_prefix raw) player (digest auth raw) (drop_keys player (ensure_user player w)))
     else (Inl Integrity_Error, (drop_keys player (ensure_user player w))\<lparr>key_seq := key_seq w + 1\<rparr>))"
proof -
  have reg: "bnd (is_registered player) (\<lambda>r. bnd (if \<not> r then repo_register player else ret ()) f) w
      = f () (ensure_user player w)" for f :: "unit \<Rightarrow> (world, string) eff"
    by (simp add: is_registered_def repo_register_def ensure_user_def bnd_def)
  have has: "row_with usr_player player (users (drop_keys player (ensure_user player w))) \<noteq> None"
    by (auto simp: ensure_user_def drop_keys_def row_with_append new_user_def split: option.split)
  have "hash_fresh (ensure_user player w) h = hash_fresh w h" for h
    by (simp add: hash_fresh_def ensure_user_def)
  then have "hash_fresh (drop_keys player (ensure_user player w)) h = hash_fresh w h" for h
    by (simp add: keys.revoke_fresh)
  moreover have "key_seq (drop_keys player (ensure_user player w)) = key_seq w"
    by (simp add: drop_keys_def ensure_user_def)
  ultimately show ?thesis
    unfolding generate_key_def reg raw_def
    using has
    by (simp add: bnd_def revoke_run key_create_def Let_def put_key_def hash_fresh_def del: not_None_eq)
qed

text \<open>The player a token stands for.\<close>

definition token_player :: "auth_config \<Rightarrow> string \<Rightarrow> world \<Rightarrow> string option" where
  "token_player auth raw w =
     (case fst (authenticate auth raw w) of Inr (Some p) \<Rightarrow> Some (prc_player p) | _ \<Rightarrow> None)"

lemma token_player_holder: "token_player auth raw w = key_holder w (digest auth raw)"
  by (auto simp: token_player_def authenticate_def get_by_hash_def key_holder_def touch_last_used_def
      is_admin_player_def get_user_def bnd_assoc split: option.split)

lemma key_holder_users: "key_holder (ensure_user player w) h = key_holder w h"
  by (simp add: key_holder_def ensure_user_def)

lemma db_hashes: "db_ok w \<Longrightarrow> hashes_unique w"
  by (simp add: db_ok_def keys_ok_def hashes_unique_def)

lemma hashes_users: "hashes_unique (ensure_user player w) = hashes_unique w"
  "hash_fresh (ensure_user player w) h = hash_fresh w h"
  by (simp_all add: hashes_unique_def hash_fresh_def ensure_user_def)

section \<open>Properties\<close>

text \<open>C13. Issuing a key: when the digest of the new token is not in the table, \<open>generate_key\<close>
  succeeds for every player, registered or not, and returns the token. Afterwards that token
  identifies the player, every other token that identified the player identifies nobody, and the
  tokens of all other players stand for whom they stood before.\<close>

theorem generate_key_replaces:
  fixes player :: string
  assumes "db_ok w" and "hash_fresh w (digest auth (generate_token random))"
  defines "after \<equiv> generate_key auth player random w"
  shows "fst after = Inr (generate_token random)
    \<and> token_player auth raw (snd after) =
       (if digest auth raw = digest auth (generate_token random) then Some player
        else if token_player auth raw w = Some player then None
        else token_player auth raw w)"
proof -
  let ?w = "ensure_user player w"
  have "hashes_unique ?w" "hash_fresh ?w (digest auth (generate_token random))"
    using assms(1,2) by (simp_all add: hashes_users db_hashes)
  from keys.replace_holder [OF this] show ?thesis
    unfolding after_def generate_key_run token_player_holder
    using assms(2) by (simp add: key_holder_users)
qed

definition sample_auth :: auth_config where
  "sample_auth = \<lparr>owner_character = ''Owner'', digest = (\<lambda>raw. rev raw)\<rparr>"

theorem generate_key_replaces_witness:
  "token_player sample_auth ''aomk_one'' (snd (generate_key sample_auth ''Ann'' ''two''
     (snd (generate_key sample_auth ''Ann'' ''one'' empty_world)))) = None"
proof -
  let ?w = "snd (generate_key sample_auth ''Ann'' ''one'' empty_world)"
  have "db_ok empty_world" by (simp add: db_defs empty_world_def table_rules)
  then have "db_ok ?w" using keepingD [OF auth_ok(1)] by blast
  moreover have "hash_fresh ?w (digest sample_auth (generate_token ''two''))" by code_simp
  moreover have "digest sample_auth ''aomk_one'' \<noteq> digest sample_auth (generate_token ''two'')" by code_simp
  moreover have "token_player sample_auth ''aomk_one'' ?w = Some ''Ann''" by code_simp
  ultimately show ?thesis
    using generate_key_replaces [of ?w sample_auth "''two''" "''Ann''" "''aomk_one''"] by (simp only: if_False if_True simp_thms)
qed

text \<open>C14. Revocation is immediate and exact: after \<open>revoke_keys\<close> no token stands for the player,
  and every other token stands for whom it stood before. The number returned is the number of
  keys that were active, and revoking again finds none.\<close>

theorem revoke_keys_spec:
  assumes "db_ok w"
  shows "token_player auth raw (snd (revoke_keys player w)) =
      (if token_player auth raw w = Some player then None else token_player auth raw w)
    \<and> fst (revoke_keys player w) = Inr (count_where (\<lambda>k. key_player k = player \<and> active k) (api_keys w))
    \<and> fst (revoke_keys player (snd (revoke_keys player w))) = Inr 0"
proof -
  have "count_where (\<lambda>k. key_player k = player \<and> active k) (api_keys (drop_keys player w)) = 0"
    by (auto simp: count_where_def drop_keys_def update_where_def filter_empty_conv active_def)
  then show ?thesis
    by (simp add: revoke_keys_def revoke_run token_player_holder keys.revoke_holder [OF db_hashes [OF assms]])
qed

theorem revoke_keys_spec_witness:
  "token_player sample_auth ''aomk_one'' (snd (revoke_keys ''Ann''
     (snd (generate_key sample_auth ''Ann'' ''one'' empty_world)))) = None"
proof -
  let ?w = "snd (generate_key sample_auth ''Ann'' ''one'' empty_world)"
  have "db_ok empty_world" by (simp add: db_defs empty_world_def table_rules)
  then have "db_ok ?w" using keepingD [OF auth_ok(1)] by blast
  moreover have "token_player sample_auth ''aomk_one'' ?w = Some ''Ann''" by code_simp
  ultimately show ?thesis
    using revoke_keys_spec [of ?w sample_auth "''aomk_one''" "''Ann''"] by (simp only: if_True simp_thms)
qed

end
