(* ===== verification/Invariants.thy ===== *)
theory Invariants
  imports Subscriptions Auth
begin

text \<open>
  Invariants of the database under everything the program does.

  The locale \<open>world_invariant\<close> states what a condition on the world has to satisfy: it does not
  depend on the outbox, and each writing method of the repositories keeps it (the filter methods
  for bounds as \<open>parse_range\<close> delivers them, the key methods as the auth service combines them).
  Its lemmas say that then every method of the services keeps it, whatever the clients answer.
  The theories of the commands and of the API go on in this locale.
\<close>

section \<open>Bounds of a filter\<close>

definition bounds_ok :: "int option \<Rightarrow> int option \<Rightarrow> bool" where
  "bounds_ok lo hi \<longleftrightarrow>
     null_or (\<lambda>a. 0 \<le> a) lo \<and> null_or (\<lambda>b. 0 \<le> b) hi
     \<and> (case (lo, hi) of (Some a, Some b) \<Rightarrow> a \<le> b | _ \<Rightarrow> True)"

lemma parse_range_bounds:
  assumes "\<And>v n. parser v = Inr (Some n) \<Longrightarrow> 0 \<le> n"
    and "parse_range spec parser = Inr (Some (lo, hi))"
  shows "bounds_ok lo hi"
  using assms(2) unfolding parse_range_Some_iff
  by (auto simp: parse_side_Some sides_ok_def bounds_ok_def dest: assms(1))

lemmas credit_bounds = parse_range_bounds [where parser = parse_credits, OF parse_credits_nonneg]
lemmas ql_bounds = parse_range_bounds [where parser = parse_ql, OF parse_ql_nonneg]

section \<open>The interface\<close>

locale world_invariant =
  fixes I :: "world \<Rightarrow> bool"
  assumes emit [keeps]: "keeping I (emit out)"
    and repo_register [keeps]: "keeping I (repo_register p)"
    and unregister_cascade [keeps]: "keeping I (unregister_cascade p)"
    and upsert_watch [keeps]: "keeping I (upsert_watch aoid n q i auto)"
    and delete_watches [keeps]: "keeping I (modify (delete_watches P))"
    and update_last_polled [keeps]: "keeping I (update_last_polled aoid ts)"
    and unflag_autotrack_not_in [keeps]: "keeping I (unflag_autotrack_not_in aoids)"
    and insert_snapshot [keeps]: "keeping I (insert_snapshot n1 n2 n3 n4 n5 f1 f2 n6 n7)"
    and prune_history [keeps]: "keeping I (prune_history cutoff)"
    and add_subscription [keeps]: "keeping I (add_subscription p aoid)"
    and delete_subscriptions [keeps]:
      "keeping I (modify (\<lambda>w. w\<lparr>subs := delete_where S (subs w)\<rparr>))"
    and update_price_filter: "bounds_ok lo hi \<Longrightarrow> keeping I (update_price_filter p aoid lo hi)"
    and update_ql_filter: "bounds_ok lo hi \<Longrightarrow> keeping I (update_ql_filter p aoid lo hi)"
    and repo_clear_filter [keeps]: "keeping I (repo_clear_filter p aoid)"
    and replace_seen_fingerprints [keeps]: "keeping I (replace_seen_fingerprints aoid fps)"
    and queue_pending_alert [keeps]: "keeping I (queue_pending_alert p aoid m)"
    and pop_pending_alerts [keeps]: "keeping I (pop_pending_alerts p)"
    and repo_log_action [keeps]: "keeping I (repo_log_action p a x)"
    and record_failure [keeps]: "keeping I (record_failure aoid)"
    and record_success [keeps]: "keeping I (record_success aoid)"
    and last_sync [keeps]: "keeping I (setting_set ''AutoTrackLastSync'' (SInt ts))"
    and generate_key [keeps]: "keeping I (generate_key auth p random)"
    and revoke_keys [keeps]: "keeping I (revoke_keys p)"
    and touch_last_used [keeps]: "keeping I (touch_last_used ident)"
begin

lemma chat [keeps]:
  "keeping I (send_privgroup env m)"
  "keeping I (send_tell env p m)"
  by (auto intro!: keeps simp: send_privgroup_def send_tell_def)

lemma announcements [keeps]:
  "keeping I (announce env p a x)"
  "keeping I (announce_background env m)"
  "keeping I (announce_tracked env n auto)"
  by (auto intro!: keeps simp: announce_def announce_background_def announce_tracked_def)

lemma log_action [keeps]: "keeping I (log_action env p a x)"
  by (auto intro!: keeps simp: log_action_def)

lemma tracking [keeps]:
  "keeping I (register env p)"
  "keeping I (unregister env p)"
  "keeping I (watch_item env aoid n q i auto)"
  "keeping I untrack_all"
  by (auto intro!: keeps simp: register_def unregister_def watch_item_def untrack_all_def clear_watch_def)

lemma delete_subscription [keeps]: "keeping I (delete_subscription p aoid)"
proof (rule keepingI)
  fix w assume "I w"
  then show "I (snd (delete_subscription p aoid w))"
    using keepingD [OF delete_subscriptions, of w "is_sub p aoid"]
    by (simp add: delete_subscription_def with_params_def)
qed

lemma delete_watch [keeps]: "keeping I (delete_watch aoid)"
proof (rule keepingI)
  fix w assume "I w"
  then show "I (snd (delete_watch aoid w))"
    using keepingD [OF delete_watches, of w "\<lambda>r. wat_aoid r = aoid"]
    by (simp add: delete_watch_def with_params_def)
qed

lemma subscriptions [keeps]:
  "keeping I (subscribe env p aoid)"
  "keeping I (unsubscribe env p aoid)"
  "keeping I (unsubscribe_all env p)"
  by (auto intro!: keeps simp: subscribe_def unsubscribe_def unsubscribe_all_def delete_all_subscriptions_def)

lemma unsubscribe_bulk [keeps]: "keeping I (unsubscribe_bulk env p aoids)"
  unfolding unsubscribe_bulk_def bulk_step_def by (intro keeps)

lemma filter_writes [keeps]:
  "keeping I (set_price_filter p aoid spec)"
  "keeping I (set_ql_filter p aoid spec)"
  "keeping I (clear_filter p aoid)"
proof -
  have "keeping I (bnd (lift (parse_range spec parse_credits)) (\<lambda>parsed. case parsed of
       None \<Rightarrow> raise (Market_Error (Invalid_Range spec))
     | Some (lo, hi) \<Rightarrow> update_price_filter p aoid lo hi))"
    by (cases "parse_range spec parse_credits")
      (auto intro!: keeps update_price_filter simp: credit_bounds split: option.split prod.split)
  then show "keeping I (set_price_filter p aoid spec)"
    unfolding set_price_filter_def by (rule keeping_bnd [OF read_only_service(3)])
  have "keeping I (bnd (lift (parse_range spec parse_ql)) (\<lambda>parsed. case parsed of
       None \<Rightarrow> raise (Market_Error (Invalid_Range spec))
     | Some (lo, hi) \<Rightarrow> update_ql_filter p aoid lo hi))"
    by (cases "parse_range spec parse_ql")
      (auto intro!: keeps update_ql_filter simp: ql_bounds split: option.split prod.split)
  then show "keeping I (set_ql_filter p aoid spec)"
    unfolding set_ql_filter_def by (rule keeping_bnd [OF read_only_service(3)])
  show "keeping I (clear_filter p aoid)"
    unfolding clear_filter_def by (intro keeps)
qed

lemma alerting [keeps]:
  "keeping I (alert_subscriber env aoid n os s k)"
  "keeping I (notify_subscribers env aoid n os)"
  "keeping I (detect_new_orders env aoid orders n)"
  "keeping I (deliver_pending_alerts env p)"
  by (auto intro!: keeps simp: alert_subscriber_def notify_subscribers_def detect_new_orders_def
      deliver_pending_alerts_def Let_def)

lemma snapshot [keeps]: "keeping I (snapshot aoid orders ql)"
  unfolding snapshot_def Let_def by (intro keeps)

lemma polling [keeps]:
  "keeping I (poll_item env now watch k)"
  "keeping I (expire_stale_watch cutoff)"
  "keeping I (poll_market env)"
  by (auto intro!: keeps simp: poll_item_def expire_stale_watch_def poll_market_def)

lemma resync [keeps]:
  "keeping I (record_lookup x resolved)"
  "keeping I (resolve_ranked env aoids)"
  "keeping I (track_resolved env existing y)"
  "keeping I (sync_top_traded_items env)"
  by (auto intro!: keeps simp: record_lookup_def resolve_ranked_def track_resolved_def
      sync_top_traded_items_def Let_def)

lemma authenticating [keeps]: "keeping I (authenticate auth raw)"
  by (auto intro!: keeps simp: authenticate_def)

end

section \<open>The tables are consistent\<close>

lemma emit_ok: "keeping db_ok (emit out)"
  by (rule keepingI) (simp add: emit_def db_defs)

interpretation consistent: world_invariant db_ok
  by unfold_locales (rule emit_ok keeps keeping_modify sub_deletes_ok | assumption)+


section \<open>Filters are ordered\<close>

definition filter_ok :: "sub_row \<Rightarrow> bool" where
  "filter_ok s \<longleftrightarrow> bounds_ok (sub_min_price s) (sub_max_price s) \<and> bounds_ok (sub_min_ql s) (sub_max_ql s)"

definition filters_ok :: "world \<Rightarrow> bool" where
  "filters_ok w \<longleftrightarrow> list_all filter_ok (subs w)"

lemmas leaf_defs = emit_def repo_register_def unregister_cascade_def delete_users_def upsert_watch_def
  get_watch_def delete_watches_def update_last_polled_def unflag_autotrack_not_in_def insert_snapshot_def
  prune_history_def add_subscription_def replace_seen_fingerprints_def queue_pending_alert_def
  pop_pending_alerts_def repo_log_action_def record_success_def touch_last_used_def revoke_keys_def
  revoke_run drop_keys_def with_params_def update_subs_def update_price_filter_def update_ql_filter_def
  repo_clear_filter_def Let_def

lemma record_failure_tables:
  "subs (snd (record_failure aoid w)) = subs w \<and> api_keys (snd (record_failure aoid w)) = api_keys w"
  by (cases "record_failure aoid w"; cases "fst (record_failure aoid w)")
    (auto dest: record_failure_Inr record_failure_Inl)

lemma setting_set_tables:
  "subs (snd (setting_set key v w)) = subs w \<and> api_keys (snd (setting_set key v w)) = api_keys w"
  by (simp add: setting_set_simp split: option.split sum.split)

lemma generate_key_subs: "subs (snd (generate_key auth p random w)) = subs w"
  by (simp add: generate_key_run put_key_def drop_keys_def ensure_user_def)

lemma update_filters: "(\<And>s. filter_ok s \<Longrightarrow> filter_ok (f s)) \<Longrightarrow> keeping filters_ok (update_subs p aoid f)"
  by (auto intro!: keeping_modify simp: update_subs_def filters_ok_def table_rules)

lemma filter_updates_ok:
  "bounds_ok lo hi \<Longrightarrow> keeping filters_ok (update_price_filter p aoid lo hi)"
  "bounds_ok lo hi \<Longrightarrow> keeping filters_ok (update_ql_filter p aoid lo hi)"
  "keeping filters_ok (repo_clear_filter p aoid)"
  by (auto intro!: keeps update_filters simp: update_price_filter_def update_ql_filter_def
      repo_clear_filter_def filter_ok_def) (auto simp: bounds_ok_def)

lemma new_sub_filter: "filter_ok (new_sub p aoid ident now)"
  by (simp add: filter_ok_def new_sub_def bounds_ok_def)

interpretation filters: world_invariant filters_ok
proof unfold_locales
  fix lo hi p aoid assume "bounds_ok lo hi"
  then show "keeping filters_ok (update_price_filter p aoid lo hi)"
    "keeping filters_ok (update_ql_filter p aoid lo hi)"
    by (rule filter_updates_ok)+
qed (rule filter_updates_ok
    | (rule keepingI, simp add: leaf_defs filters_ok_def table_rules new_sub_filter bnd_def
        record_failure_tables setting_set_tables generate_key_subs))+

section \<open>At most one key is active\<close>

lemma revoked_filter: "filter active (update_where (\<lambda>k. key_player k = p \<and> active k)
    (\<lambda>k. k\<lparr>key_revoked_at := Some c\<rparr>) rows) = filter (\<lambda>k. key_player k \<noteq> p) (filter active rows)"
  by (induction rows) (auto simp: update_where_def active_def)

lemma active_filter_update:
  assumes "\<And>k. active (f k) = active k \<and> key_player (f k) = key_player k"
  shows "map key_player (filter active (update_where P f rows)) = map key_player (filter active rows)"
  using assms by (induction rows) (auto simp: update_where_def)

lemma distinct_both:
  "distinct (map f (filter P xs)) \<Longrightarrow> distinct (map f (filter (\<lambda>x. P x \<and> Q x) xs))"
  "distinct (map f (filter P xs)) \<Longrightarrow> distinct (map f (filter (\<lambda>x. Q x \<and> P x) xs))"
  by (induction xs) (auto split: if_splits)

lemma one_active_drop: "unique key_player (filter active rows) \<Longrightarrow>
  unique key_player (filter active (update_where (\<lambda>k. key_player k = p \<and> active k)
    (\<lambda>k. k\<lparr>key_revoked_at := Some c\<rparr>) rows))"
  by (simp add: unique_def revoked_filter distinct_both)

lemma one_active_generate: "one_active w \<Longrightarrow> one_active (snd (generate_key auth p random w))"
  by (auto simp: generate_key_run one_active_def put_key_def drop_keys_def ensure_user_def revoked_filter
      unique_def distinct_both new_key_def)

lemma one_active_touch: "keeping one_active (touch_last_used ident)"
  by (rule keepingI) (simp add: touch_last_used_def one_active_def unique_def active_filter_update active_def)

lemma one_active_delete:
  "unique key_player (filter active rows) \<Longrightarrow> unique key_player (filter active (delete_where P rows))"
  by (simp add: unique_def delete_where_def distinct_both)

interpretation single_key: world_invariant one_active
  by unfold_locales
    (rule one_active_touch
    | (rule keepingI, simp add: leaf_defs one_active_def bnd_def record_failure_tables setting_set_tables
        one_active_generate [unfolded one_active_def] one_active_delete one_active_drop))+

end
