(* ===== verification/Alerts.thy ===== *)
theory Alerts
  imports Invariants "HOL-Library.Multiset"
begin

text \<open>
  What the alerting of \<open>market/service.py\<close> delivers, and which orders count as new.
\<close>

section \<open>The sinks at work\<close>

text \<open>Both sinks are set and answer; \<open>on\<close> says who is online.\<close>

definition chat_up :: "env \<Rightarrow> (string \<Rightarrow> bool) \<Rightarrow> bool" where
  "chat_up env on \<longleftrightarrow>
     (\<forall>p. (case online_sink env of None \<Rightarrow> False | Some f \<Rightarrow> f p = Inr (on p)))
     \<and> (\<forall>p m. (case tell_sink env of None \<Rightarrow> False | Some f \<Rightarrow> f p m = Inr ()))"

text \<open>The order in which a set is walked through is some order of its elements.\<close>

definition orders_sets :: "env \<Rightarrow> bool" where
  "orders_sets env \<longleftrightarrow> (\<forall>xs. mset (string_set_order env xs) = mset xs)"

definition pending :: "world \<Rightarrow> (string \<times> int \<times> string) list" where
  "pending w = map (\<lambda>a. (alr_player a, alr_aoid a, alr_message a)) (alerts w)"

definition concerned :: "new_order list \<Rightarrow> sub_row \<Rightarrow> bool" where
  "concerned new_orders s \<longleftrightarrow> (\<exists>o' \<in> set new_orders. matches_sub s o')"

definition alert_text :: "int \<Rightarrow> string \<Rightarrow> new_order list \<Rightarrow> sub_row \<Rightarrow> string" where
  "alert_text aoid name new_orders s = format_alert name aoid (filter (matches_sub s) new_orders)"

lemma concerned_filter: "filter (matches_sub s) new_orders \<noteq> [] \<longleftrightarrow> concerned new_orders s"
  by (auto simp: concerned_def filter_empty_conv)

lemma chat_upD:
  assumes "chat_up env on"
  shows "is_online env p = ret (on p)" and "send_tell env p m = emit (Tell p m)"
proof -
  from assms have 1: "case online_sink env of None \<Rightarrow> False | Some f \<Rightarrow> f p = Inr (on p)"
    and 2: "case tell_sink env of None \<Rightarrow> False | Some f \<Rightarrow> f p m = Inr ()"
    unfolding chat_up_def by blast+
  from 1 show "is_online env p = ret (on p)"
    by (auto simp: is_online_def fun_eq_iff split: option.splits)
  from 2 show "send_tell env p m = emit (Tell p m)"
    by (auto simp: send_tell_def split: option.splits)
qed

lemma alert_subscriber_run:
  assumes "chat_up env on" and "int8 aoid"
  shows "\<exists>w'. alert_subscriber env aoid name new_orders s k w =
      (Inr (k + (if concerned new_orders s then 1 else 0)), w')
    \<and> outbox w' = outbox w @ (if concerned new_orders s \<and> on (sub_player s)
        then [Tell (sub_player s) (alert_text aoid name new_orders s)] else [])
    \<and> pending w' = pending w @ (if concerned new_orders s \<and> \<not> on (sub_player s)
        then [(sub_player s, aoid, alert_text aoid name new_orders s)] else [])
    \<and> seen w' = seen w \<and> subs w' = subs w \<and> watches w' = watches w \<and> clock w' = clock w"
proof (cases "concerned new_orders s")
  case False
  then have "filter (matches_sub s) new_orders = []" using concerned_filter by blast
  with False show ?thesis by (simp add: alert_subscriber_def)
next
  case True
  then have "filter (matches_sub s) new_orders \<noteq> []" using concerned_filter by blast
  then show ?thesis
    using True assms(2)
    by (simp add: alert_subscriber_def Let_def chat_upD [OF assms(1)] emit_def queue_pending_alert_def
        alert_text_def pending_def)
qed

lemma alert_loop:
  assumes "chat_up env on" and "int8 aoid"
  shows "\<exists>w'. fold_eff (alert_subscriber env aoid name new_orders) found k w =
      (Inr (k + count_where (concerned new_orders) found), w')
    \<and> outbox w' = outbox w @ map (\<lambda>s. Tell (sub_player s) (alert_text aoid name new_orders s))
        (filter (\<lambda>s. concerned new_orders s \<and> on (sub_player s)) found)
    \<and> pending w' = pending w @ map (\<lambda>s. (sub_player s, aoid, alert_text aoid name new_orders s))
        (filter (\<lambda>s. concerned new_orders s \<and> \<not> on (sub_player s)) found)
    \<and> seen w' = seen w \<and> subs w' = subs w \<and> watches w' = watches w \<and> clock w' = clock w"
proof (induction found arbitrary: k w)
  case (Cons s found)
  obtain u where "alert_subscriber env aoid name new_orders s k w =
      (Inr (k + (if concerned new_orders s then 1 else 0)), u)"
    and u: "outbox u = outbox w @ (if concerned new_orders s \<and> on (sub_player s)
        then [Tell (sub_player s) (alert_text aoid name new_orders s)] else [])"
      "pending u = pending w @ (if concerned new_orders s \<and> \<not> on (sub_player s)
        then [(sub_player s, aoid, alert_text aoid name new_orders s)] else [])"
      "seen u = seen w" "subs u = subs w" "watches u = watches w" "clock u = clock w"
    using alert_subscriber_run [OF assms, of name new_orders s k w] by blast
  then show ?case
    using Cons.IH [of "k + (if concerned new_orders s then 1 else 0)" u]
    by (auto simp: bnd_apply count_where_def)
qed (simp add: count_where_def)

lemma notify_run:
  fixes w :: world
  assumes "chat_up env on" and "int8 aoid"
  defines "found \<equiv> filter (\<lambda>s. sub_aoid s = aoid) (subs w)"
  shows "\<exists>w'. notify_subscribers env aoid name new_orders w =
      (Inr (count_where (concerned new_orders) found), w')
    \<and> outbox w' = outbox w @ map (\<lambda>s. Tell (sub_player s) (alert_text aoid name new_orders s))
        (filter (\<lambda>s. concerned new_orders s \<and> on (sub_player s)) found)
    \<and> pending w' = pending w @ map (\<lambda>s. (sub_player s, aoid, alert_text aoid name new_orders s))
        (filter (\<lambda>s. concerned new_orders s \<and> \<not> on (sub_player s)) found)
    \<and> seen w' = seen w \<and> subs w' = subs w \<and> watches w' = watches w \<and> clock w' = clock w"
  using alert_loop [OF assms(1,2), of name new_orders found 0 w] assms(2)
  by (simp add: notify_subscribers_def subscribers_for_aoid_def found_def)

section \<open>New orders\<close>

text \<open>The orders of a book whose fingerprints are not among the given ones, in the order of walking.\<close>

definition fingerprints :: "orders \<Rightarrow> string list" where
  "fingerprints os = map fst (fingerprint_map os)"

definition unseen_orders :: "env \<Rightarrow> orders \<Rightarrow> string set \<Rightarrow> new_order list" where
  "unseen_orders env os before =
     map (\<lambda>fp. the (map_of (fingerprint_map os) fp))
       (string_set_order env (filter (\<lambda>fp. fp \<notin> before) (fingerprints os)))"

lemma detect_run:
  assumes up: "chat_up env on" and ok: "int8 aoid" and perm: "orders_sets env"
  shows "\<exists>n u. detect_new_orders env aoid os name w =
      (Inr (), replace_seen aoid (string_set_order env (fingerprints os)) u)
    \<and> (if seen_set w aoid = {} \<or> unseen_orders env os (seen_set w aoid) = [] then u = w
       else notify_subscribers env aoid name (unseen_orders env os (seen_set w aoid)) w = (Inr n, u))"
proof -
  define before where "before = map seen_fingerprint (filter (\<lambda>r. seen_aoid r = aoid) (seen w))"
  have set_before: "set before = seen_set w aoid"
    by (simp add: before_def seen_set_def)
  define news where "news = string_set_order env (filter (\<lambda>fp. fp \<notin> set before) (fingerprints os))"
  have unseen: "unseen_orders env os (seen_set w aoid) = map (\<lambda>fp. the (map_of (fingerprint_map os) fp)) news"
    by (simp add: unseen_orders_def news_def set_before)
  have get: "get_seen_fingerprints aoid w = (Inr before, w)"
    using ok by (simp add: get_seen_fingerprints_def before_def)
  obtain n u where note_u: "notify_subscribers env aoid name (unseen_orders env os (seen_set w aoid)) w = (Inr n, u)"
    using notify_run [OF up ok] by blast
  show ?thesis
  proof (cases "before = [] \<or> news = []")
    case True
    then have "seen_set w aoid = {} \<or> unseen_orders env os (seen_set w aoid) = []"
      using set_before unseen by auto
    moreover have "detect_new_orders env aoid os name w =
        (Inr (), replace_seen aoid (string_set_order env (fingerprints os)) w)"
      using True get ok
      by (auto simp: detect_new_orders_def Let_def bnd_def get replace_seen_run
          fingerprints_def news_def)
    ultimately show ?thesis by auto
  next
    case False
    then have "\<not> (seen_set w aoid = {} \<or> unseen_orders env os (seen_set w aoid) = [])"
      using set_before unseen by auto
    moreover have "detect_new_orders env aoid os name w =
        (Inr (), replace_seen aoid (string_set_order env (fingerprints os)) u)"
      using False get ok note_u unseen
      by (simp add: detect_new_orders_def Let_def bnd_def get replace_seen_run
          fingerprints_def news_def)
    ultimately show ?thesis using note_u by auto
  qed
qed


lemma order_set: "orders_sets env \<Longrightarrow> set (string_set_order env xs) = set xs"
  unfolding orders_sets_def by (metis set_mset_mset)

lemma replace_seen_frame [simp]:
  "outbox (replace_seen aoid fps w) = outbox w" "pending (replace_seen aoid fps w) = pending w"
  "subs (replace_seen aoid fps w) = subs w" "watches (replace_seen aoid fps w) = watches w"
  by (simp_all add: replace_seen_def pending_def)

lemma dict_put_nonempty: "dict_put k v d \<noteq> []"
  by (cases d) (auto split: if_splits)

lemma dict_fold_empty: "fold (\<lambda>x. dict_put (f x) (g x)) xs d = [] \<longleftrightarrow> xs = [] \<and> d = []"
  by (induction xs arbitrary: d) (auto simp: dict_put_nonempty)

lemma fingerprints_empty: "fingerprints os = [] \<longleftrightarrow> sell_orders os = [] \<and> buy_orders os = []"
  by (auto simp: fingerprints_def fingerprint_map_def dict_fold_empty)

section \<open>Properties\<close>

text \<open>C20. Alerting is complete and precise: every subscriber of the item with at least one order inside
  his price and level bounds gets exactly one message listing exactly those orders, as a tell when he
  is online and queued otherwise; nobody else gets anything, the number returned is the number of
  subscribers alerted, and subscriptions and fingerprints are left alone.\<close>

theorem notify_delivers:
  assumes "chat_up env on" and "int8 aoid"
  shows "\<exists>w'. notify_subscribers env aoid name new_orders w =
      (Inr (count_where (concerned new_orders) (filter (\<lambda>s. sub_aoid s = aoid) (subs w))), w')
    \<and> outbox w' = outbox w @
        map (\<lambda>s. Tell (sub_player s) (format_alert name aoid (filter (matches_sub s) new_orders)))
          (filter (\<lambda>s. sub_aoid s = aoid \<and> concerned new_orders s \<and> on (sub_player s)) (subs w))
    \<and> pending w' = pending w @
        map (\<lambda>s. (sub_player s, aoid, format_alert name aoid (filter (matches_sub s) new_orders)))
          (filter (\<lambda>s. sub_aoid s = aoid \<and> concerned new_orders s \<and> \<not> on (sub_player s)) (subs w))
    \<and> subs w' = subs w \<and> seen w' = seen w"
proof -
  have two: "filter Q (filter P xs) = filter (\<lambda>x. P x \<and> Q x) xs" for P Q and xs :: "sub_row list"
    by (simp add: filter_filter conj_commute)
  from notify_run [OF assms, of name new_orders w] obtain w' where
    "notify_subscribers env aoid name new_orders w =
      (Inr (count_where (concerned new_orders) (filter (\<lambda>s. sub_aoid s = aoid) (subs w))), w')"
    "outbox w' = outbox w @ map (\<lambda>s. Tell (sub_player s) (alert_text aoid name new_orders s))
        (filter (\<lambda>s. concerned new_orders s \<and> on (sub_player s)) (filter (\<lambda>s. sub_aoid s = aoid) (subs w)))"
    "pending w' = pending w @ map (\<lambda>s. (sub_player s, aoid, alert_text aoid name new_orders s))
        (filter (\<lambda>s. concerned new_orders s \<and> \<not> on (sub_player s)) (filter (\<lambda>s. sub_aoid s = aoid) (subs w)))"
    "seen w' = seen w" "subs w' = subs w"
    by blast
  then show ?thesis
    unfolding two alert_text_def by (intro exI [of _ w']) simp
qed

definition alert_env :: env where
  "alert_env = sample_env\<lparr>online_sink := Some (\<lambda>p. Inr (p = ''Ann'')), tell_sink := Some (\<lambda>p m. Inr ())\<rparr>"

definition alert_world :: world where
  "alert_world = empty_world\<lparr>subs := [new_sub ''Ann'' 100 1 0, new_sub ''Bob'' 100 2 0, new_sub ''Ann'' 7 3 0]\<rparr>"

definition cheap_offer :: new_order where
  "cheap_offer = \<lparr>no_side = ''sell'', no_price = 5, no_min_ql = 10, no_max_ql = 10\<rparr>"

theorem notify_delivers_witness:
  "fst (notify_subscribers alert_env 100 ''Ring'' [cheap_offer] alert_world) = Inr 2"
proof -
  have "chat_up alert_env (\<lambda>p. p = ''Ann'')" by (simp add: chat_up_def alert_env_def)
  from notify_delivers [OF this, of 100 "''Ring''" "[cheap_offer]" alert_world]
  show ?thesis
    by (auto simp: int8_def alert_world_def empty_world_def new_sub_def count_where_def cheap_offer_def
        concerned_def matches_sub_def order_matches_filter_def)
qed

text \<open>C21. Between two polls of an item, whatever happens to other items: the second poll alerts about
  exactly the orders whose fingerprint the first did not show, each once. When the first poll found
  an empty book, however, nothing counts as new at the second: an empty book is taken for an item
  never polled, so the first orders after a quiet time are announced to nobody.\<close>

theorem new_orders_since_last_poll:
  assumes "chat_up env on" and "int8 aoid" and "orders_sets env"
    and "detect_new_orders env aoid os1 name1 w = (Inr (), w1)"
    and "seen_set v aoid = seen_set w1 aoid"
  shows "\<exists>v' news. detect_new_orders env aoid os2 name2 v = (Inr (), v')
    \<and> mset news = mset [the (map_of (fingerprint_map os2) fp). fp \<leftarrow> fingerprints os2,
        fp \<notin> set (fingerprints os1)]
    \<and> (if sell_orders os1 = [] \<and> buy_orders os1 = [] then outbox v' = outbox v \<and> pending v' = pending v
       else outbox v' = outbox (snd (notify_subscribers env aoid name2 news v))
          \<and> pending v' = pending (snd (notify_subscribers env aoid name2 news v)))
    \<and> seen_set v' aoid = set (fingerprints os2)"
proof -
  have w1: "seen_set w1 aoid = set (fingerprints os1)"
    using detect_run [OF assms(1-3), of os1 name1 w] assms(4) seen.look_same order_set [OF assms(3)]
    by auto
  define news where "news = unseen_orders env os2 (set (fingerprints os1))"
  have list: "concat (map (\<lambda>fp. if P fp then [g fp] else []) xs) = map g (filter P xs)"
    for P :: "string \<Rightarrow> bool" and g :: "string \<Rightarrow> new_order" and xs
    by (induction xs) auto
  have news_mset: "mset news = mset [the (map_of (fingerprint_map os2) fp). fp \<leftarrow> fingerprints os2,
      fp \<notin> set (fingerprints os1)]"
    using assms(3) by (simp add: news_def unseen_orders_def orders_sets_def list)
  obtain n u where run: "detect_new_orders env aoid os2 name2 v =
      (Inr (), replace_seen aoid (string_set_order env (fingerprints os2)) u)"
    and u: "if seen_set v aoid = {} \<or> news = [] then u = v
       else notify_subscribers env aoid name2 news v = (Inr n, u)"
    using detect_run [OF assms(1-3), of os2 name2 v] unfolding news_def w1 [symmetric] assms(5)
    by blast
  have quiet: "outbox (snd (notify_subscribers env aoid name2 [] v)) = outbox v
      \<and> pending (snd (notify_subscribers env aoid name2 [] v)) = pending v"
    using notify_run [OF assms(1,2), of name2 "[]" v] by (auto simp: concerned_def)
  have empty: "seen_set v aoid = {} \<longleftrightarrow> sell_orders os1 = [] \<and> buy_orders os1 = []"
    using fingerprints_empty [of os1] w1 assms(5) by simp
  have "seen_set (replace_seen aoid (string_set_order env (fingerprints os2)) u) aoid = set (fingerprints os2)"
    by (simp add: seen.look_same order_set [OF assms(3)])
  moreover have "if sell_orders os1 = [] \<and> buy_orders os1 = [] then outbox u = outbox v \<and> pending u = pending v
       else outbox u = outbox (snd (notify_subscribers env aoid name2 news v))
          \<and> pending u = pending (snd (notify_subscribers env aoid name2 news v))"
  proof (cases "news = []")
    case True
    with u have "u = v" by simp
    with quiet show ?thesis unfolding True by simp
  next
    case False
    with u empty show ?thesis by (auto split: if_splits)
  qed
  ultimately show ?thesis
    using run news_mset by (intro exI [of _ "replace_seen aoid (string_set_order env (fingerprints os2)) u"]
        exI [of _ news]) simp
qed

definition one_offer :: "int \<Rightarrow> orders" where
  "one_offer price = \<lparr>sell_orders = [\<lparr>so_price = price, so_ql = 10, so_count = 1, so_seller = ''Zed''\<rparr>], buy_orders = []\<rparr>"

theorem new_orders_since_last_poll_witness:
  "seen_set (snd (detect_new_orders alert_env 100 (one_offer 6) ''Ring''
     (snd (detect_new_orders alert_env 100 (one_offer 5) ''Ring'' alert_world)))) 100
   = set (fingerprints (one_offer 6))"
proof -
  let ?one = "detect_new_orders alert_env 100 (one_offer 5) ''Ring'' alert_world"
  have up: "chat_up alert_env (\<lambda>p. p = ''Ann'')" by (simp add: chat_up_def alert_env_def)
  have "orders_sets alert_env" by (simp add: orders_sets_def alert_env_def sample_env_def)
  moreover have "int8 100" by (simp add: int8_def)
  moreover have "fst ?one = Inr ()" by code_simp
  then have "?one = (Inr (), snd ?one)" by (simp add: prod_eq_iff)
  ultimately obtain v' where "detect_new_orders alert_env 100 (one_offer 6) ''Ring'' (snd ?one) = (Inr (), v')"
    and "seen_set v' 100 = set (fingerprints (one_offer 6))"
    using new_orders_since_last_poll [OF up, of 100 "one_offer 5" "''Ring''" alert_world "snd ?one" "snd ?one"
        "one_offer 6" "''Ring''"] by blast
  then show ?thesis by simp
qed

end
