(* ===== verification/Rendering.thy ===== *)
theory Rendering
  imports Polling Settings "HOL-Library.Char_ord" "HOL-Library.List_Lexorder"
begin

text \<open>
  \<open>market/rendering.py\<close>: the texts of the replies, and the calendar date the key list shows.
\<close>

section \<open>Lists of lines\<close>

definition two_lines :: "string \<Rightarrow> string \<Rightarrow> string" where
  "two_lines a b = a @ [newline] @ b"

definition blank_line :: "string \<Rightarrow> string \<Rightarrow> string" where
  "blank_line a b = a @ [newline, newline] @ b"

definition count_text :: "'a list \<Rightarrow> string" where
  "count_text xs = nat_str (length xs)"

fun comma_separated :: "string list \<Rightarrow> string" where
  "comma_separated [] = []"
| "comma_separated [s] = s"
| "comma_separated (s # ss) = s @ '', '' @ comma_separated ss"

section \<open>Replies\<close>

definition search_line :: "item \<Rightarrow> string" where
  "search_line i = it_name i @ '' QL'' @ int_str (it_ql i) @ '' [aoid '' @ int_str (it_aoid i) @ '']''"

definition render_search_results :: "item list \<Rightarrow> string" where
  "render_search_results items =
     (if items = [] then ''No searchable item(s) found corresponding to your keyword(s)''
      else two_lines (count_text items @ '' matching item(s):'') (join_lines (map search_line items)))"

definition render_summary :: "orders \<Rightarrow> string" where
  "render_summary os = join_lines
     [if sell_orders os \<noteq> []
      then ''Best sell: '' @ format_credits (Min (so_price ` set (sell_orders os))) @ '' (''
        @ count_text (sell_orders os) @ '' sell order(s))''
      else ''No sell orders'',
      if buy_orders os \<noteq> []
      then ''Best buy: '' @ format_credits (Max (bu_price ` set (buy_orders os))) @ '' (''
        @ count_text (buy_orders os) @ '' buy order(s))''
      else ''No buy orders'']"

definition render_overview :: "string \<Rightarrow> int \<Rightarrow> int \<Rightarrow> orders option \<Rightarrow> string" where
  "render_overview item_name aoid ql found =
     (let header = '':: '' @ item_name @ '' :: QL'' @ int_str ql @ '' (aoid '' @ int_str aoid @ '')'' in
      (case found of
         None \<Rightarrow> blank_line header ''Market data currently unavailable, please try again later.''
       | Some os \<Rightarrow> blank_line header (render_summary os)))"

definition or_any :: "('a \<Rightarrow> string) \<Rightarrow> 'a option \<Rightarrow> string" where
  "or_any f x = (case x of None \<Rightarrow> ''any'' | Some v \<Rightarrow> f v)"

definition describe_filter ::
  "int option \<Rightarrow> int option \<Rightarrow> int option \<Rightarrow> int option \<Rightarrow> string" where
  "describe_filter min_price max_price min_ql max_ql =
     (if min_price = None \<and> max_price = None \<and> min_ql = None \<and> max_ql = None
      then ''No filter set - you'll be notified of every new order.''
      else ''Filter: '' @ comma_separated
        ((if min_price \<noteq> None \<or> max_price \<noteq> None
          then [''price '' @ or_any format_credits min_price @ ''-'' @ or_any format_credits max_price] else [])
         @ (if min_ql \<noteq> None \<or> max_ql \<noteq> None
            then [''QL '' @ or_any int_str min_ql @ ''-'' @ or_any int_str max_ql] else [])))"

definition describe_sub :: "sub_row \<Rightarrow> string" where
  "describe_sub s = describe_filter (sub_min_price s) (sub_max_price s) (sub_min_ql s) (sub_max_ql s)"

definition render_watchlist :: "sub_row list \<Rightarrow> string" where
  "render_watchlist subscriptions =
     (if subscriptions = [] then ''Your watchlist is empty. Try 'market watch <item>' to add one.''
      else two_lines (count_text subscriptions @ '' item(s) watched:'')
        (join_lines (map (\<lambda>s. ''aoid '' @ int_str (sub_aoid s) @ '' - '' @ describe_sub s) subscriptions)))"

definition render_status_summary :: "market_status \<Rightarrow> string" where
  "render_status_summary summary = two_lines
     (''Total tracked: '' @ int_str (total_tracked summary) @ '' (auto: ''
       @ int_str (auto_tracked_items summary) @ '', manual: '' @ int_str (manually_tracked summary) @ '')'')
     (''Auto-track: '' @ (if auto_track_enabled summary then ''On'' else ''Off'') @ '' (target ''
       @ int_str (auto_track_count summary) @ '' items)'')"

text \<open>\<open>repr\<close> of a setting.\<close>

definition value_repr :: "setting_value \<Rightarrow> string" where
  "value_repr v = (case v of
      SBool b \<Rightarrow> if b then ''True'' else ''False''
    | SInt n \<Rightarrow> int_str n
    | SFloat s \<Rightarrow> s
    | SStr s \<Rightarrow> py_repr s)"

definition setting_line :: "string \<Rightarrow> setting_value \<Rightarrow> string" where
  "setting_line key v = key @ '' = '' @ value_repr v"

text \<open>The keys of a dict are distinct, so \<open>sorted(settings.items())\<close> compares keys only.\<close>

definition render_settings_list :: "(string \<times> setting_value) list \<Rightarrow> string" where
  "render_settings_list kvs =
     (if kvs = [] then ''No settings found.''
      else two_lines (count_text kvs @ '' setting(s):'')
        (join_lines (map (\<lambda>(key, v). setting_line key v) (sort_key fst kvs))))"

definition render_user_stats :: "string \<Rightarrow> user_statistics \<Rightarrow> string" where
  "render_user_stats player stats = join_lines
     ([''Market activity: '' @ player,
       ''Total actions: '' @ int_str (total_actions stats),
       ''Active subscriptions: '' @ int_str (active_subscriptions stats),
       []]
      @ map (\<lambda>(action, n). action @ '': '' @ int_str n) (by_action stats))"

section \<open>Dates\<close>

text \<open>
  \<open>strftime("%Y-%m-%d")\<close> of a UTC instant, for years with four digits. The days since the epoch
  are counted in eras of 400 years that begin on a 1st of March.
\<close>

definition civil_date :: "int \<Rightarrow> int \<times> int \<times> int" where
  "civil_date t =
     (let z = t div day + 719468;
          era = z div 146097;
          doe = z mod 146097;
          yoe = (doe - doe div 1460 + doe div 36524 - doe div 146096) div 365;
          doy = doe - (365 * yoe + yoe div 4 - yoe div 100);
          mp = (5 * doy + 2) div 153;
          d = doy - (153 * mp + 2) div 5 + 1;
          m = (if mp < 10 then mp + 3 else mp - 9);
          y = yoe + era * 400 + (if m \<le> 2 then 1 else 0)
      in (y, m, d))"

definition two_digits :: "int \<Rightarrow> string" where
  "two_digits n = (if n < 10 then ''0'' @ int_str n else int_str n)"

definition date_str :: "int \<Rightarrow> string" where
  "date_str t = (case civil_date t of (y, m, d) \<Rightarrow> int_str y @ ''-'' @ two_digits m @ ''-'' @ two_digits d)"

end
