(* ===== verification/Commands.thy ===== *)
theory Commands
  imports Rendering Auth
begin

text \<open>
  \<open>market/commands.py\<close>: the \<open>market\<close>/\<open>mkt\<close> chat commands. A message is tried against the patterns
  in the order of the dictionary; the first that matches names the handler and its groups.

  The random part of a new API key is the argument \<open>random\<close>.
\<close>

section \<open>Patterns\<close>

definition PREFIX :: re where
  "PREFIX = Cat (Alt (Lit ''market'') (Lit ''mkt'')) Spaces"

definition Confirm :: re where
  "Confirm = Opt (Cat Spaces (Grp 1 (Lit ''confirm'')))"

definition Arg :: "nat \<Rightarrow> re" where
  "Arg n = Grp n Digits"

definition Rest :: "nat \<Rightarrow> re" where
  "Rest n = Grp n (Plus Any)"

definition is_separator :: "char \<Rightarrow> bool" where
  "is_separator c \<longleftrightarrow> is_space c \<or> c = CHR '',''"

definition Separators :: re where "Separators = Plus (Cls is_separator)"

definition PATTERNS :: "(string \<times> re) list" where
  "PATTERNS =
    [(''register'', Seq [PREFIX, Lit ''register'', Spaces0, Eol]),
     (''unregister'', Seq [PREFIX, Lit ''unregister'', Confirm, Spaces0, Eol]),
     (''untrack_all'', Seq [PREFIX, Lit ''untrack'', Spaces, Lit ''all'', Confirm, Spaces0, Eol]),
     (''apikey_generate'', Seq [PREFIX, Lit ''apikey'', Spaces, Lit ''generate'', Spaces0, Eol]),
     (''apikey_revoke'', Seq [PREFIX, Lit ''apikey'', Spaces, Lit ''revoke'', Confirm, Spaces0, Eol]),
     (''apikey_list'', Seq [PREFIX, Lit ''apikey'', Spaces, Lit ''list'', Spaces0, Eol]),
     (''status_details'', Seq [PREFIX, Lit ''status'', Spaces, Lit ''details'', Spaces0, Eol]),
     (''status'', Seq [PREFIX, Lit ''status'', Spaces0, Eol]),
     (''watchlist'', Seq [PREFIX, Lit ''watchlist'', Spaces0, Eol]),
     (''user_stats'', Seq [PREFIX, Lit ''user'', Spaces, Lit ''stats'', Spaces0, Grp 1 (Star Any), Eol]),
     (''filter_price'', Seq [PREFIX, Lit ''filter'', Spaces, Lit ''price'', Spaces, Arg 1, Spaces, Rest 2, Eol]),
     (''filter_ql'', Seq [PREFIX, Lit ''filter'', Spaces, Lit ''ql'', Spaces, Arg 1, Spaces, Rest 2, Eol]),
     (''filter_clear'', Seq [PREFIX, Lit ''filter'', Spaces, Lit ''clear'', Spaces, Arg 1, Spaces0, Eol]),
     (''filter_show'', Seq [PREFIX, Lit ''filter'', Spaces, Arg 1, Spaces0, Eol]),
     (''unwatch_all'', Seq [PREFIX, Lit ''unwatch'', Spaces, Lit ''all'', Confirm, Spaces0, Eol]),
     (''unwatch_bulk'', Seq [PREFIX, Lit ''unwatch'', Spaces,
        Grp 1 (Cat Digits (Plus (Cat Separators Digits))), Spaces0, Eol]),
     (''unwatch'', Seq [PREFIX, Lit ''unwatch'', Spaces, Arg 1, Spaces0, Eol]),
     (''watch_aoid'', Seq [PREFIX, Lit ''watch'', Spaces, Arg 1, Spaces0, Eol]),
     (''watch_search'', Seq [PREFIX, Lit ''watch'', Spaces, Rest 1, Eol]),
     (''overview'', Seq [PREFIX, Arg 1, Spaces0, Eol]),
     (''search'', Seq [PREFIX, Rest 1, Eol])]"

section \<open>Replies to errors\<close>

definition format_error :: "market_error \<Rightarrow> string" where
  "format_error exc = (case exc of
      Unknown_Item aoid \<Rightarrow> ''Unknown item ID '' @ int_str aoid @ ''. Try 'market <item name>' to search first.''
    | Not_Registered _ \<Rightarrow> ''You need to register first - try 'market register'.''
    | Already_Registered _ \<Rightarrow> ''You're already registered.''
    | Already_Watching aoid \<Rightarrow> ''You're already watching aoid '' @ int_str aoid @ ''.''
    | Not_Watching aoid \<Rightarrow> ''You're not watching aoid '' @ int_str aoid @ '' - try 'market watch ''
        @ int_str aoid @ [CHR 0x27] @ '' first.''
    | Subscription_Limit limit \<Rightarrow> ''You're already watching the maximum of '' @ int_str limit @ '' item(s).''
    | Invalid_Range spec \<Rightarrow> ''Couldn't parse range '' @ py_repr spec @ ''.''
    | Market_Disabled \<Rightarrow> []
    | No_Activity player \<Rightarrow> player)"

section \<open>Dispatch\<close>

definition confirmed :: "caps \<Rightarrow> bool" where
  "confirmed m = (case m 1 of None \<Rightarrow> False | Some g \<Rightarrow> g \<noteq> [] \<and> lower g = ''confirm'')"

text \<open>\<open>re.split\<close> at the runs of separators.\<close>

fun split_runs :: "string \<Rightarrow> string \<Rightarrow> string list" where
  "split_runs piece [] = [piece]"
| "split_runs piece (c # cs) =
     (if \<not> is_separator c then split_runs (piece @ [c]) cs
      else piece # (case cs of
          [] \<Rightarrow> [[]]
        | d # ds \<Rightarrow> if is_separator d then tl (split_runs [] cs) else split_runs [] cs))"

definition split_aoids :: "string \<Rightarrow> string list" where
  "split_aoids s = split_runs [] s"

definition int_arg :: "caps \<Rightarrow> (world, int) eff" where
  "int_arg m = lift (py_int (match_group m 1))"

definition key_line :: "key_row \<Rightarrow> string" where
  "key_line key = key_prefix key @ ''... - '' @ (if key_revoked_at key \<noteq> None then ''revoked'' else ''active'')
     @ '', created '' @ date_str (key_created_at key)"

definition int_list :: "int list \<Rightarrow> string" where
  "int_list xs = comma_separated (map int_str (sort xs))"

definition dispatch ::
  "env \<Rightarrow> auth_config \<Rightarrow> string \<Rightarrow> string \<Rightarrow> string \<Rightarrow> caps \<Rightarrow> (world, string) eff" where
  "dispatch env auth random player name m =
    (if name = ''register'' then
       bnd (register env player) (\<lambda>_.
       ret ''You're registered with the Market module. Try 'market watch <item>' to build a watchlist.'')
     else if name = ''unregister'' then
       (if \<not> confirmed m then ret ''This cannot be undone. Confirm with 'market unregister confirm'.''
        else bnd (unregister env player) (\<lambda>removed.
          ret (''Unregistered. Removed '' @ int_str removed @ '' watchlist item(s).'')))
     else if name = ''untrack_all'' then
       (if \<not> confirmed m then ret ''This cannot be undone. Confirm with 'market untrack all confirm'.''
        else bnd untrack_all (\<lambda>cleared.
          ret (''Cleared '' @ int_str cleared @ '' tracked item(s).'')))
     else if name = ''apikey_generate'' then
       bnd (generate_key auth player random) (\<lambda>raw.
       ret (two_lines (''Your new API key: '' @ raw)
         (''Save this now - it will not be shown again. Send it as the ''
           @ ''X-Api-Key header on write requests to your own /players/'' @ player @ ''/... ''
           @ ''endpoints. Generating a new key revokes any previous one.'')))
     else if name = ''apikey_revoke'' then
       (if \<not> confirmed m
        then ret ''This will disable your current key immediately. Confirm with 'market apikey revoke confirm'.''
        else bnd (revoke_keys player) (\<lambda>count.
          ret (if count \<noteq> 0 then ''Revoked '' @ int_str count @ '' active key(s).''
               else ''You have no active keys.'')))
     else if name = ''apikey_list'' then
       bnd (list_keys player) (\<lambda>keys.
       ret (if keys = [] then ''You have no API keys. Generate one with 'market apikey generate'.''
            else two_lines ''Your API keys:'' (join_lines (map key_line keys))))
     else if name = ''status_details'' then
       bnd (status_details 500 0) (\<lambda>rows.
       bnd status_summary (\<lambda>summary.
       ret (two_lines (render_status_summary summary) (count_text rows @ '' item(s) tracked.''))))
     else if name = ''status'' then
       bnd status_summary (\<lambda>summary. ret (render_status_summary summary))
     else if name = ''watchlist'' then
       bnd (list_watchlist player) (\<lambda>rows. ret (render_watchlist rows))
     else if name = ''user_stats'' then
       (let target = (if strip (match_group m 1) = [] then player else strip (match_group m 1)) in
        bnd (user_stats target) (\<lambda>stats.
        ret (case stats of
            None \<Rightarrow> target @ '' has no recorded Market activity.''
          | Some s \<Rightarrow> render_user_stats target s)))
     else if name = ''filter_price'' then
       bnd (int_arg m) (\<lambda>aoid.
       bnd (set_price_filter player aoid (strip (match_group m 2))) (\<lambda>_.
       bnd (get_filter player aoid) (\<lambda>sub.
       ret (''Price filter updated. '' @ describe_sub sub))))
     else if name = ''filter_ql'' then
       bnd (int_arg m) (\<lambda>aoid.
       bnd (set_ql_filter player aoid (strip (match_group m 2))) (\<lambda>_.
       bnd (get_filter player aoid) (\<lambda>sub.
       ret (''QL filter updated. '' @ describe_sub sub))))
     else if name = ''filter_clear'' then
       bnd (int_arg m) (\<lambda>aoid.
       bnd (clear_filter player aoid) (\<lambda>_.
       ret ''Filter cleared - you'll be notified of every new order again.''))
     else if name = ''filter_show'' then
       bnd (int_arg m) (\<lambda>aoid.
       bnd (get_filter player aoid) (\<lambda>sub. ret (describe_sub sub)))
     else if name = ''unwatch_all'' then
       (if \<not> confirmed m then ret ''This cannot be undone. Confirm with 'market unwatch all confirm'.''
        else bnd (unsubscribe_all env player) (\<lambda>count.
          ret (''Stopped watching all '' @ int_str count @ '' item(s).'')))
     else if name = ''unwatch_bulk'' then
       bnd (lift (map_err int_of_text (split_aoids (strip (match_group m 1))))) (\<lambda>aoids.
       bnd (unsubscribe_bulk env player aoids) (\<lambda>(removed, not_watched).
       ret (join_lines
         ((if removed \<noteq> [] then [''Stopped watching '' @ count_text removed @ '' item(s): ''
             @ int_list removed @ ''.''] else [])
          @ (if not_watched \<noteq> [] then [''Not on your watchlist: '' @ int_list not_watched @ ''.'']
             else [])))))
     else if name = ''unwatch'' then
       bnd (int_arg m) (\<lambda>aoid.
       bnd (unsubscribe env player aoid) (\<lambda>deleted.
       ret (if deleted then ''Stopped watching aoid '' @ int_str aoid @ ''.''
            else ''You weren't watching aoid '' @ int_str aoid @ ''.'')))
     else if name = ''watch_aoid'' then
       bnd (int_arg m) (\<lambda>aoid.
       bnd (subscribe env player aoid) (\<lambda>item.
       ret (''You're now watching '' @ it_name item @ '' (QL'' @ int_str (it_ql item)
         @ '') - you'll get a tell when a new order shows up.'')))
     else if name = ''watch_search'' \<or> name = ''search'' then
       bnd (lift (aodb_search env (strip (match_group m 1)))) (\<lambda>(items, total).
       ret (render_search_results items))
     else if name = ''overview'' then
       bnd (int_arg m) (\<lambda>aoid.
       bnd (lift (aodb_get env aoid)) (\<lambda>found. case found of
         None \<Rightarrow> ret (''Unknown item ID '' @ int_str aoid @ ''. Try 'market <item name>' to search first.'')
       | Some item \<Rightarrow>
           bnd (watch_item env aoid (it_name item) (it_ql item) (it_icon item) False) (\<lambda>_.
           bnd (lift (gmi_get env aoid)) (\<lambda>orders.
           ret (render_overview (it_name item) aoid (it_ql item) orders)))))
     else raise Assertion_Error)"

section \<open>The handler\<close>

fun first_match :: "(string \<times> re) list \<Rightarrow> string \<Rightarrow> (string \<times> caps) option" where
  "first_match [] msg = None"
| "first_match ((name, pattern) # ps) msg =
     (case re_match pattern msg of None \<Rightarrow> first_match ps msg | Some m \<Rightarrow> Some (name, m))"

definition USAGE :: string where
  "USAGE = ''Usage: market <item name> | market <aoid> | market status | market register | ''
     @ ''market watch <item> | market unwatch <aoid> | market watchlist | market apikey generate | market help''"

definition adapt_error :: "exn \<Rightarrow> (world, string) eff option" where
  "adapt_error e = (case e of Market_Error exc \<Rightarrow> Some (ret (format_error exc)) | _ \<Rightarrow> None)"

definition handle_command ::
  "env \<Rightarrow> auth_config \<Rightarrow> string \<Rightarrow> string \<Rightarrow> string \<Rightarrow> (world, string) eff" where
  "handle_command env auth random player msg =
     bnd (get_bool ''Enabled'') (\<lambda>enabled.
     if \<not> enabled then ret ''The Market module is currently disabled.''
     else (case first_match PATTERNS msg of
         Some (name, m) \<Rightarrow> catch (dispatch env auth random player name m) adapt_error
       | None \<Rightarrow> ret USAGE))"

end
