(* ===== verification/Command_Grammar.thy ===== *)
theory Command_Grammar
  imports Commands
begin

text \<open>
  What the patterns of \<open>market/commands.py\<close> recognise. A \<open>command\<close> is an abstract request, \<open>spell\<close>
  writes it as a player would, and the dispatcher reads back the handler and the arguments:
  no earlier pattern of the dictionary takes the message away.
\<close>

section \<open>Requests\<close>

datatype command =
    Cmd_Register
  | Cmd_Unregister bool
  | Cmd_Untrack_All bool
  | Cmd_Apikey_Generate
  | Cmd_Apikey_Revoke bool
  | Cmd_Apikey_List
  | Cmd_Status_Details
  | Cmd_Status
  | Cmd_Watchlist
  | Cmd_User_Stats string
  | Cmd_Filter_Price nat string
  | Cmd_Filter_Ql nat string
  | Cmd_Filter_Clear nat
  | Cmd_Filter_Show nat
  | Cmd_Unwatch_All bool
  | Cmd_Unwatch_Bulk nat nat "nat list"
  | Cmd_Unwatch nat
  | Cmd_Watch nat
  | Cmd_Watch_Search string
  | Cmd_Overview nat
  | Cmd_Search string

definition confirm_word :: "bool \<Rightarrow> string" where
  "confirm_word b = (if b then '' confirm'' else [])"

definition spaced_numbers :: "nat list \<Rightarrow> string" where
  "spaced_numbers ns = concat (map (\<lambda>n. CHR '' '' # nat_str n) ns)"

primrec words :: "command \<Rightarrow> string" where
  "words Cmd_Register = ''register''"
| "words (Cmd_Unregister b) = ''unregister'' @ confirm_word b"
| "words (Cmd_Untrack_All b) = ''untrack all'' @ confirm_word b"
| "words Cmd_Apikey_Generate = ''apikey generate''"
| "words (Cmd_Apikey_Revoke b) = ''apikey revoke'' @ confirm_word b"
| "words Cmd_Apikey_List = ''apikey list''"
| "words Cmd_Status_Details = ''status details''"
| "words Cmd_Status = ''status''"
| "words Cmd_Watchlist = ''watchlist''"
| "words (Cmd_User_Stats p) = ''user stats '' @ p"
| "words (Cmd_Filter_Price n spec) = ''filter price '' @ nat_str n @ '' '' @ spec"
| "words (Cmd_Filter_Ql n spec) = ''filter ql '' @ nat_str n @ '' '' @ spec"
| "words (Cmd_Filter_Clear n) = ''filter clear '' @ nat_str n"
| "words (Cmd_Filter_Show n) = ''filter '' @ nat_str n"
| "words (Cmd_Unwatch_All b) = ''unwatch all'' @ confirm_word b"
| "words (Cmd_Unwatch_Bulk n n' ns) = ''unwatch '' @ nat_str n @ spaced_numbers (n' # ns)"
| "words (Cmd_Unwatch n) = ''unwatch '' @ nat_str n"
| "words (Cmd_Watch n) = ''watch '' @ nat_str n"
| "words (Cmd_Watch_Search q) = ''watch '' @ q"
| "words (Cmd_Overview n) = nat_str n"
| "words (Cmd_Search q) = q"

definition spell :: "command \<Rightarrow> string" where
  "spell cmd = ''market '' @ words cmd"

definition confirm_group :: "bool \<Rightarrow> caps" where
  "confirm_group b = (if b then [1 \<mapsto> ''confirm''] else Map.empty)"

primrec reading :: "command \<Rightarrow> string \<times> caps" where
  "reading Cmd_Register = (''register'', Map.empty)"
| "reading (Cmd_Unregister b) = (''unregister'', confirm_group b)"
| "reading (Cmd_Untrack_All b) = (''untrack_all'', confirm_group b)"
| "reading Cmd_Apikey_Generate = (''apikey_generate'', Map.empty)"
| "reading (Cmd_Apikey_Revoke b) = (''apikey_revoke'', confirm_group b)"
| "reading Cmd_Apikey_List = (''apikey_list'', Map.empty)"
| "reading Cmd_Status_Details = (''status_details'', Map.empty)"
| "reading Cmd_Status = (''status'', Map.empty)"
| "reading Cmd_Watchlist = (''watchlist'', Map.empty)"
| "reading (Cmd_User_Stats p) = (''user_stats'', [1 \<mapsto> p])"
| "reading (Cmd_Filter_Price n spec) = (''filter_price'', [1 \<mapsto> nat_str n, 2 \<mapsto> spec])"
| "reading (Cmd_Filter_Ql n spec) = (''filter_ql'', [1 \<mapsto> nat_str n, 2 \<mapsto> spec])"
| "reading (Cmd_Filter_Clear n) = (''filter_clear'', [1 \<mapsto> nat_str n])"
| "reading (Cmd_Filter_Show n) = (''filter_show'', [1 \<mapsto> nat_str n])"
| "reading (Cmd_Unwatch_All b) = (''unwatch_all'', confirm_group b)"
| "reading (Cmd_Unwatch_Bulk n n' ns) = (''unwatch_bulk'', [1 \<mapsto> nat_str n @ spaced_numbers (n' # ns)])"
| "reading (Cmd_Unwatch n) = (''unwatch'', [1 \<mapsto> nat_str n])"
| "reading (Cmd_Watch n) = (''watch_aoid'', [1 \<mapsto> nat_str n])"
| "reading (Cmd_Watch_Search q) = (''watch_search'', [1 \<mapsto> q])"
| "reading (Cmd_Overview n) = (''overview'', [1 \<mapsto> nat_str n])"
| "reading (Cmd_Search q) = (''search'', [1 \<mapsto> q])"

text \<open>A free text is one line that begins with a character that is neither blank nor a digit.\<close>

definition plain :: "string \<Rightarrow> bool" where
  "plain q \<longleftrightarrow> q \<noteq> [] \<and> newline \<notin> set q \<and> \<not> is_space (hd q) \<and> \<not> is_digit (hd q)"

definition KEYWORDS :: "string list" where
  "KEYWORDS = [''register'', ''unregister'', ''untrack'', ''apikey'', ''status'', ''watchlist'', ''user'',
     ''filter'', ''unwatch'', ''watch'']"

definition starts_with :: "string \<Rightarrow> string \<Rightarrow> bool" where
  "starts_with k q \<longleftrightarrow> take (length k) (lower q) = k"

primrec well_spelled :: "command \<Rightarrow> bool" where
  "well_spelled Cmd_Register = True"
| "well_spelled (Cmd_Unregister b) = True"
| "well_spelled (Cmd_Untrack_All b) = True"
| "well_spelled Cmd_Apikey_Generate = True"
| "well_spelled (Cmd_Apikey_Revoke b) = True"
| "well_spelled Cmd_Apikey_List = True"
| "well_spelled Cmd_Status_Details = True"
| "well_spelled Cmd_Status = True"
| "well_spelled Cmd_Watchlist = True"
| "well_spelled (Cmd_User_Stats p) = plain p"
| "well_spelled (Cmd_Filter_Price n spec) = (spec \<noteq> [] \<and> newline \<notin> set spec \<and> \<not> is_space (hd spec))"
| "well_spelled (Cmd_Filter_Ql n spec) = (spec \<noteq> [] \<and> newline \<notin> set spec \<and> \<not> is_space (hd spec))"
| "well_spelled (Cmd_Filter_Clear n) = True"
| "well_spelled (Cmd_Filter_Show n) = True"
| "well_spelled (Cmd_Unwatch_All b) = True"
| "well_spelled (Cmd_Unwatch_Bulk n n' ns) = True"
| "well_spelled (Cmd_Unwatch n) = True"
| "well_spelled (Cmd_Watch n) = True"
| "well_spelled (Cmd_Watch_Search q) = plain q"
| "well_spelled (Cmd_Overview n) = True"
| "well_spelled (Cmd_Search q) = (plain q \<and> (\<forall>k \<in> set KEYWORDS. \<not> starts_with k q))"

section \<open>Characters of the keywords\<close>

lemma lower_letters: "list_all (\<lambda>c. lower_char c = c) ''abcdefghijklmnopqrstuvwxyz !''"
  by code_simp

lemma letters_plain: "list_all (\<lambda>c. \<not> is_space c \<and> \<not> is_digit c) ''abcdefghijklmnopqrstuvwxyz!''"
  by code_simp

lemmas lower_simps [simp] = lower_letters [simplified]
lemmas letter_simps [simp] = letters_plain [simplified]

lemma space_char [simp]: "is_space CHR '' ''" "\<not> is_digit CHR '' ''" "\<not> is_digit CHR '',''"
  by code_simp+

lemma lower_digit [simp]: "is_digit d \<Longrightarrow> lower_char d = d"
  by (auto simp: is_digit_def lower_char_def)

lemma digit_is_not: "is_digit d \<Longrightarrow> \<not> is_digit x \<Longrightarrow> d \<noteq> x"
  by auto

lemma starts_with_simps [simp]:
  "starts_with [] q"
  "\<not> starts_with (k # ks) []"
  "starts_with (k # ks) (c # q) \<longleftrightarrow> lower_char c = k \<and> starts_with ks q"
  by (simp_all add: starts_with_def lower_def)

section \<open>Where patterns stop\<close>

lemma consumes_Star_stop: "s = [] \<or> \<not> p (hd s) \<Longrightarrow> consumes (Star (Cls p)) s t \<longleftrightarrow> t = s"
  unfolding consumes_Star_cls by (cases s) (auto simp: Cons_eq_append_conv)

lemma consumes_Star_step: "consumes (Plus r) s t \<longleftrightarrow> (\<exists>u. consumes r s u \<and> consumes (Star r) u t)"
  by (simp add: Plus_def consumes_simps)

lemma consumes_Spaces: "\<not> is_space c \<Longrightarrow> consumes Spaces (CHR '' '' # c # s) t \<longleftrightarrow> t = c # s"
  by (simp add: Spaces_def consumes_Star_step consumes_simps consumes_Star_stop)

lemma consumes_Spaces_no: "s = [] \<or> \<not> is_space (hd s) \<Longrightarrow> \<not> consumes Spaces s t"
  by (cases s) (simp_all add: Spaces_def consumes_Star_step consumes_simps)

lemma consumes_PREFIX: "\<not> is_space c \<Longrightarrow> consumes PREFIX (''market '' @ c # s) t \<longleftrightarrow> t = c # s"
  by (simp add: PREFIX_def consumes_simps consumes_Spaces)

lemma consumes_Lit: "consumes (Lit l) s t \<longleftrightarrow> starts_with l s \<and> t = drop (length l) s"
proof (induction l arbitrary: s)
  case Nil
  show ?case by (simp add: consumes_simps starts_with_def eq_commute)
next
  case (Cons c l)
  then show ?case by (cases s) (auto simp: consumes_simps starts_with_def lower_def)
qed

lemma Seq_Cons: "rs \<noteq> [] \<Longrightarrow> Seq (r # rs) = Cat r (Seq rs)"
  by (cases rs) simp_all

text \<open>A pattern fails when its keyword, or the keyword after it, is not the one written.\<close>

lemma keyword_fails:
  assumes "rs \<noteq> []" and "s \<noteq> []" and "\<not> is_space (hd s)" and "\<not> starts_with k s"
  shows "re_match (Seq (PREFIX # Lit k # rs)) (''market '' @ s) = None"
proof -
  obtain c s' where "s = c # s'" using assms(2) by (cases s) auto
  with assms show ?thesis
    by (simp add: re_match_None Seq_Cons consumes_simps consumes_PREFIX consumes_Lit del: append_Cons)
qed

lemma behind_keyword:
  assumes "rs \<noteq> []" and "k \<noteq> []" and "lower k = k" and "\<not> is_space (hd k)"
    and "\<And>t. \<not> consumes (Seq rs) s t"
  shows "re_match (Seq (PREFIX # Lit k # rs)) (''market '' @ k @ s) = None"
proof -
  obtain c k' where k: "k = c # k'" using assms(2) by (cases k) auto
  have "drop (length k) (k @ s) = s" by simp
  then show ?thesis
    using assms k consumes_PREFIX [of c "k' @ s"]
    by (auto simp: re_match_None Seq_Cons consumes_simps consumes_Lit)
qed

lemma second_word_fails:
  "rs \<noteq> [] \<Longrightarrow> s \<noteq> [] \<Longrightarrow> \<not> is_space (hd s) \<Longrightarrow> \<not> starts_with k s \<Longrightarrow>
   \<not> consumes (Seq (Spaces # Lit k # rs)) (CHR '' '' # s) t"
  by (cases s) (simp_all add: Seq_Cons consumes_simps consumes_Spaces consumes_Lit)

lemma argument_fails:
  "rs \<noteq> [] \<Longrightarrow> s \<noteq> [] \<Longrightarrow> \<not> is_space (hd s) \<Longrightarrow> \<not> is_digit (hd s) \<Longrightarrow>
   \<not> consumes (Seq (Spaces # Arg n # rs)) (CHR '' '' # s) t"
  by (cases s) (simp_all add: Seq_Cons consumes_simps consumes_Spaces Arg_def Digits_def consumes_Star_step)

section \<open>Where patterns lead\<close>

lemma goes_Seq: "rs \<noteq> [] \<Longrightarrow> goes r s c t d \<Longrightarrow> goes (Seq rs) t d u e \<Longrightarrow> goes (Seq (r # rs)) s c u e"
  by (simp add: Seq_Cons goes_Cat)

lemma goes_Lit: "lower x = l \<Longrightarrow> goes (Lit l) (x @ s) c s c"
proof (induction x arbitrary: l)
  case Nil
  then show ?case by (auto simp: lower_def goes_Eps)
next
  case (Cons a x)
  then obtain l' where "l = lower_char a # l'" "lower x = l'" by (auto simp: lower_def)
  with Cons.IH show ?case by (auto intro: goes_Cat goes_Cls)
qed

lemma goes_Space: "s \<noteq> [] \<Longrightarrow> \<not> is_space (hd s) \<Longrightarrow> goes Spaces (CHR '' '' # s) c s c"
  using goes_Plus_run [of "'' ''" is_space s c] by (simp add: Spaces_def)

lemma goes_PREFIX: "s \<noteq> [] \<Longrightarrow> \<not> is_space (hd s) \<Longrightarrow> goes PREFIX (''market '' @ s) c s c"
  unfolding PREFIX_def
  using goes_Cat [OF goes_Alt1 [OF goes_Lit [of "''market''" "''market''" "CHR '' '' # s" c]] goes_Space [of s c]]
  by (simp add: lower_def)

declare Lit.simps [simp del] Seq.simps [simp del]

lemma goes_end: "goes (Seq [Spaces0, Eol]) [] c [] c"
  using goes_Cat [OF _ goes_Eol] goes_Star_cls [of is_space "[]" c] by (simp add: Spaces0_def Seq.simps)

lemma goes_digits: "s = [] \<or> \<not> is_digit (hd s) \<Longrightarrow> goes Digits (nat_str n @ s) c s c"
  unfolding Digits_def by (rule goes_Plus_run) (simp_all add: nat_str_digits)

lemma goes_Arg: "s = [] \<or> \<not> is_digit (hd s) \<Longrightarrow> goes (Arg k) (nat_str n @ s) c s (c(k \<mapsto> nat_str n))"
  unfolding Arg_def by (rule goes_Grp_append [OF goes_digits]) simp_all

lemma goes_Rest:
  assumes "q \<noteq> []" and "newline \<notin> set q"
  shows "goes (Seq [Rest k, Eol]) q c [] (c(k \<mapsto> q))"
proof -
  have "goes (Plus Any) (q @ []) c [] c"
    unfolding Any_def using assms by (intro goes_Plus_run) (auto simp: list_all_iff)
  then have "goes (Rest k) (q @ []) c [] (c(k \<mapsto> q))"
    unfolding Rest_def by (rule goes_Grp_append) simp
  then show ?thesis using goes_Cat [OF _ goes_Eol] by (simp add: Seq.simps)
qed

lemma goes_Confirm: "goes (Seq [Confirm, Spaces0, Eol]) (confirm_word b) Map.empty [] (confirm_group b)"
proof (cases b)
  case True
  have "goes (Grp 1 (Lit ''confirm'')) (''confirm'' @ []) Map.empty [] [1 \<mapsto> ''confirm'']"
    by (rule goes_Grp_append [OF goes_Lit]) (simp_all add: lower_def)
  then have "goes Confirm '' confirm'' Map.empty [] [1 \<mapsto> ''confirm'']"
    unfolding Confirm_def Opt_def
    using goes_Alt1 [OF goes_Cat [OF goes_Space [of "''confirm''"]]] by simp
  from goes_Seq [OF _ this goes_end] True show ?thesis
    by (simp add: confirm_word_def confirm_group_def)
next
  case False
  have "goes Confirm [] Map.empty [] Map.empty"
    unfolding Confirm_def Opt_def
    by (intro goes_Alt2 goes_Eps) (simp add: Spaces_def Plus_def)
  from goes_Seq [OF _ this goes_end] False show ?thesis
    by (simp add: confirm_word_def confirm_group_def)
qed

lemma word_goes: "rs \<noteq> [] \<Longrightarrow> lower k = k \<Longrightarrow> goes (Seq rs) s c t d \<Longrightarrow> goes (Seq (Lit k # rs)) (k @ s) c t d"
  by (rule goes_Seq [OF _ goes_Lit])

lemma keyword_goes:
  assumes "rs \<noteq> []" and "k \<noteq> []" and "lower k = k" and "\<not> is_space (hd k)"
    and "goes (Seq rs) s Map.empty t d"
  shows "re_match (Seq (PREFIX # Lit k # rs)) (''market '' @ k @ s) = Some d"
  by (rule goes_match, rule goes_Seq [OF _ goes_PREFIX word_goes]) (use assms in simp_all)

lemma second_word_goes:
  assumes "rs \<noteq> []" and "k \<noteq> []" and "lower k = k" and "\<not> is_space (hd k)" and "goes (Seq rs) s c t d"
  shows "goes (Seq (Spaces # Lit k # rs)) (CHR '' '' # k @ s) c t d"
  by (rule goes_Seq [OF _ goes_Space word_goes]) (use assms in simp_all)

lemma nat_str_hd: "hd (nat_str n @ s) = hd (nat_str n)" "\<not> is_space (hd (nat_str n))" "is_digit (hd (nat_str n))"
  using nat_str_digits [of n] by (cases "nat_str n"; simp add: is_digit_not_space)+

lemma argument_goes:
  assumes "rs \<noteq> []" and "s = [] \<or> \<not> is_digit (hd s)" and "goes (Seq rs) s (c(k \<mapsto> nat_str n)) t d"
  shows "goes (Seq (Spaces # Arg k # rs)) (CHR '' '' # nat_str n @ s) c t d"
  by (rule goes_Seq [OF _ goes_Space], simp, simp, simp only: nat_str_hd not_False_eq_True,
      rule goes_Seq [OF assms(1) goes_Arg [OF assms(2)] assms(3)])

lemma text_goes:
  assumes "q \<noteq> []" and "newline \<notin> set q" and "\<not> is_space (hd q)"
  shows "goes (Seq [Spaces, Rest k, Eol]) (CHR '' '' # q) c [] (c(k \<mapsto> q))"
  by (rule goes_Seq [OF _ goes_Space goes_Rest]) (use assms in simp_all)

section \<open>Reading back\<close>

lemma starts_with_digit: "k \<noteq> [] \<Longrightarrow> \<not> is_digit (hd k) \<Longrightarrow> \<not> starts_with k (nat_str n @ s)"
  using nat_str_digits [of n] by (cases k; cases "nat_str n") (auto simp: starts_with_def lower_def)

lemmas starts_with_digits [simp] = starts_with_digit starts_with_digit [where s = "[]", simplified]

lemmas keyword_fails_simp = keyword_fails [simplified]

lemmas recognise = PATTERNS_def spell_def keyword_fails_simp lower_def

lemma two_words_goes:
  assumes "rs \<noteq> []" and "k \<noteq> []" "lower k = k" "\<not> is_space (hd k)"
    and "k' \<noteq> []" "lower k' = k'" "\<not> is_space (hd k')" and "goes (Seq rs) s Map.empty t d"
  shows "re_match (Seq (PREFIX # Lit k # Spaces # Lit k' # rs)) (''market '' @ k @ CHR '' '' # k' @ s) = Some d"
  by (rule keyword_goes [OF _ assms(2-4) second_word_goes [OF assms(1,5-8)]]) simp

lemma word_argument_goes:
  assumes "k \<noteq> []" "lower k = k" "\<not> is_space (hd k)"
  shows "re_match (Seq [PREFIX, Lit k, Spaces, Arg 1, Spaces0, Eol]) (''market '' @ k @ CHR '' '' # nat_str n) =
    Some [1 \<mapsto> nat_str n]"
  using keyword_goes [OF _ assms argument_goes [OF _ _ goes_end], of 1 n] by simp

lemma word_text_goes:
  assumes "k \<noteq> []" "lower k = k" "\<not> is_space (hd k)" and "q \<noteq> []" "newline \<notin> set q" "\<not> is_space (hd q)"
  shows "re_match (Seq [PREFIX, Lit k, Spaces, Rest 1, Eol]) (''market '' @ k @ CHR '' '' # q) = Some [1 \<mapsto> q]"
  using keyword_goes [OF _ assms(1-3) text_goes [OF assms(4-6)], of 1] by simp

lemma filter_goes:
  assumes "k \<noteq> []" "lower k = k" "\<not> is_space (hd k)" and "q \<noteq> []" "newline \<notin> set q" "\<not> is_space (hd q)"
  shows "re_match (Seq [PREFIX, Lit ''filter'', Spaces, Lit k, Spaces, Arg 1, Spaces, Rest 2, Eol])
      (''market filter '' @ k @ CHR '' '' # nat_str n @ CHR '' '' # q) = Some [1 \<mapsto> nat_str n, 2 \<mapsto> q]"
proof -
  have "goes (Seq [Spaces, Arg 1, Spaces, Rest 2, Eol]) (CHR '' '' # nat_str n @ CHR '' '' # q) Map.empty
      [] [1 \<mapsto> nat_str n, 2 \<mapsto> q]"
    by (rule argument_goes [OF _ _ text_goes [OF assms(4-6)]]) simp_all
  from two_words_goes [OF _ _ _ _ assms(1-3) this, of "''filter''"] show ?thesis
    by (simp add: lower_def)
qed

subsection \<open>Keywords alone\<close>

lemma read_plain_words:
  "first_match PATTERNS (spell Cmd_Register) = Some (reading Cmd_Register)"
  "first_match PATTERNS (spell Cmd_Watchlist) = Some (reading Cmd_Watchlist)"
  using keyword_goes [of "[Spaces0, Eol]" "''register''" "[]", OF _ _ _ _ goes_end]
    keyword_goes [of "[Spaces0, Eol]" "''watchlist''" "[]", OF _ _ _ _ goes_end]
  by (simp_all add: recognise)

lemma read_unregister: "first_match PATTERNS (spell (Cmd_Unregister b)) = Some (reading (Cmd_Unregister b))"
  using keyword_goes [of "[Confirm, Spaces0, Eol]" "''unregister''" "confirm_word b", OF _ _ _ _ goes_Confirm]
  by (simp add: recognise)

lemma read_two_words:
  "first_match PATTERNS (spell Cmd_Apikey_Generate) = Some (reading Cmd_Apikey_Generate)"
  "first_match PATTERNS (spell Cmd_Status_Details) = Some (reading Cmd_Status_Details)"
  "first_match PATTERNS (spell (Cmd_Untrack_All b)) = Some (reading (Cmd_Untrack_All b))"
  "first_match PATTERNS (spell (Cmd_Unwatch_All b)) = Some (reading (Cmd_Unwatch_All b))"
  using two_words_goes [OF _ _ _ _ _ _ _ goes_end, of "''apikey''" "''generate''"]
    two_words_goes [OF _ _ _ _ _ _ _ goes_end, of "''status''" "''details''"]
    two_words_goes [OF _ _ _ _ _ _ _ goes_Confirm, of "''untrack''" "''all''" b]
    two_words_goes [OF _ _ _ _ _ _ _ goes_Confirm, of "''unwatch''" "''all''" b]
  by (simp_all add: recognise)

lemma read_status: "first_match PATTERNS (spell Cmd_Status) = Some (reading Cmd_Status)"
proof -
  have "\<not> consumes (Seq [Spaces, Lit ''details'', Spaces0, Eol]) [] t" for t
    by (simp add: Seq_Cons consumes_simps consumes_Spaces_no)
  from behind_keyword [OF _ _ _ _ this, of "''status''"]
    keyword_goes [of "[Spaces0, Eol]" "''status''" "[]", OF _ _ _ _ goes_end]
  show ?thesis by (simp add: recognise)
qed

lemma read_apikey:
  "first_match PATTERNS (spell (Cmd_Apikey_Revoke b)) = Some (reading (Cmd_Apikey_Revoke b))"
  "first_match PATTERNS (spell Cmd_Apikey_List) = Some (reading Cmd_Apikey_List)"
  using two_words_goes [OF _ _ _ _ _ _ _ goes_Confirm, of "''apikey''" "''revoke''" b]
    two_words_goes [OF _ _ _ _ _ _ _ goes_end, of "''apikey''" "''list''"]
    behind_keyword [OF _ _ _ _ second_word_fails [of "[Spaces0, Eol]" "''revoke'' @ confirm_word b" "''generate''"], of "''apikey''"]
    behind_keyword [OF _ _ _ _ second_word_fails [of "[Spaces0, Eol]" "''list''" "''generate''"], of "''apikey''"]
    behind_keyword [OF _ _ _ _ second_word_fails [of "[Confirm, Spaces0, Eol]" "''list''" "''revoke''"], of "''apikey''"]
  by (simp_all add: recognise)

subsection \<open>Filters\<close>

lemma filter_word_fails:
  "rs \<noteq> [] \<Longrightarrow> s \<noteq> [] \<Longrightarrow> \<not> is_space (hd s) \<Longrightarrow> \<not> starts_with k s \<Longrightarrow>
   re_match (Seq (PREFIX # Lit ''filter'' # Spaces # Lit k # rs)) (''market filter '' @ s) = None"
  using behind_keyword [OF _ _ _ _ second_word_fails [of rs s k], of "''filter''"]
  by (simp add: lower_def)

lemmas filter_word_fails_simp = filter_word_fails [simplified]

lemma read_filters:
  assumes "spec \<noteq> []" "newline \<notin> set spec" "\<not> is_space (hd spec)"
  shows "first_match PATTERNS (spell (Cmd_Filter_Price n spec)) = Some (reading (Cmd_Filter_Price n spec))"
    "first_match PATTERNS (spell (Cmd_Filter_Ql n spec)) = Some (reading (Cmd_Filter_Ql n spec))"
  using filter_goes [OF _ _ _ assms, of "''price''" n] filter_goes [OF _ _ _ assms, of "''ql''" n]
  by (simp_all add: recognise filter_word_fails_simp)

lemma read_filter_clear: "first_match PATTERNS (spell (Cmd_Filter_Clear n)) = Some (reading (Cmd_Filter_Clear n))"
  using two_words_goes [OF _ _ _ _ _ _ _ argument_goes [OF _ _ goes_end], of 1 "''filter''" "''clear''" n]
  by (simp add: recognise filter_word_fails_simp)

lemma read_filter_show: "first_match PATTERNS (spell (Cmd_Filter_Show n)) = Some (reading (Cmd_Filter_Show n))"
  using word_argument_goes [of "''filter''" n] filter_word_fails [of _ "nat_str n"]
  by (simp add: recognise nat_str_hd)

subsection \<open>Watching and unwatching\<close>

lemma keyword_alone_fails: "rs \<noteq> [] \<Longrightarrow> k \<noteq> [] \<Longrightarrow> lower k = k \<Longrightarrow> \<not> is_space (hd k) \<Longrightarrow>
  s \<noteq> [] \<Longrightarrow> \<not> is_space (hd s) \<Longrightarrow> \<not> is_digit (hd s) \<Longrightarrow>
  re_match (Seq (PREFIX # Lit k # Spaces # Arg n # rs)) (''market '' @ k @ CHR '' '' # s) = None"
  by (rule behind_keyword [OF _ _ _ _ argument_fails]) simp_all

lemma read_watch:
  "first_match PATTERNS (spell (Cmd_Watch n)) = Some (reading (Cmd_Watch n))"
  "plain q \<Longrightarrow> first_match PATTERNS (spell (Cmd_Watch_Search q)) = Some (reading (Cmd_Watch_Search q))"
  using word_argument_goes [of "''watch''" n] word_text_goes [of "''watch''" q]
    keyword_alone_fails [of "[Spaces0, Eol]" "''watch''" q 1]
  by (simp_all add: recognise plain_def)

lemma digits_rest:
  assumes "consumes Digits (nat_str n) u"
  shows "list_all is_digit u"
proof -
  from assms obtain x where "nat_str n = x @ u" by (auto simp: Digits_def consumes_Plus_cls)
  with nat_str_digits [of n] show ?thesis by simp
qed

lemma no_separator: "list_all is_digit u \<Longrightarrow> \<not> consumes Separators u v"
  by (cases u) (auto simp: Separators_def consumes_Star_step consumes_simps is_separator_def
      is_digit_not_space dest: digit_is_not)

definition Bulk :: re where
  "Bulk = Cat Digits (Plus (Cat Separators Digits))"

lemma bulk_fails: "\<not> consumes (Seq [Spaces, Grp 1 Bulk, Spaces0, Eol]) (CHR '' '' # nat_str n) t"
proof
  assume "consumes (Seq [Spaces, Grp 1 Bulk, Spaces0, Eol]) (CHR '' '' # nat_str n) t"
  moreover have "consumes Spaces (CHR '' '' # nat_str n) u \<longleftrightarrow> u = nat_str n" for u
    using nat_str_hd [of n] consumes_Spaces [of "hd (nat_str n)" "tl (nat_str n)" u] by simp
  ultimately obtain u v where "consumes Digits (nat_str n) u" "consumes (Cat Separators Digits) u v"
    by (auto simp: Seq_Cons consumes_simps Bulk_def consumes_Star_step)
  with digits_rest no_separator show False by (auto simp: consumes_simps)
qed

lemma unwatch_word_fails: "re_match (Seq (PREFIX # Lit ''unwatch'' # Spaces # Lit ''all'' # Confirm # rs))
    (''market unwatch '' @ nat_str n @ s) = None"
  using behind_keyword [OF _ _ _ _ second_word_fails [of "Confirm # rs" "nat_str n @ s" "''all''"], of "''unwatch''"]
  by (simp add: nat_str_hd lower_def)

lemma read_unwatch: "first_match PATTERNS (spell (Cmd_Unwatch n)) = Some (reading (Cmd_Unwatch n))"
  using word_argument_goes [of "''unwatch''" n] unwatch_word_fails [of "[Spaces0, Eol]" n "[]"]
    behind_keyword [OF _ _ _ _ bulk_fails, of "''unwatch''" n]
  by (simp add: recognise Bulk_def)

lemma goes_iter:
  assumes "\<And>m ms. goes a (f m @ concat (map f ms)) c (concat (map f ms)) c" and "\<And>m. f m \<noteq> []"
  shows "length (concat (map f ms)) \<le> k \<Longrightarrow> \<exists>rest. iter k (run a) (concat (map f ms)) c = ([], c) # rest"
proof (induction ms arbitrary: k)
  case Nil
  show ?case by (cases k) (auto simp: case_prod_beta' map_replicate_const)
next
  case (Cons m ms)
  have "length (concat (map f ms)) < k"
    using Cons.prems assms(2) [of m] by (cases "f m") auto
  then obtain j where k: "k = Suc j" "length (concat (map f ms)) \<le> j"
    by (cases k) auto
  obtain rest where "iter j (run a) (concat (map f ms)) c = ([], c) # rest"
    using Cons.IH k(2) by blast
  moreover obtain rest' where "run a (f m @ concat (map f ms)) c = (concat (map f ms), c) # rest'"
    using assms(1) by (auto simp: goes_def)
  ultimately show ?case using k(1) assms(2) by simp
qed

lemma goes_numbers:
  assumes "ms \<noteq> []"
  shows "goes (Plus (Cat Separators Digits)) (spaced_numbers ms) c [] c"
proof -
  let ?f = "\<lambda>n. CHR '' '' # nat_str n"
  have one: "goes (Cat Separators Digits) (?f m @ concat (map ?f ms)) c (concat (map ?f ms)) c" for m ms c
  proof -
    have "\<not> is_separator (hd (nat_str m @ concat (map ?f ms)))"
      using nat_str_hd [of m] digit_is_not [of "hd (nat_str m)" "CHR '',''"] by (simp add: is_separator_def)
    then have "goes Separators ('' '' @ (nat_str m @ concat (map ?f ms))) c (nat_str m @ concat (map ?f ms)) c"
      unfolding Separators_def by (intro goes_Plus_run) (simp_all add: is_separator_def)
    moreover have "concat (map ?f ms) = [] \<or> \<not> is_digit (hd (concat (map ?f ms)))" by (cases ms) auto
    ultimately show ?thesis using goes_Cat [OF _ goes_digits] by simp
  qed
  obtain m ms' where ms: "ms = m # ms'" using assms by (cases ms) auto
  from goes_iter [of "Cat Separators Digits" ?f c ms', OF one]
  have "goes (Star (Cat Separators Digits)) (concat (map ?f ms')) c [] c"
    by (simp add: goes_def)
  from goes_Cat [OF one this] show ?thesis
    unfolding spaced_numbers_def ms Plus_def by simp
qed

lemma read_unwatch_bulk:
  "first_match PATTERNS (spell (Cmd_Unwatch_Bulk n n' ns)) = Some (reading (Cmd_Unwatch_Bulk n n' ns))"
proof -
  let ?s = "nat_str n @ spaced_numbers (n' # ns)"
  have "spaced_numbers (n' # ns) = [] \<or> \<not> is_digit (hd (spaced_numbers (n' # ns)))"
    by (simp add: spaced_numbers_def)
  then have "goes Bulk ?s Map.empty [] Map.empty"
    unfolding Bulk_def by (rule goes_Cat [OF goes_digits goes_numbers]) simp
  then have "goes (Grp 1 Bulk) (?s @ []) Map.empty [] [1 \<mapsto> ?s]"
    by (intro goes_Grp_append) simp_all
  from goes_Seq [OF _ goes_Space goes_Seq [OF _ this goes_end]]
  have "goes (Seq [Spaces, Grp 1 Bulk, Spaces0, Eol]) (CHR '' '' # ?s) Map.empty [] [1 \<mapsto> ?s]"
    by (simp add: nat_str_hd)
  from keyword_goes [OF _ _ _ _ this, of "''unwatch''"] unwatch_word_fails [of "[Spaces0, Eol]" n "spaced_numbers (n' # ns)"]
  show ?thesis by (simp add: recognise Bulk_def)
qed

subsection \<open>Statistics and searches\<close>

lemma goes_line:
  assumes "newline \<notin> set q"
  shows "goes (Seq [Grp k (Star Any), Eol]) q c [] (c(k \<mapsto> q))"
proof -
  have "goes (Grp k (Star (Cls (\<lambda>c. c \<noteq> newline)))) (q @ []) c [] (c(k \<mapsto> q))"
    using assms by (intro goes_Grp_Star) (auto simp: list_all_iff)
  with goes_Cat [OF _ goes_Eol] show ?thesis by (simp add: Seq.simps Any_def)
qed

lemma read_user_stats:
  assumes "plain p"
  shows "first_match PATTERNS (spell (Cmd_User_Stats p)) = Some (reading (Cmd_User_Stats p))"
proof -
  have p: "p \<noteq> []" "newline \<notin> set p" "\<not> is_space (hd p)" using assms by (simp_all add: plain_def)
  then have "goes Spaces0 ('' '' @ p) Map.empty p Map.empty"
    unfolding Spaces0_def by (intro goes_Star_run) simp_all
  from goes_Seq [OF _ this goes_line [OF p(2)], of 1]
    two_words_goes [of "[Spaces0, Grp 1 (Star Any), Eol]" "''user''" "''stats''" "'' '' @ p"]
  show ?thesis by (simp add: recognise)
qed

lemma goes_number: "re_match (Seq [PREFIX, Arg 1, Spaces0, Eol]) (''market '' @ nat_str n) = Some [1 \<mapsto> nat_str n]"
  using goes_match [OF goes_Seq [OF _ goes_PREFIX goes_Seq [OF _ goes_Arg [of "[]" 1 n] goes_end]]]
  by (simp add: nat_str_hd)

lemma read_overview: "first_match PATTERNS (spell (Cmd_Overview n)) = Some (reading (Cmd_Overview n))"
  using goes_number [of n] by (simp add: recognise nat_str_hd)

lemma number_fails:
  "rs \<noteq> [] \<Longrightarrow> s \<noteq> [] \<Longrightarrow> \<not> is_space (hd s) \<Longrightarrow> \<not> is_digit (hd s) \<Longrightarrow>
   re_match (Seq (PREFIX # Arg n # rs)) (''market '' @ s) = None"
  by (cases s) (simp_all add: re_match_None Seq_Cons consumes_simps consumes_PREFIX [simplified] Arg_def
      Digits_def consumes_Star_step)

lemma read_search:
  assumes "plain q \<and> (\<forall>k \<in> set KEYWORDS. \<not> starts_with k q)"
  shows "first_match PATTERNS (spell (Cmd_Search q)) = Some (reading (Cmd_Search q))"
proof -
  have q: "q \<noteq> []" "newline \<notin> set q" "\<not> is_space (hd q)" "\<not> is_digit (hd q)"
    using assms by (simp_all add: plain_def)
  from goes_match [OF goes_Seq [OF _ goes_PREFIX goes_Rest], of 1 q] number_fails [of "[Spaces0, Eol]" q 1]
    assms q
  show ?thesis by (simp add: recognise KEYWORDS_def)
qed

section \<open>Property\<close>

text \<open>C22. Every spelled command is read back: for each of the twenty-one kinds of command, the first
  pattern of the dictionary that matches what the player writes is the one of that command, and its
  groups are the arguments written. So no pattern shadows another, a free search text reaches the
  search exactly because it begins with none of the keywords, and the last branch of the dispatcher
  is never reached by a spelled command.\<close>

theorem spelled_commands_read_back:
  assumes "well_spelled cmd"
  shows "first_match PATTERNS (spell cmd) = Some (reading cmd)"
proof (cases cmd)
  case (Cmd_Search q)
  show ?thesis using assms unfolding Cmd_Search by (intro read_search) simp
qed (use assms in \<open>simp_all only: well_spelled.simps read_plain_words read_unregister read_two_words read_status
      read_apikey read_filters read_filter_clear read_filter_show read_unwatch_bulk read_unwatch read_watch
      read_user_stats read_overview simp_thms\<close>)

theorem spelled_commands_read_back_witness:
  "first_match PATTERNS ''market filter price 77 1k-2k'' = Some (''filter_price'', [1 \<mapsto> ''77'', 2 \<mapsto> ''1k-2k''])"
proof -
  have "well_spelled (Cmd_Filter_Price 77 ''1k-2k'')" by code_simp
  moreover have "nat_str 77 = ''77''" by code_simp
  ultimately show ?thesis
    using spelled_commands_read_back [of "Cmd_Filter_Price 77 ''1k-2k''"] by (simp add: spell_def)
qed

end
