(* ===== verification/Admin_Commands.thy ===== *)
theory Admin_Commands
  imports Commands
begin

text \<open>
  \<open>bot/admin_commands.py\<close>: the \<open>!settings\<close> chat command.

  \<open>float()\<close> on arbitrary text, with the \<open>repr\<close> of its result, is the argument \<open>float_text\<close> of the
  model (None for a text it refuses). It is consulted for rows of type float only, and there are
  none: the invariant \<open>no_float_rows\<close> below.
\<close>

section \<open>Patterns\<close>

definition is_letter :: "char \<Rightarrow> bool" where
  "is_letter c \<longleftrightarrow> (65 \<le> ordc c \<and> ordc c \<le> 90) \<or> (97 \<le> ordc c \<and> ordc c \<le> 122)"

definition is_key_char :: "char \<Rightarrow> bool" where
  "is_key_char c \<longleftrightarrow> is_letter c \<or> is_digit c \<or> c = CHR ''_''"

definition Key :: re where
  "Key = Cat (Cls is_letter) (Star (Cls is_key_char))"

definition ADMIN_PATTERNS :: "(string \<times> re) list" where
  "ADMIN_PATTERNS =
    [(''settings_set'', Seq [Lit ''!settings'', Spaces, Grp 1 Key, Spaces,
        Grp 2 (Cat (Cls (\<lambda>c. \<not> is_space c)) (Star Any)), Eol]),
     (''settings_get'', Seq [Lit ''!settings'', Spaces, Grp 1 Key, Spaces0, Eol]),
     (''settings_list'', Seq [Lit ''!settings'', Spaces0, Eol])]"

section \<open>Values from chat\<close>

definition value_error_text :: "exn \<Rightarrow> string" where
  "value_error_text e = (case e of Value_Error m \<Rightarrow> m | _ \<Rightarrow> [])"

definition is_value_error :: "exn \<Rightarrow> bool" where
  "is_value_error e \<longleftrightarrow> (case e of Value_Error _ \<Rightarrow> True | _ \<Rightarrow> False)"

definition coerce_bool :: "string \<Rightarrow> string \<Rightarrow> exn + setting_value" where
  "coerce_bool key raw =
     (let lowered = lower (strip raw) in
      if lowered \<in> {''true'', ''on'', ''yes'', ''1''} then Inr (SBool True)
      else if lowered \<in> {''false'', ''off'', ''no'', ''0''} then Inr (SBool False)
      else Inl (Value_Error (py_repr raw @ '' is not a valid bool for '' @ key @ '' (use true/false)'')))"

definition coerce_int :: "string \<Rightarrow> string \<Rightarrow> exn + setting_value" where
  "coerce_int key raw = (case int_of_text raw of
     Inr n \<Rightarrow> Inr (SInt n)
   | Inl _ \<Rightarrow> Inl (Value_Error (py_repr raw @ '' is not a valid integer for '' @ key)))"

definition coerce_float :: "(string \<Rightarrow> string option) \<Rightarrow> string \<Rightarrow> string \<Rightarrow> exn + setting_value" where
  "coerce_float float_text key raw = (case float_text raw of
     Some x \<Rightarrow> Inr (SFloat x)
   | None \<Rightarrow> Inl (Value_Error (py_repr raw @ '' is not a valid number for '' @ key)))"

definition coerce_setting_value ::
  "(string \<Rightarrow> string option) \<Rightarrow> string \<Rightarrow> string \<Rightarrow> (world, setting_value) eff" where
  "coerce_setting_value float_text key raw =
     bnd (setting_get key) (\<lambda>current. lift (case current of
         SBool _ \<Rightarrow> coerce_bool key raw
       | SInt _ \<Rightarrow> coerce_int key raw
       | SFloat _ \<Rightarrow> coerce_float float_text key raw
       | SStr _ \<Rightarrow> Inr (SStr raw)))"

section \<open>Dispatch\<close>

text \<open>The \<open>try\<close> of \<open>settings_set\<close> covers the coercion only: its outcome is the value or the reply.\<close>

definition coercion :: "(string \<Rightarrow> string option) \<Rightarrow> string \<Rightarrow> string \<Rightarrow> (world, string + setting_value) eff" where
  "coercion float_text key raw =
     catch (bnd (coerce_setting_value float_text key raw) (\<lambda>value. ret (Inr value)))
       (\<lambda>e. if is_value_error e then Some (ret (Inl (value_error_text e))) else None)"

definition admin_dispatch :: "(string \<Rightarrow> string option) \<Rightarrow> string \<Rightarrow> caps \<Rightarrow> (world, string) eff" where
  "admin_dispatch float_text name m =
    (if name = ''settings_set'' then
       (let key = match_group m 1; raw_value = strip (match_group m 2) in
        bnd (coercion float_text key raw_value) (\<lambda>coerced. case coerced of
          Inl reply \<Rightarrow> ret reply
        | Inr value \<Rightarrow>
            bnd (setting_set key value) (\<lambda>_.
            bnd (setting_get key) (\<lambda>new_value.
            ret (setting_line key new_value)))))
     else if name = ''settings_get'' then
       bnd (setting_get (match_group m 1)) (\<lambda>value.
       ret (setting_line (match_group m 1) value))
     else if name = ''settings_list'' then
       bnd setting_all (\<lambda>kvs. ret (render_settings_list kvs))
     else raise Assertion_Error)"

definition adapt_unknown :: "exn \<Rightarrow> (world, string) eff option" where
  "adapt_unknown e = (case e of
     Unknown_Setting key \<Rightarrow> Some (ret (''Unknown setting '' @ py_repr key @ ''. Try '!settings' to list valid keys.''))
   | _ \<Rightarrow> None)"

definition handle_admin_command ::
  "auth_config \<Rightarrow> (string \<Rightarrow> string option) \<Rightarrow> string \<Rightarrow> string \<Rightarrow> (world, string option) eff" where
  "handle_admin_command auth float_text player msg =
     (case first_match ADMIN_PATTERNS msg of
        None \<Rightarrow> ret None
      | Some (name, m) \<Rightarrow>
          bnd (is_admin_player auth player) (\<lambda>admin.
          if \<not> admin then ret None
          else bnd (catch (admin_dispatch float_text name m) adapt_unknown) (\<lambda>reply. ret (Some reply))))"

end
