(* ===== verification/Players.thy ===== *)
theory Players
  imports Invariants
begin

text \<open>
  Properties of the filter methods and of unregistration.
\<close>

section \<open>Filters\<close>

lemma row_update_subs:
  assumes "\<And>s. sub_key (f s) = sub_key s"
  shows "row_with sub_key (q, a) (update_where (is_sub p aoid) f rows) =
    map_option (\<lambda>s. if q = p \<and> a = aoid then f s else s) (row_with sub_key (q, a) rows)"
proof (cases "row_with sub_key (q, a) rows")
  case None
  then show ?thesis by (simp add: row_with_update assms)
next
  case (Some s)
  then have "sub_key s = (q, a)" using row_with_Some [OF Some] by simp
  then have "is_sub p aoid s \<longleftrightarrow> q = p \<and> a = aoid" by (auto simp: is_sub_def sub_key_def)
  with Some show ?thesis by (simp add: row_with_update assms)
qed

lemma get_filter_run:
  "get_filter q a w =
     (if int8 a then (case row_with sub_key (q, a) (subs w) of
        None \<Rightarrow> (Inl (Market_Error (Not_Watching a)), w) | Some s \<Rightarrow> (Inr s, w))
      else (Inl Data_Error, w))"
  by (simp add: get_filter_def require_subscription_def get_subscription_def with_params_def bnd_def
      split: option.split)

lemma set_price_filter_Inr:
  assumes "set_price_filter p aoid spec w = (Inr (), w')"
  obtains s lo hi where "row_with sub_key (p, aoid) (subs w) = Some s" and "int8 aoid"
    and "parse_range spec parse_credits = Inr (Some (lo, hi))"
    and "w' = w\<lparr>subs := update_where (is_sub p aoid)
          (\<lambda>s. s\<lparr>sub_min_price := lo, sub_max_price := hi\<rparr>) (subs w)\<rparr>"
  using assms
  by (auto simp: set_price_filter_def require_subscription_def get_subscription_def bnd_Inr_iff
      with_params_Inr update_price_filter_def update_subs_def split: option.splits)

lemma set_ql_filter_Inr:
  assumes "set_ql_filter p aoid spec w = (Inr (), w')"
  obtains s lo hi where "row_with sub_key (p, aoid) (subs w) = Some s" and "int8 aoid"
    and "parse_range spec parse_ql = Inr (Some (lo, hi))"
    and "w' = w\<lparr>subs := update_where (is_sub p aoid)
          (\<lambda>s. s\<lparr>sub_min_ql := lo, sub_max_ql := hi\<rparr>) (subs w)\<rparr>"
  using assms
  by (auto simp: set_ql_filter_def require_subscription_def get_subscription_def bnd_Inr_iff
      with_params_Inr update_ql_filter_def update_subs_def split: option.splits)

section \<open>Properties\<close>

text \<open>C18. Setting a price filter and then a level filter on the same subscription: when both succeed,
  reading the filter back gives the subscription with the bounds of the two ranges, neither call
  disturbs the bounds set by the other, and every other subscription reads as before.\<close>

theorem filters_read_back:
  assumes "set_price_filter player aoid prices w = (Inr (), w1)"
    and "set_ql_filter player aoid levels w1 = (Inr (), w2)"
  shows "\<exists>s lo hi lo' hi'.
    parse_range prices parse_credits = Inr (Some (lo, hi))
    \<and> parse_range levels parse_ql = Inr (Some (lo', hi'))
    \<and> fst (get_filter player aoid w) = Inr s
    \<and> fst (get_filter q a w2) =
        (if q = player \<and> a = aoid
         then Inr (s\<lparr>sub_min_price := lo, sub_max_price := hi, sub_min_ql := lo', sub_max_ql := hi'\<rparr>)
         else fst (get_filter q a w))"
proof -
  obtain s lo hi where s: "row_with sub_key (player, aoid) (subs w) = Some s" "int8 aoid"
    and lo: "parse_range prices parse_credits = Inr (Some (lo, hi))"
    and w1: "w1 = w\<lparr>subs := update_where (is_sub player aoid)
          (\<lambda>s. s\<lparr>sub_min_price := lo, sub_max_price := hi\<rparr>) (subs w)\<rparr>"
    using set_price_filter_Inr [OF assms(1)] .
  obtain s' lo' hi' where lo': "parse_range levels parse_ql = Inr (Some (lo', hi'))"
    and w2: "w2 = w1\<lparr>subs := update_where (is_sub player aoid)
          (\<lambda>s. s\<lparr>sub_min_ql := lo', sub_max_ql := hi'\<rparr>) (subs w1)\<rparr>"
    using set_ql_filter_Inr [OF assms(2)] .
  have "fst (get_filter q a w2) =
      (if q = player \<and> a = aoid
       then Inr (s\<lparr>sub_min_price := lo, sub_max_price := hi, sub_min_ql := lo', sub_max_ql := hi'\<rparr>)
       else fst (get_filter q a w))"
    using s by (auto simp: get_filter_run w1 w2 row_update_subs sub_key_def split: option.split)
  moreover have "fst (get_filter player aoid w) = Inr s"
    using s by (simp add: get_filter_run)
  ultimately show ?thesis using lo lo' by blast
qed

definition filter_world :: world where
  "filter_world = sample_world\<lparr>
     watches := [new_watch 100 ''Lava capsule'' 200 None False 0, new_watch 200 ''Ring'' 1 None False 0],
     subs := [new_sub ''Ann'' 100 1 0, new_sub ''Ann'' 200 2 0], sub_seq := 3\<rparr>"

lemma filter_world_ok: "db_ok filter_world"
  by (simp add: db_defs filter_world_def sample_world_def empty_world_def unique_def refs_def below_def
      new_user_def new_watch_def new_sub_def new_setting_def sub_key_def watch_fits_def sub_fits_def
      int8_def int4_def)

theorem filters_read_back_witness:
  "fst (get_filter ''Ann'' 100
     (snd (set_ql_filter ''Ann'' 100 ''200-'' (snd (set_price_filter ''Ann'' 100 ''0-'' filter_world)))))
   = Inr ((new_sub ''Ann'' 100 1 0)\<lparr>sub_min_price := Some 0, sub_max_price := None,
       sub_min_ql := Some 200, sub_max_ql := None\<rparr>)"
proof -
  let ?w1 = "snd (set_price_filter ''Ann'' 100 ''0-'' filter_world)"
  let ?w2 = "snd (set_ql_filter ''Ann'' 100 ''200-'' ?w1)"
  have "fst (set_price_filter ''Ann'' 100 ''0-'' filter_world) = Inr ()" by code_simp
  then have 1: "set_price_filter ''Ann'' 100 ''0-'' filter_world = (Inr (), ?w1)" by (simp add: prod_eq_iff)
  have "fst (set_ql_filter ''Ann'' 100 ''200-'' ?w1) = Inr ()" by code_simp
  then have 2: "set_ql_filter ''Ann'' 100 ''200-'' ?w1 = (Inr (), ?w2)" by (simp add: prod_eq_iff)
  have "parse_range ''0-'' parse_credits = Inr (Some (Some 0, None))"
    "parse_range ''200-'' parse_ql = Inr (Some (Some 200, None))"
    "fst (get_filter ''Ann'' 100 filter_world) = Inr (new_sub ''Ann'' 100 1 0)"
    by code_simp+
  with filters_read_back [OF 1 2, of "''Ann''" 100] show ?thesis by (auto simp only: prod.inject
      sum.inject option.inject simp_thms if_True)
qed

text \<open>C19. Unregistering erases the player: afterwards no user, subscription, queued alert, ledger entry
  or API key of that name is left, the number returned is the number of subscriptions there were, and
  the rows of all other players and the tracked items are untouched.\<close>

theorem unregister_erases:
  assumes "db_ok w" and "unregister env player w = (Inr removed, w')"
  shows "row_with usr_player player (users w) \<noteq> None
    \<and> removed = count_where (\<lambda>s. sub_player s = player) (subs w)
    \<and> users w' = filter (\<lambda>u. usr_player u \<noteq> player) (users w)
    \<and> subs w' = filter (\<lambda>s. sub_player s \<noteq> player) (subs w)
    \<and> alerts w' = filter (\<lambda>a. alr_player a \<noteq> player) (alerts w)
    \<and> actions w' = filter (\<lambda>a. act_player a \<noteq> player) (actions w)
    \<and> api_keys w' = filter (\<lambda>k. key_player k \<noteq> player) (api_keys w)
    \<and> watches w' = watches w"
proof -
  from assms(2) obtain u where known: "row_with usr_player player (users w) \<noteq> None"
    and del: "unregister_cascade player w = (Inr removed, u)"
    and say: "announce env player ''unregister'' None u = (Inr (), w')"
    by (auto simp: unregister_def is_registered_def bnd_Inr_iff split: if_splits)
  from known obtain r where r: "r \<in> set (users w)" "usr_player r = player"
    by (auto dest: row_with_Some)
  then have gone: "usr_player ` set (filter (\<lambda>u. usr_player u = player) (users w)) = {player}"
    by auto
  have "u = delete_users (\<lambda>u. usr_player u = player)
      (w\<lparr>subs := delete_where (\<lambda>s. sub_player s = player) (subs w),
         alerts := delete_where (\<lambda>a. alr_player a = player) (alerts w),
         actions := delete_where (\<lambda>a. act_player a = player) (actions w)\<rparr>)"
    and removed: "removed = count_where (\<lambda>s. sub_player s = player) (subs w)"
    using del by (simp_all add: unregister_cascade_def Let_def)
  with gone have u: "removed = count_where (\<lambda>s. sub_player s = player) (subs w)"
    "users u = filter (\<lambda>u. usr_player u \<noteq> player) (users w)"
    "subs u = filter (\<lambda>s. sub_player s \<noteq> player) (subs w)"
    "alerts u = filter (\<lambda>a. alr_player a \<noteq> player) (alerts w)"
    "actions u = filter (\<lambda>a. act_player a \<noteq> player) (actions w)"
    "api_keys u = filter (\<lambda>k. key_player k \<noteq> player) (api_keys w)" "watches u = watches w"
    by (simp_all add: delete_users_def delete_where_def filter_filter)
  then show ?thesis using same_dbD [OF announce_same(1) [OF say]] known by simp
qed

theorem unregister_erases_witness:
  "subs (snd (unregister sample_env ''Ann'' filter_world)) = []"
proof -
  let ?run = "unregister sample_env ''Ann'' filter_world"
  have "fst ?run = Inr 2" by code_simp
  then have "?run = (Inr 2, snd ?run)" by (simp add: prod_eq_iff)
  from unregister_erases [OF filter_world_ok this]
  have "subs (snd ?run) = filter (\<lambda>s. sub_player s \<noteq> ''Ann'') (subs filter_world)" by blast
  also have "\<dots> = []" by (simp add: filter_world_def new_sub_def)
  finally show ?thesis .
qed

end
