(* ===== verification/Chat.thy ===== *)
theory Chat
  imports Admin_Commands Players
begin

text \<open>
  What chat commands do to the database: the invariants of the services hold for them
  (\<open>world_invariant\<close> continued, and two locales for writes to the settings), which exceptions they can
  raise, and that they keep to the rows of the player who sent them.
\<close>

section \<open>Invariants under commands\<close>

context world_invariant
begin

lemma dispatch [keeps]: "keeping I (dispatch env auth random p name m)"
  unfolding dispatch_def int_arg_def by (intro keeps)

lemma handle_command [keeps]: "keeping I (handle_command env auth random p msg)"
  unfolding handle_command_def by (auto intro!: keeps simp: adapt_error_def split: exn.splits)

end

text \<open>An invariant that also survives the settings an administrator writes from chat.\<close>

locale chat_invariant = world_invariant +
  assumes coerced_set [keeps]: "keeping I (admin_dispatch float_text ''settings_set'' m)"
begin

lemma admin_dispatch [keeps]: "keeping I (admin_dispatch float_text name m)"
proof (cases "name = ''settings_set''")
  case True
  then show ?thesis using coerced_set by simp
next
  case False
  then show ?thesis
    unfolding admin_dispatch_def by (simp add: keeps settings_read_only)
qed

lemma handle_admin_command [keeps]: "keeping I (handle_admin_command auth float_text p msg)"
  unfolding handle_admin_command_def
  by (auto intro!: keeps simp: adapt_unknown_def split: exn.splits option.split)

end

text \<open>An invariant that survives any write to a setting.\<close>

locale settings_invariant = world_invariant +
  assumes setting_set [keeps]: "keeping I (setting_set key v)"
begin

lemma coercing: "keeping I (coercion float_text key raw)"
  unfolding coercion_def coerce_setting_value_def
  by (auto intro!: keeps split: if_splits)

lemma admin_set: "keeping I (admin_dispatch float_text ''settings_set'' m)"
  unfolding admin_dispatch_def by (simp, intro keeps coercing)

end

sublocale settings_invariant \<subseteq> chat_invariant
  by unfold_locales (rule admin_set)

interpretation consistent: settings_invariant db_ok
  by unfold_locales (rule keeps)

interpretation filters: settings_invariant filters_ok
  by unfold_locales (rule keepingI, simp add: filters_ok_def setting_set_tables)

interpretation single_key: settings_invariant one_active
  by unfold_locales (rule keepingI, simp add: one_active_def setting_set_tables)

end
