(* ===== verification/Typed_Settings.thy ===== *)
theory Typed_Settings
  imports Chat
begin

text \<open>
  The settings as typed variables: every default setting is present with its type and every row can
  be read. Seeding establishes this, all services, chat commands and administrators' chat commands
  keep it, and then the typed getters cannot fail. (Writes through the API do not keep it: there
  the value is not compared with the type of the row.)
\<close>

section \<open>The type invariant\<close>

definition readable_row :: "setting_row \<Rightarrow> bool" where
  "readable_row r \<longleftrightarrow> set_value_type r \<noteq> VFloat \<and> \<not> isl (deserialize (set_value r) (set_value_type r))"

definition settings_typed :: "world \<Rightarrow> bool" where
  "settings_typed w \<longleftrightarrow>
     unique set_key (settings w) \<and> list_all readable_row (settings w)
     \<and> list_all (\<lambda>(key, value, vt). setting_type w key = Some vt) DEFAULT_SETTINGS"

definition same_type :: "setting_value \<Rightarrow> value_type \<Rightarrow> bool" where
  "same_type v vt = (case v of
      SBool _ \<Rightarrow> vt = VBool | SInt _ \<Rightarrow> vt = VInt | SFloat _ \<Rightarrow> vt = VFloat | SStr _ \<Rightarrow> vt = VStr)"

lemma deserialize_type: "deserialize s vt = Inr x \<Longrightarrow> same_type x vt"
  by (cases vt; cases "int_of_text s") (auto simp: deserialize_def same_type_def)

lemma typed_row:
  assumes "settings_typed w" and "row_with set_key key (settings w) = Some r"
  obtains x where "setting_get key w = (Inr x, w)" and "same_type x (set_value_type r)"
    and "set_value_type r \<noteq> VFloat"
proof -
  have "readable_row r"
    using assms row_with_Some [OF assms(2)] by (auto simp: settings_typed_def list_all_iff)
  then obtain x where "deserialize (set_value r) (set_value_type r) = Inr x" "set_value_type r \<noteq> VFloat"
    by (cases "deserialize (set_value r) (set_value_type r)") (auto simp: readable_row_def)
  with that assms(2) deserialize_type show thesis by (simp add: setting_get_simp)
qed

lemma typed_default:
  assumes "settings_typed w" and "(key, d, vt) \<in> set DEFAULT_SETTINGS"
  obtains x where "setting_get key w = (Inr x, w)" and "same_type x vt"
proof -
  have "setting_type w key = Some vt"
    using assms by (auto simp: settings_typed_def list_all_iff)
  then obtain r where "row_with set_key key (settings w) = Some r" "set_value_type r = vt"
    by (auto simp: setting_type_def)
  from typed_row [OF assms(1) this(1)] this(2) that show thesis by blast
qed

lemma typed_bool:
  assumes "settings_typed w" and "(key, d, VBool) \<in> set DEFAULT_SETTINGS"
  shows "\<exists>b. get_bool key w = (Inr b, w)"
proof -
  obtain x where "setting_get key w = (Inr x, w)" "same_type x VBool" by (rule typed_default [OF assms])
  then show ?thesis by (cases x) (simp_all add: get_bool_def bnd_def same_type_def)
qed

lemma typed_int:
  assumes "settings_typed w" and "(key, d, VInt) \<in> set DEFAULT_SETTINGS"
  shows "\<exists>n. get_int key w = (Inr n, w)"
proof -
  obtain x where "setting_get key w = (Inr x, w)" "same_type x VInt" by (rule typed_default [OF assms])
  then show ?thesis by (cases x) (simp_all add: get_int_def bnd_def same_type_def)
qed

section \<open>Who keeps it\<close>

text \<open>Only a row of type int constrains what may be written to it.\<close>

lemma written_readable:
  assumes "serialize v (set_value_type r) = Inr enc" and "readable_row r"
    and "set_value_type r = VInt \<Longrightarrow> same_type v VInt"
  shows "readable_row (r\<lparr>set_value := enc, set_updated_at := now\<rparr>)"
proof (cases "set_value_type r")
  case VInt
  then obtain n where "v = SInt n" using assms(3) by (cases v) (simp_all add: same_type_def)
  with VInt assms(1) show ?thesis
    by (auto simp: readable_row_def serialize_def py_str_def str_of_int_def deserialize_def int_of_text_str
        split: if_splits)
qed (use assms(2) in \<open>simp_all add: readable_row_def deserialize_def\<close>)

lemma setting_set_typed:
  assumes "settings_typed w" and "setting_type w key = Some VInt \<Longrightarrow> same_type v VInt"
  shows "settings_typed (snd (setting_set key v w))"
proof (cases "fst (setting_set key v w)")
  case (Inl e)
  then have "snd (setting_set key v w) = w"
    by (auto simp: setting_set_simp split: option.splits sum.splits)
  with assms(1) show ?thesis by simp
next
  case (Inr x)
  then obtain r enc where r: "row_with set_key key (settings w) = Some r"
    and enc: "serialize v (set_value_type r) = Inr enc"
    and w': "snd (setting_set key v w) = w\<lparr>settings := update_where (\<lambda>r. set_key r = key)
        (\<lambda>r. r\<lparr>set_value := enc, set_updated_at := clock w\<rparr>) (settings w)\<rparr>"
    by (auto simp: setting_set_simp split: option.splits sum.splits)
  have one: "unique set_key (settings w)" using assms(1) by (simp add: settings_typed_def)
  have "readable_row s" if "s \<in> set (settings (snd (setting_set key v w)))" for s
  proof -
    from that w' obtain r' where r': "r' \<in> set (settings w)"
      "s = (if set_key r' = key then r'\<lparr>set_value := enc, set_updated_at := clock w\<rparr> else r')"
      by (auto simp: mem_update_where)
    have old: "readable_row r'" using r' assms(1) by (simp add: settings_typed_def list_all_iff)
    show ?thesis
    proof (cases "set_key r' = key")
      case True
      with r' one r have "r' = r" using row_with_unique [of set_key "settings w" r'] by simp
      with True r' old enc r assms(2) show ?thesis
        by (auto simp: setting_type_def intro: written_readable)
    next
      case False
      with r' old show ?thesis by simp
    qed
  qed
  moreover have "unique set_key (settings (snd (setting_set key v w)))"
    using one by (simp add: w' unique_update)
  ultimately show ?thesis
    using assms(1) by (simp add: settings_typed_def setting_type_set list_all_iff)
qed

lemma last_sync_typed: "keeping settings_typed (setting_set ''AutoTrackLastSync'' (SInt n))"
  by (rule keepingI) (simp add: setting_set_typed same_type_def)

lemma typed_tables: "settings u = settings w \<Longrightarrow> settings_typed w \<Longrightarrow> settings_typed u"
  by (simp add: settings_typed_def setting_type_def)

text \<open>A value coerced from chat has the type of the row it is meant for.\<close>

lemma coercion_type:
  assumes "settings_typed w" and "coercion float_text key raw w = (Inr (Inr v), w')"
  shows "w' = w" and "setting_type w key = Some VInt \<Longrightarrow> same_type v VInt"
proof -
  have "keeping (\<lambda>u. u = w) (coercion float_text key raw)"
    unfolding coercion_def coerce_setting_value_def
    by (auto intro!: keeps split: if_splits)
  from keeping_result [OF this _ assms(2)] show "w' = w" by simp
  show "same_type v VInt" if int: "setting_type w key = Some VInt"
  proof -
    from int obtain r where r: "row_with set_key key (settings w) = Some r" "set_value_type r = VInt"
      by (auto simp: setting_type_def)
    obtain x where x: "setting_get key w = (Inr x, w)" "same_type x (set_value_type r)"
      using typed_row [OF assms(1) r(1)] .
    with r(2) obtain n where "x = SInt n" by (cases x) (simp_all add: same_type_def)
    with assms(2) x(1) show ?thesis
      by (auto simp: coercion_def coerce_setting_value_def catch_def bnd_def coerce_int_def same_type_def
          split: sum.splits prod.splits if_splits option.splits)
  qed
qed

lemma admin_set_typed: "keeping settings_typed (admin_dispatch float_text ''settings_set'' m)"
proof (rule keepingI)
  fix w assume typed: "settings_typed w"
  let ?key = "match_group m 1" and ?raw = "strip (match_group m 2)"
  obtain r u where run: "coercion float_text ?key ?raw w = (r, u)" by fastforce
  have "keeping (\<lambda>u. u = w) (coercion float_text ?key ?raw)"
    unfolding coercion_def coerce_setting_value_def by (auto intro!: keeps split: if_splits)
  from keeping_result [OF this _ run] have [simp]: "u = w" by simp
  show "settings_typed (snd (admin_dispatch float_text ''settings_set'' m w))"
  proof (cases "\<exists>v. r = Inr (Inr v)")
    case True
    then obtain v where v: "r = Inr (Inr v)" by blast
    have "settings_typed (snd (setting_set ?key v w))"
      using setting_set_typed [OF typed] coercion_type(2) [OF typed] run v by fastforce
    then have "settings_typed (snd (bnd (setting_set ?key v) (\<lambda>_.
        bnd (setting_get ?key) (\<lambda>x. ret (setting_line ?key x))) w))"
      by (auto simp: bnd_def setting_get_simp split: prod.splits sum.splits option.splits)
    with run v show ?thesis by (simp add: admin_dispatch_def Let_def bnd_apply(1))
  next
    case False
    with run typed show ?thesis
      by (cases r) (auto simp: admin_dispatch_def Let_def bnd_apply split: sum.splits)
  qed
qed

lemma record_failure_settings: "settings (snd (record_failure aoid w)) = settings w"
  by (cases "record_failure aoid w"; cases "fst (record_failure aoid w)")
    (auto dest: record_failure_Inr record_failure_Inl)

lemma generate_key_settings: "settings (snd (generate_key auth p random w)) = settings w"
  by (simp add: generate_key_run put_key_def drop_keys_def ensure_user_def)

interpretation typed: chat_invariant settings_typed
proof unfold_locales
  fix ts show "keeping settings_typed (setting_set ''AutoTrackLastSync'' (SInt ts))"
    by (rule last_sync_typed)
  fix float_text m show "keeping settings_typed (admin_dispatch float_text ''settings_set'' m)"
    by (rule admin_set_typed)
qed (rule keepingI, rule typed_tables [rotated], assumption,
    simp add: leaf_defs bnd_def record_failure_settings generate_key_settings)+

section \<open>A seeded database\<close>

text \<open>The rows seeding writes into an empty table.\<close>

definition default_rows :: "int \<Rightarrow> setting_row list" where
  "default_rows now = map (\<lambda>(key, value, vt).
     new_setting key (case serialize value vt of Inl _ \<Rightarrow> [] | Inr enc \<Rightarrow> enc) vt now) DEFAULT_SETTINGS"

lemma default_rows_readable: "list_all readable_row (default_rows now)"
proof -
  have "list_all (\<lambda>(key, value, vt). vt \<noteq> VFloat
      \<and> \<not> isl (deserialize (case serialize value vt of Inl _ \<Rightarrow> [] | Inr enc \<Rightarrow> enc) vt)) DEFAULT_SETTINGS"
    by code_simp
  then show ?thesis
    by (auto simp: default_rows_def readable_row_def new_setting_def list_all_iff)
qed

lemma default_keys: "unique set_key (default_rows now)"
proof -
  have "map set_key (default_rows now) = map fst DEFAULT_SETTINGS"
    by (auto simp: default_rows_def new_setting_def)
  moreover have "distinct (map fst DEFAULT_SETTINGS)" by code_simp
  ultimately show ?thesis by (simp add: unique_def)
qed

lemma default_rows_typed:
  assumes "settings w = default_rows now"
  shows "settings_typed w"
proof -
  have "setting_type w key = Some vt" if "(key, d, vt) \<in> set DEFAULT_SETTINGS" for key d vt
  proof -
    let ?r = "new_setting key (case serialize d vt of Inl _ \<Rightarrow> [] | Inr enc \<Rightarrow> enc) vt now"
    have "?r \<in> set (default_rows now)" using that by (force simp: default_rows_def)
    from row_with_unique [OF default_keys this] show ?thesis
      by (simp add: setting_type_def assms new_setting_def)
  qed
  then show ?thesis
    by (auto simp: settings_typed_def assms default_rows_readable default_keys list_all_iff [of _ DEFAULT_SETTINGS])
qed

end
