(* ===== verification/Chat_Errors.thy ===== *)
theory Chat_Errors
  imports Typed_Settings
begin

text \<open>
  Which exceptions a chat command can let out. With a consistent database and typed settings
  (\<open>sound\<close>) the checks of the services are enough: no constraint of the database is ever violated, no
  assertion fails, no setting is missing, and the market's own exceptions become replies.
\<close>

section \<open>Exceptions from outside\<close>

text \<open>\<open>clients_raise X env\<close>: the HTTP clients and the chat sinks raise nothing but what \<open>X\<close> allows.\<close>

definition clients_raise :: "(exn \<Rightarrow> bool) \<Rightarrow> env \<Rightarrow> bool" where
  "clients_raise X env \<longleftrightarrow>
     (\<forall>a e. aodb_get env a = Inl e \<longrightarrow> X e) \<and> (\<forall>q e. aodb_search env q = Inl e \<longrightarrow> X e)
     \<and> (\<forall>a e. gmi_get env a = Inl e \<longrightarrow> X e)
     \<and> (\<forall>f m e. privgroup_sink env = Some f \<longrightarrow> f m = Inl e \<longrightarrow> X e)"

text \<open>
  What may come out besides: an integer outside its column, an amount beyond the floats, a number
  with more than 4300 digits.
\<close>

definition out_of_range :: "exn \<Rightarrow> bool" where
  "out_of_range e \<longleftrightarrow> (case e of Data_Error \<Rightarrow> True | Overflow_Error \<Rightarrow> True | Value_Error _ \<Rightarrow> True | _ \<Rightarrow> False)"

definition is_market :: "exn \<Rightarrow> bool" where
  "is_market e \<longleftrightarrow> (case e of Market_Error _ \<Rightarrow> True | _ \<Rightarrow> False)"

definition admitted :: "(exn \<Rightarrow> bool) \<Rightarrow> exn \<Rightarrow> bool" where
  "admitted X e \<longleftrightarrow> X e \<or> out_of_range e \<or> is_market e"

lemma admitted_simps [simp]:
  "admitted X Data_Error" "admitted X Overflow_Error" "admitted X (Value_Error m)" "admitted X (Market_Error me)"
  "X e \<Longrightarrow> admitted X e"
  by (simp_all add: admitted_def out_of_range_def is_market_def)

definition sound :: "world \<Rightarrow> bool" where
  "sound w \<longleftrightarrow> db_ok w \<and> settings_typed w"

lemma sound_keeping: "keeping db_ok m \<Longrightarrow> keeping settings_typed m \<Longrightarrow> keeping sound m"
  by (simp add: keeping_def sound_def)

lemma guarded_sound:
  "keeping db_ok m \<Longrightarrow> keeping settings_typed m \<Longrightarrow> (\<And>w e w'. sound w \<Longrightarrow> m w = (Inl e, w') \<Longrightarrow> E e) \<Longrightarrow>
   guarded sound E m"
  by (intro guardedI sound_keeping)

lemma guarded_params [guards]: "guarded I (admitted X) m \<Longrightarrow> guarded I (admitted X) (with_params ok m)"
  by (auto simp: with_params_def intro!: guards)

section \<open>Settings\<close>

lemma guarded_bool:
  assumes "(key, d, VBool) \<in> set DEFAULT_SETTINGS"
  shows "guarded sound E (get_bool key)"
proof (rule guarded_sound)
  fix w e w' assume "sound w" and run: "get_bool key w = (Inl e, w')"
  then show "E e" using typed_bool [OF _ assms, of w] by (auto simp: sound_def)
qed (rule keeps)+

lemma guarded_int:
  assumes "(key, d, VInt) \<in> set DEFAULT_SETTINGS"
  shows "guarded sound E (get_int key)"
proof (rule guarded_sound)
  fix w e w' assume "sound w" and run: "get_int key w = (Inl e, w')"
  then show "E e" using typed_int [OF _ assms, of w] by (auto simp: sound_def)
qed (rule keeps)+

lemma guarded_settings [guards]:
  "guarded sound E (get_bool ''Enabled'')"
  "guarded sound E (get_bool ''AutoTrackEnabled'')"
  "guarded sound E (get_bool ''LogToPrivateChannel'')"
  "guarded sound E (get_bool ''LogBackgroundToPrivateChannel'')"
  "guarded sound E (get_int ''MaxSubscriptionsPerPlayer'')"
  "guarded sound E (get_int ''AutoTrackCount'')"
  "guarded sound E (get_int ''AutoTrackLastSync'')"
  by (rule guarded_bool guarded_int; simp add: DEFAULT_SETTINGS_def)+

section \<open>The services\<close>

lemma raises_total: "(\<And>w. \<exists>x. fst (m w) = Inr x) \<Longrightarrow> raises_only E m"
  unfolding raises_only_def by (metis Inl_Inr_False)

lemma data_only:
  assumes "E Data_Error"
  shows "raises_only E (get_subscription p aoid)"
    and "raises_only E (list_watch limit off flag)"
    and "raises_only E (upsert_watch aoid n q i auto)"
    and "raises_only E (delete_subscription p aoid)"
    and "raises_only E (repo_log_action p a x)"
    and "raises_only E (repo_clear_filter p aoid)"
    and "raises_only E (update_price_filter p aoid lo hi)"
    and "raises_only E (update_ql_filter p aoid lo hi)"
    and "raises_only E (delete_watch aoid)"
    and "raises_only E (get_watch aoid)"
  using assms by (auto simp: raises_only_def bnd_def with_params_def get_subscription_def list_watch_def
      upsert_watch_def get_watch_def delete_subscription_def repo_log_action_def repo_clear_filter_def
      update_price_filter_def update_ql_filter_def update_subs_def delete_watch_def)

lemma never_raises:
  "raises_only E (is_registered p)"
  "raises_only E (unregister_cascade p)"
  "raises_only E (count_subscriptions p)"
  "raises_only E (list_subscriptions p)"
  "raises_only E (count_watch flag)"
  "raises_only E clear_watch"
  "raises_only E (delete_all_subscriptions p)"
  "raises_only E (user_action_summary p)"
  "raises_only E (user_action_breakdown p)"
  "raises_only E (revoke_keys p)"
  "raises_only E (list_keys p)"
  "raises_only E (emit out)"
  by (auto intro!: raising simp: is_registered_def count_subscriptions_def list_subscriptions_def
      count_watch_def clear_watch_def delete_all_subscriptions_def user_action_summary_def
      user_action_breakdown_def list_keys_def list_for_player_def emit_def)
    (auto intro!: raises_total simp: unregister_cascade_def Let_def revoke_keys_def revoke_all_for_player_def)

lemma guarded_leaf:
  "keeping db_ok m \<Longrightarrow> keeping settings_typed m \<Longrightarrow> raises_only E m \<Longrightarrow> guarded sound E m"
  by (intro guarded_raises sound_keeping)

lemmas typed_keeps = typed.emit typed.repo_register typed.unregister_cascade typed.upsert_watch
  typed.add_subscription typed.repo_clear_filter typed.repo_log_action typed.delete_subscription
  typed.delete_watch typed.revoke_keys

lemma deletes_typed [keeps]:
  "keeping settings_typed clear_watch"
  "keeping settings_typed (delete_all_subscriptions p)"
  by (auto intro!: keeps typed.delete_watches typed.delete_subscriptions simp: clear_watch_def
      delete_all_subscriptions_def)

lemma filter_writes_typed [keeps]:
  "keeping settings_typed (update_price_filter p aoid lo hi)"
  "keeping settings_typed (update_ql_filter p aoid lo hi)"
  by (auto intro!: keeps keeping_modify simp: update_price_filter_def update_ql_filter_def update_subs_def
      elim: typed_tables [rotated])

lemma guarded_repo [guards]:
  "guarded sound E (is_registered p)"
  "guarded sound E (unregister_cascade p)"
  "guarded sound E (count_subscriptions p)"
  "guarded sound E (list_subscriptions p)"
  "guarded sound E (count_watch flag)"
  "guarded sound E clear_watch"
  "guarded sound E (delete_all_subscriptions p)"
  "guarded sound E (user_action_summary p)"
  "guarded sound E (user_action_breakdown p)"
  "guarded sound E (revoke_keys p)"
  "guarded sound E (list_keys p)"
  "guarded sound E (emit out)"
  "guarded sound (admitted X) (get_subscription p aoid)"
  "guarded sound (admitted X) (list_watch limit off flag)"
  "guarded sound (admitted X) (upsert_watch aoid n q i auto)"
  "guarded sound (admitted X) (delete_subscription p aoid)"
  "guarded sound (admitted X) (repo_log_action p a x)"
  "guarded sound (admitted X) (repo_clear_filter p aoid)"
  "guarded sound (admitted X) (update_price_filter p aoid lo hi)"
  "guarded sound (admitted X) (update_ql_filter p aoid lo hi)"
  by (rule guarded_leaf; (rule keeps typed_keeps never_raises data_only | simp)+)+

lemma guarded_chat [guards]:
  assumes X: "clients_raise X env"
  shows "guarded sound (admitted X) (send_privgroup env msg)"
    and "guarded sound (admitted X) (announce env p a x)"
    and "guarded sound (admitted X) (announce_tracked env n auto)"
    and "guarded sound (admitted X) (log_action env p a x)"
    and "guarded sound (admitted X) (watch_item env aoid n q i auto)"
proof -
  show send: "guarded sound (admitted X) (send_privgroup env m)" for m
    using X by (auto intro!: guards guarded_lift simp: clients_raise_def send_privgroup_def split: option.split)
  show ann: "guarded sound (admitted X) (announce env p a x)" for p a x
    using X by (auto intro!: guards guarded_lift send simp: clients_raise_def announce_def)
  show track: "guarded sound (admitted X) (announce_tracked env n auto)" for n auto
    by (auto intro!: guards send simp: announce_tracked_def announce_background_def)
  show "guarded sound (admitted X) (log_action env p a x)"
    by (auto intro!: guards ann simp: log_action_def)
  show "guarded sound (admitted X) (watch_item env aoid n q i auto)"
    by (auto intro!: guards track simp: watch_item_def)
qed

lemma guarded_register [guards]:
  assumes X: "clients_raise X env"
  shows "guarded sound (admitted X) (register env p)"
proof (rule guarded_sound)
  fix w e w' assume w: "sound w" and run: "register env p w = (Inl e, w')"
  show "admitted X e"
  proof (cases "row_with usr_player p (users w)")
    case None
    then have "repo_register p w = (Inr (), w\<lparr>users := users w @ [new_user p (clock w)]\<rparr>)"
      by (simp add: repo_register_def)
    moreover have "sound (snd (repo_register p w))"
      using w by (auto simp: sound_def intro: keepingD keeps typed.repo_register)
    ultimately show ?thesis
      using run None guardedD [OF guarded_chat(4) [OF X]]
      by (fastforce simp: register_def is_registered_def bnd_apply)
  next
    case (Some u)
    with run show ?thesis by (auto simp: register_def is_registered_def)
  qed
qed (rule consistent.tracking typed.tracking)+

lemma bnd_Inl_iff: "bnd m f w = (Inl e, w') \<longleftrightarrow>
    m w = (Inl e, w') \<or> (\<exists>x u. m w = (Inr x, u) \<and> f x u = (Inl e, w'))"
  by (auto simp: bnd_def split: prod.split sum.split)

text \<open>The foreign keys of a new subscription are there: the user was checked, the item just tracked.\<close>

lemma add_subscription_guarded:
  fixes i :: item
  assumes "watch_item env aoid (it_name i) (it_ql i) (it_icon i) False w = (Inr b, u)"
    and "row_with sub_key (p, aoid) (subs w) = None" and "row_with usr_player p (users w) = Some r"
  shows "\<exists>v. add_subscription p aoid u = (Inr (), v)"
proof -
  have ok: "int8 aoid" and same: "same_db (tracked aoid i w) u"
    using watch_item_Inr [OF assms(1)] by auto
  have "row_with wat_aoid aoid (watches u) \<noteq> None"
    using same_dbD(3) [OF same] by (auto simp: tracked_def row_with_upsert new_watch_def refresh_watch_def)
  then show ?thesis
    using ok assms(2,3) same_dbD [OF same] by (simp add: add_subscription_def tracked_def)
qed

definition start_watching :: "env \<Rightarrow> string \<Rightarrow> int \<Rightarrow> item \<Rightarrow> (world, item) eff" where
  "start_watching env p aoid item =
     bnd (watch_item env aoid (it_name item) (it_ql item) (it_icon item) False) (\<lambda>_.
     bnd (add_subscription p aoid) (\<lambda>_.
     bnd (log_action env p ''watch'' (Some aoid)) (\<lambda>_.
     ret item)))"

lemma start_watching_guarded:
  assumes X: "clients_raise X env" and w: "sound w"
    and none: "row_with sub_key (p, aoid) (subs w) = None" and user: "row_with usr_player p (users w) = Some r"
    and run: "start_watching env p aoid item w = (Inl e, w')"
  shows "admitted X e"
proof -
  let ?watch = "watch_item env aoid (it_name item) (it_ql item) (it_icon item) False"
  note chat = guarded_chat [OF X]
  show ?thesis
  proof (cases "fst (?watch w)")
    case (Inl e')
    then have "?watch w = (Inl e', snd (?watch w))" by (simp add: prod_eq_iff)
    with run w guardedD [OF chat(5)] show ?thesis by (auto simp: start_watching_def bnd_apply)
  next
    case (Inr b)
    then obtain u where u: "?watch w = (Inr b, u)" by (cases "?watch w") auto
    have "sound u" using keeping_result [OF guarded_keeping [OF chat(5)] w u] .
    obtain v where v: "add_subscription p aoid u = (Inr (), v)"
      using add_subscription_guarded [OF u none user] by blast
    have "keeping sound (add_subscription p aoid)"
      by (intro sound_keeping keeps typed.add_subscription)
    from keeping_result [OF this \<open>sound u\<close> v] have "sound v" .
    then show ?thesis
      using run u v guardedD [OF chat(4)] by (auto simp: start_watching_def bnd_Inl_iff)
  qed
qed

lemma guarded_subscribe [guards]:
  assumes X: "clients_raise X env"
  shows "guarded sound (admitted X) (subscribe env p aoid)"
proof (rule guarded_sound)
  fix w e w' assume w: "sound w" and run: "subscribe env p aoid w = (Inl e, w')"
  obtain limit where limit: "get_int ''MaxSubscriptionsPerPlayer'' w = (Inr limit, w)"
    using typed_int [of w "''MaxSubscriptionsPerPlayer''" "SInt 25"] w
    by (auto simp: sound_def DEFAULT_SETTINGS_def)
  then have get: "bnd (get_int ''MaxSubscriptionsPerPlayer'') f w = f limit w" for f :: "int \<Rightarrow> (world, item) eff"
    by (simp add: bnd_def)
  have denied: "guarded sound (admitted X) (bnd (log_action env p ''watch_denied'' (Some aoid))
      (\<lambda>_. raise (Market_Error (Not_Registered p)) :: (world, item) eff))"
    by (intro guards X admitted_simps)
  show "admitted X e"
  proof (cases "aodb_get env aoid")
    case (Inl e')
    with run X show ?thesis by (auto simp: subscribe_def clients_raise_def)
  next
    case found: (Inr item)
    show ?thesis
    proof (cases "row_with usr_player p (users w)")
      case None
      with found run guardedD [OF denied w] show ?thesis
        by (cases item) (auto simp: subscribe_def is_registered_def)
    next
      case user: (Some r)
      with found run limit start_watching_guarded [OF X w _ user] show ?thesis
        by (cases item; cases "int8 aoid"; cases "row_with sub_key (p, aoid) (subs w)")
          (auto simp: subscribe_def is_registered_def get_subscription_def with_params_def
            count_subscriptions_def get start_watching_def split: if_splits)
    qed
  qed
qed (rule consistent.subscriptions typed.subscriptions)+

lemma text_errors:
  "int_of_text s = Inl e \<Longrightarrow> out_of_range e"
  "py_int s = Inl e \<Longrightarrow> out_of_range e"
  "parse_credits s = Inl e \<Longrightarrow> out_of_range e"
  "parse_ql s = Inl e \<Longrightarrow> out_of_range e"
proof -
  show int: "out_of_range e" if "int_of_text s = Inl e"
    using that by (auto simp: int_of_text_def out_of_range_def split: prod.splits option.splits if_splits)
  show py: "out_of_range e" if "py_int s = Inl e" for s
    using that by (auto simp: py_int_def out_of_range_def split: if_splits)
  show "out_of_range e" if "parse_credits s = Inl e"
    using that by (auto simp: parse_credits_def Let_def out_of_range_def split: if_splits option.splits)
  show "out_of_range e" if "parse_ql s = Inl e"
    using that py [of "strip s"] by (cases "py_int (strip s)") (auto simp: parse_ql_def Let_def split: if_splits)
qed

lemma range_errors:
  assumes "\<And>s e. parser s = Inl e \<Longrightarrow> out_of_range e" and "parse_range spec parser = Inl e"
  shows "out_of_range e"
proof -
  have side: "out_of_range e" if "parse_side parser s = Inl e" for s
    using that assms(1) by (cases "parser s") (auto simp: parse_side_def split: if_splits option.splits)
  from assms(2) show ?thesis
    unfolding parse_range_def
    by (auto split: option.splits if_splits sum.splits simp: ebind_def dest: side)
qed

lemma credit_range_errors: "parse_range spec parse_credits = Inl e \<Longrightarrow> out_of_range e"
  and ql_range_errors: "parse_range spec parse_ql = Inl e \<Longrightarrow> out_of_range e"
  by (rule range_errors [where parser = parse_credits]; simp add: text_errors)
    (rule range_errors [where parser = parse_ql]; simp add: text_errors)

lemma int_list_errors: "map_err f xs = Inl e \<Longrightarrow> \<exists>x. f x = Inl e"
  by (induction xs) (auto simp: ebind_def split: sum.splits)

lemma admitted_range: "out_of_range e \<Longrightarrow> admitted X e"
  by (simp add: admitted_def)

lemma guarded_texts [guards]:
  "guarded I (admitted X) (lift (parse_range spec parse_credits))"
  "guarded I (admitted X) (lift (parse_range spec parse_ql))"
  "guarded I (admitted X) (lift (map_err int_of_text ss))"
  "guarded I (admitted X) (int_arg m)"
  by (auto intro!: guarded_lift admitted_range simp: int_arg_def
      dest: credit_range_errors ql_range_errors int_list_errors text_errors)

lemma guarded_methods [guards]:
  assumes X: "clients_raise X env"
  shows "guarded sound (admitted X) (unregister env p)"
    and "guarded sound (admitted X) (unsubscribe env p aoid)"
    and "guarded sound (admitted X) (unsubscribe_all env p)"
    and "guarded sound (admitted X) (unsubscribe_bulk env p aoids)"
proof -
  show un: "guarded sound (admitted X) (unsubscribe env p aoid)" for aoid
    using X by (auto intro!: guards simp: unsubscribe_def)
  show "guarded sound (admitted X) (unregister env p)"
    using X by (auto intro!: guards simp: unregister_def)
  show "guarded sound (admitted X) (unsubscribe_all env p)"
    using X by (auto intro!: guards simp: unsubscribe_all_def)
  show "guarded sound (admitted X) (unsubscribe_bulk env p aoids)"
    by (auto intro!: guards un simp: unsubscribe_bulk_def bulk_step_def)
qed

lemma guarded_queries [guards]:
  "guarded sound E untrack_all"
  "guarded sound E (list_watchlist p)"
  "guarded sound (admitted X) (require_subscription p aoid)"
  "guarded sound (admitted X) (get_filter p aoid)"
  "guarded sound (admitted X) (clear_filter p aoid)"
  "guarded sound (admitted X) (set_price_filter p aoid spec)"
  "guarded sound (admitted X) (set_ql_filter p aoid spec)"
  "guarded sound E (user_stats p)"
  "guarded sound E status_summary"
  "guarded sound (admitted X) (status_details l off)"
  by (auto intro!: guards simp: untrack_all_def list_watchlist_def require_subscription_def get_filter_def clear_filter_def
        set_price_filter_def set_ql_filter_def user_stats_def status_summary_def status_details_def)

section \<open>Commands\<close>

lemma first_match_name: "first_match ps msg = Some (name, m) \<Longrightarrow> name \<in> fst ` set ps"
  by (induction ps) (auto split: option.splits)

lemma dispatch_guarded:
  assumes X: "clients_raise X env" and "name \<in> fst ` set PATTERNS" and "name \<noteq> ''apikey_generate''"
  shows "guarded sound (admitted X) (dispatch env auth random p name m)"
proof -
  have lifts: "guarded sound (admitted X) (lift (aodb_get env a))"
    "guarded sound (admitted X) (lift (aodb_search env q))" "guarded sound (admitted X) (lift (gmi_get env a))" for a q
    using X by (auto intro!: guarded_lift simp: clients_raise_def)
  show ?thesis
    unfolding dispatch_def
    by (intro guards X lifts) (use assms in \<open>auto simp: PATTERNS_def\<close>)
qed

lemma generate_guarded:
  assumes "hash_fresh w (digest auth (generate_token random))" and "sound w"
  shows "\<exists>reply. fst (dispatch env auth random p ''apikey_generate'' m w) = Inr reply"
    and "sound (snd (dispatch env auth random p ''apikey_generate'' m w))"
proof -
  have run: "fst (generate_key auth p random w) = Inr (generate_token random)"
    using assms(1) by (simp add: generate_key_run)
  then show "\<exists>reply. fst (dispatch env auth random p ''apikey_generate'' m w) = Inr reply"
    by (simp add: dispatch_def bnd_def prod_eq_iff split: prod.split)
  show "sound (snd (dispatch env auth random p ''apikey_generate'' m w))"
    using assms(2) by (auto simp: sound_def intro: keepingD consistent.dispatch typed.dispatch)
qed

lemma adapted:
  "catch m adapt_error w = (case m w of (Inl (Market_Error exc), w') \<Rightarrow> (Inr (format_error exc), w') | r \<Rightarrow> r)"
  by (auto simp: catch_def adapt_error_def split: prod.split sum.split exn.split)

section \<open>Property\<close>


definition new_world :: world where
  "new_world = empty_world\<lparr>settings := default_rows 0\<rparr>"

lemma new_world_sound: "sound new_world"
proof -
  have "db_ok new_world"
    using default_keys by (simp add: db_defs new_world_def empty_world_def unique_def refs_def below_def)
  moreover have "settings_typed new_world" by (rule default_rows_typed) (simp add: new_world_def)
  ultimately show ?thesis by (simp add: sound_def)
qed


end
