(* ===== verification/Chat_Isolation.thy ===== *)
theory Chat_Isolation
  imports Chat
begin

text \<open>
  Whose rows a chat command can touch: those of the player who sends it, with one exception.
\<close>

section \<open>The rows of everyone else\<close>

definition others :: "string \<Rightarrow> world \<Rightarrow> world \<Rightarrow> bool" where
  "others p w0 w \<longleftrightarrow>
     filter (\<lambda>u. usr_player u \<noteq> p) (users w) = filter (\<lambda>u. usr_player u \<noteq> p) (users w0)
     \<and> filter (\<lambda>s. sub_player s \<noteq> p) (subs w) = filter (\<lambda>s. sub_player s \<noteq> p) (subs w0)
     \<and> filter (\<lambda>a. alr_player a \<noteq> p) (alerts w) = filter (\<lambda>a. alr_player a \<noteq> p) (alerts w0)
     \<and> filter (\<lambda>a. act_player a \<noteq> p) (actions w) = filter (\<lambda>a. act_player a \<noteq> p) (actions w0)
     \<and> filter (\<lambda>k. key_player k \<noteq> p) (api_keys w) = filter (\<lambda>k. key_player k \<noteq> p) (api_keys w0)
     \<and> settings w = settings w0 \<and> history w = history w0 \<and> seen w = seen w0 \<and> backoffs w = backoffs w0
     \<and> wat_aoid ` set (watches w0) \<subseteq> wat_aoid ` set (watches w)"

lemma others_refl: "others p w w"
  by (simp add: others_def)

lemma filter_delete: "(\<And>r. Q r \<Longrightarrow> \<not> P r) \<Longrightarrow> filter Q (delete_where P rows) = filter Q rows"
  by (induction rows) (auto simp: delete_where_def)

lemma filter_update:
  "(\<And>r. Q r \<Longrightarrow> \<not> P r) \<Longrightarrow> (\<And>r. Q (f r) = Q r) \<Longrightarrow> filter Q (update_where P f rows) = filter Q rows"
  by (induction rows) (auto simp: update_where_def)

lemma upsert_keeps_keys: "(\<And>r. key (f r) = key r) \<Longrightarrow> key ` set rows \<subseteq> key ` set (upsert key new f rows)"
proof -
  assume same: "\<And>r. key (f r) = key r"
  then have "map key (update_where P f rows) = map key rows" for P
    by (simp add: map_update_where)
  then have "key ` set (update_where P f rows) = key ` set rows" for P
    by (metis set_map)
  then show ?thesis by (auto simp: upsert_def)
qed

lemma keeping_others: "(\<And>w. others p w (snd (m w))) \<Longrightarrow> keeping (others p w0) m"
proof (rule keepingI)
  fix w assume "\<And>w. others p w (snd (m w))" and "others p w0 w"
  then have "others p w (snd (m w))" "others p w0 w" by blast+
  then show "others p w0 (snd (m w))" unfolding others_def by simp blast
qed

lemma unregister_others: "others p w (snd (unregister_cascade p w))"
proof -
  have gone: "usr_player ` set (filter (\<lambda>u. usr_player u = p) us) \<subseteq> {p}" for us by auto
  show ?thesis
    unfolding unregister_cascade_def delete_users_def Let_def others_def
    using gone [of "users w"] by (simp add: delete_where_def filter_filter) (auto intro!: filter_cong)
qed

lemma upsert_others: "others p w (snd (upsert_watch aoid n q i auto w))"
proof -
  have "wat_aoid ` set (watches w) \<subseteq> wat_aoid ` set (upsert wat_aoid (new_watch aoid n q i auto (clock w))
      (refresh_watch n q i auto) (watches w))"
    by (rule upsert_keeps_keys) (simp add: refresh_watch_def)
  then show ?thesis by (simp add: upsert_watch_def get_watch_def with_params_def others_def)
qed

lemma key_others:
  "others p w (snd (generate_key auth p random w))"
  "others p w (snd (revoke_keys p w))"
  by (simp_all add: generate_key_run put_key_def drop_keys_def ensure_user_def filter_update new_key_def
      revoke_keys_def revoke_run others_def new_user_def)

lemma sub_others:
  "others p w (snd (add_subscription p aoid w))"
  "others p w (snd (delete_subscription p aoid w))"
  "others p w (snd (delete_all_subscriptions p w))"
  "others p w (snd (repo_register p w))"
  "others p w (snd (repo_log_action p a x w))"
  "others p w (snd (emit out w))"
  by (auto simp: others_def add_subscription_def with_params_def new_sub_def delete_subscription_def
      delete_all_subscriptions_def count_subscriptions_def is_sub_def delete_where_def filter_filter
      repo_register_def new_user_def repo_log_action_def emit_def intro!: filter_cong)

lemma update_others: "(\<And>s. sub_player (f s) = sub_player s) \<Longrightarrow> others p w (snd (update_subs p aoid f w))"
  by (simp add: update_subs_def others_def filter_update is_sub_def)

lemma others_leaves [keeps]:
  "keeping (others p w0) (emit out)"
  "keeping (others p w0) (repo_register p)"
  "keeping (others p w0) (upsert_watch aoid n q i auto)"
  "keeping (others p w0) (add_subscription p aoid)"
  "keeping (others p w0) (delete_subscription p aoid)"
  "keeping (others p w0) (delete_all_subscriptions p)"
  "keeping (others p w0) (repo_log_action p a x)"
  "keeping (others p w0) (unregister_cascade p)"
  "keeping (others p w0) (generate_key auth p random)"
  "keeping (others p w0) (revoke_keys p)"
  by (rule keeping_others, rule sub_others upsert_others unregister_others key_others)+

lemma others_filters [keeps]:
  "keeping (others p w0) (update_price_filter p aoid lo hi)"
  "keeping (others p w0) (update_ql_filter p aoid lo hi)"
  "keeping (others p w0) (repo_clear_filter p aoid)"
  unfolding update_price_filter_def update_ql_filter_def repo_clear_filter_def
  by (intro keeping_params keeping_others update_others; simp)+

lemma others_services [keeps]:
  "keeping (others p w0) (send_privgroup env msg)"
  "keeping (others p w0) (announce env q a x)"
  "keeping (others p w0) (announce_tracked env n auto)"
  "keeping (others p w0) (log_action env p a x)"
  "keeping (others p w0) (register env p)"
  "keeping (others p w0) (unregister env p)"
  "keeping (others p w0) (watch_item env aoid n ql i auto)"
  "keeping (others p w0) (unsubscribe env p aoid)"
  "keeping (others p w0) (unsubscribe_all env p)"
  "keeping (others p w0) (clear_filter p aoid)"
  "keeping (others p w0) (set_price_filter p aoid spec)"
  "keeping (others p w0) (set_ql_filter p aoid spec)"
  by (auto intro!: keeps simp: send_privgroup_def announce_def announce_tracked_def announce_background_def
      log_action_def register_def unregister_def watch_item_def unsubscribe_def unsubscribe_all_def
      clear_filter_def set_price_filter_def set_ql_filter_def split: option.split)

lemma others_more [keeps]:
  "keeping (others p w0) (subscribe env p aoid)"
  "keeping (others p w0) (unsubscribe_bulk env p aoids)"
  by (auto intro!: keeps simp: subscribe_def unsubscribe_bulk_def bulk_step_def)

lemma keeping_cases: "(b \<Longrightarrow> keeping I m) \<Longrightarrow> (\<not> b \<Longrightarrow> keeping I n) \<Longrightarrow> keeping I (if b then m else n)"
  by simp

lemma dispatch_others:
  assumes "\<not> (name = ''untrack_all'' \<and> confirmed m)"
  shows "keeping (others p w0) (dispatch env auth random p name m)"
  unfolding dispatch_def int_arg_def
  by (intro keeping_cases keeps) (use assms in simp_all)

text \<open>The message is a confirmed \<open>market untrack all\<close>.\<close>

definition untracks :: "string \<Rightarrow> bool" where
  "untracks msg = (case first_match PATTERNS msg of
     None \<Rightarrow> False | Some (name, m) \<Rightarrow> name = ''untrack_all'' \<and> confirmed m)"

lemma handle_others: "\<not> untracks msg \<Longrightarrow> keeping (others p w0) (handle_command env auth random p msg)"
  unfolding handle_command_def
  by (auto intro!: keeps dispatch_others simp: untracks_def adapt_error_def split: option.splits exn.splits)

lemma untrack_run:
  assumes "db_ok w" and "get_bool ''Enabled'' w = (Inr True, w)" and "untracks msg"
  shows "snd (handle_command env auth random p msg w) = delete_watches (\<lambda>_. True) w"
proof -
  obtain m where "first_match PATTERNS msg = Some (''untrack_all'', m)" "confirmed m"
    using assms(3) by (auto simp: untracks_def split: option.splits)
  then show ?thesis
    using assms(2) by (simp add: handle_command_def bnd_def catch_def dispatch_def untrack_all_def
        clear_watch_def count_watch_def)
qed

lemma all_untracked:
  assumes "db_ok w"
  shows "watches (delete_watches (\<lambda>_. True) w) = []" "subs (delete_watches (\<lambda>_. True) w) = []"
    "history (delete_watches (\<lambda>_. True) w) = []"
  using assms by (auto simp: delete_watches_def delete_where_def Let_def filter_empty_conv db_ok_def refs_ok_def refs_def)

section \<open>Property\<close>


definition open_world :: world where
  "open_world = filter_world\<lparr>settings := new_setting ''Enabled'' ''true'' VBool 0 # settings filter_world\<rparr>"


end
