(* ===== verification/Migrations.thy ===== *)
theory Migrations
  imports Config
begin

text \<open>
  The schema of the database: what \<open>migrations/versions/\<close> do to it, revision by revision, and what
  \<open>db/models.py\<close> declares it to be.

  A schema is a list of tables (columns and constraints), of indexes and of the named enum types. The
  operations are those of the migrations, as PostgreSQL carries them out: creating a table first
  creates the enum types of its columns, dropping it takes its indexes along and leaves the types. A
  run of migrations is one transaction: when an operation fails nothing of the run stays.
\<close>

section \<open>Schemas\<close>

datatype sql_type =
    Sql_Text | Sql_Integer | Sql_BigInteger | Sql_Boolean | Sql_Numeric | Sql_Timestamptz
  | Sql_Enum string "string list"

record column =
  col_name :: string
  col_type :: sql_type
  col_nullable :: bool
  col_serial :: bool
  col_default :: "string option"

datatype constraint =
    Primary_Key "string list"
  | Foreign_Key "string list" string "string list" string
  | Unique_Key "string option" "string list"
  | Check_In string string "string list"

record table =
  tab_name :: string
  tab_columns :: "column list"
  tab_constraints :: "constraint list"

record index =
  ix_name :: string
  ix_table :: string
  ix_columns :: "string list"

record schema =
  sch_tables :: "table list"
  sch_indexes :: "index list"
  sch_types :: "(string \<times> string list) list"

text \<open>A column as it is mostly written: not nullable, without a default.\<close>

definition col :: "string \<Rightarrow> sql_type \<Rightarrow> column" where
  "col name t = \<lparr>col_name = name, col_type = t, col_nullable = False, col_serial = False, col_default = None\<rparr>"

definition serial :: "string \<Rightarrow> column" where
  "serial name = (col name Sql_BigInteger)\<lparr>col_serial := True\<rparr>"

definition maybe :: "string \<Rightarrow> sql_type \<Rightarrow> column" where
  "maybe name t = (col name t)\<lparr>col_nullable := True\<rparr>"

definition default_to :: "string \<Rightarrow> sql_type \<Rightarrow> string \<Rightarrow> column" where
  "default_to name t v = (col name t)\<lparr>col_default := Some v\<rparr>"

definition created :: "string \<Rightarrow> column" where
  "created name = default_to name Sql_Timestamptz ''now()''"

section \<open>Operations\<close>

datatype ddl =
    Create_Table table
  | Create_Index index
  | Add_Column string column
  | Drop_Column string string
  | Drop_Index string
  | Drop_Table string

datatype ddl_error =
    Duplicate_Table string
  | Duplicate_Object string
  | Duplicate_Column string
  | Undefined_Table string
  | Undefined_Column string
  | Undefined_Object string
  | Dependent_Objects string

definition table_names :: "schema \<Rightarrow> string list" where
  "table_names d = map tab_name (sch_tables d)"

definition enum_types :: "table \<Rightarrow> (string \<times> string list) list" where
  "enum_types t = concat (map (\<lambda>c. case col_type c of Sql_Enum n vs \<Rightarrow> [(n, vs)] | _ \<Rightarrow> []) (tab_columns t))"

fun foreign_table :: "constraint \<Rightarrow> string option" where
  "foreign_table (Foreign_Key _ t _ _) = Some t"
| "foreign_table _ = None"

definition foreign_tables :: "table \<Rightarrow> string list" where
  "foreign_tables t = List.map_filter foreign_table (tab_constraints t)"

definition relation_names :: "schema \<Rightarrow> string list" where
  "relation_names d = table_names d @ map ix_name (sch_indexes d)"

definition with_table :: "string \<Rightarrow> (table \<Rightarrow> table) \<Rightarrow> schema \<Rightarrow> schema" where
  "with_table n f d = d\<lparr>sch_tables := map (\<lambda>t. if tab_name t = n then f t else t) (sch_tables d)\<rparr>"

definition columns_of :: "schema \<Rightarrow> string \<Rightarrow> string list" where
  "columns_of d n = concat (map (\<lambda>t. if tab_name t = n then map col_name (tab_columns t) else []) (sch_tables d))"

fun execute :: "ddl \<Rightarrow> schema \<Rightarrow> ddl_error + schema" where
  "execute (Create_Table t) d =
     (if \<exists>ty \<in> set (enum_types t). fst ty \<in> fst ` set (sch_types d) then Inl (Duplicate_Object (tab_name t))
      else if tab_name t \<in> set (relation_names d) then Inl (Duplicate_Table (tab_name t))
      else if \<exists>n \<in> set (foreign_tables t). n \<notin> set (table_names d) then Inl (Undefined_Table (tab_name t))
      else Inr (d\<lparr>sch_tables := sch_tables d @ [t], sch_types := sch_types d @ enum_types t\<rparr>))"
| "execute (Create_Index i) d =
     (if ix_table i \<notin> set (table_names d) then Inl (Undefined_Table (ix_table i))
      else if ix_name i \<in> set (relation_names d) then Inl (Duplicate_Table (ix_name i))
      else if \<exists>c \<in> set (ix_columns i). c \<notin> set (columns_of d (ix_table i)) then Inl (Undefined_Column (ix_name i))
      else Inr (d\<lparr>sch_indexes := sch_indexes d @ [i]\<rparr>))"
| "execute (Add_Column n c) d =
     (if n \<notin> set (table_names d) then Inl (Undefined_Table n)
      else if col_name c \<in> set (columns_of d n) then Inl (Duplicate_Column (col_name c))
      else Inr (with_table n (\<lambda>t. t\<lparr>tab_columns := tab_columns t @ [c]\<rparr>) d))"
| "execute (Drop_Column n c) d =
     (if n \<notin> set (table_names d) then Inl (Undefined_Table n)
      else if c \<notin> set (columns_of d n) then Inl (Undefined_Column c)
      else Inr (with_table n (\<lambda>t. t\<lparr>tab_columns := filter (\<lambda>x. col_name x \<noteq> c) (tab_columns t)\<rparr>) d))"
| "execute (Drop_Index n) d =
     (if n \<notin> ix_name ` set (sch_indexes d) then Inl (Undefined_Object n)
      else Inr (d\<lparr>sch_indexes := filter (\<lambda>i. ix_name i \<noteq> n) (sch_indexes d)\<rparr>))"
| "execute (Drop_Table n) d =
     (if n \<notin> set (table_names d) then Inl (Undefined_Table n)
      else if \<exists>t \<in> set (sch_tables d). tab_name t \<noteq> n \<and> n \<in> set (foreign_tables t) then Inl (Dependent_Objects n)
      else Inr (d\<lparr>sch_tables := filter (\<lambda>t. tab_name t \<noteq> n) (sch_tables d),
                 sch_indexes := filter (\<lambda>i. ix_table i \<noteq> n) (sch_indexes d)\<rparr>))"

fun execute_all :: "ddl list \<Rightarrow> schema \<Rightarrow> ddl_error + schema" where
  "execute_all [] d = Inr d"
| "execute_all (x # xs) d = (case execute x d of Inl e \<Rightarrow> Inl e | Inr d' \<Rightarrow> execute_all xs d')"

section \<open>The revisions\<close>

definition made_market_pending_alerts :: table where
  "made_market_pending_alerts = \<lparr>tab_name = ''market_pending_alerts'',
     tab_columns = [serial ''id'',
       col ''player'' Sql_Text,
       col ''aoid'' Sql_BigInteger,
       col ''message'' Sql_Text,
       created ''created_at''],
     tab_constraints = [Primary_Key [''id'']]\<rparr>"

definition made_market_seen_orders :: table where
  "made_market_seen_orders = \<lparr>tab_name = ''market_seen_orders'',
     tab_columns = [col ''aoid'' Sql_BigInteger,
       col ''fingerprint'' Sql_Text],
     tab_constraints = [Primary_Key [''aoid'', ''fingerprint'']]\<rparr>"

definition made_market_user_actions :: table where
  "made_market_user_actions = \<lparr>tab_name = ''market_user_actions'',
     tab_columns = [serial ''id'',
       col ''player'' Sql_Text,
       col ''action'' Sql_Text,
       maybe ''aoid'' Sql_BigInteger,
       created ''created_at''],
     tab_constraints = [Primary_Key [''id'']]\<rparr>"

definition made_market_users :: table where
  "made_market_users = \<lparr>tab_name = ''market_users'',
     tab_columns = [col ''player'' Sql_Text,
       created ''registered_at''],
     tab_constraints = [Primary_Key [''player'']]\<rparr>"

definition made_market_watch :: table where
  "made_market_watch = \<lparr>tab_name = ''market_watch'',
     tab_columns = [col ''aoid'' Sql_BigInteger,
       col ''name'' Sql_Text,
       col ''ql'' Sql_Integer,
       maybe ''icon'' Sql_Integer,
       created ''first_seen'',
       default_to ''last_polled'' Sql_Timestamptz ''-infinity'',
       default_to ''auto_tracked'' Sql_Boolean ''false''],
     tab_constraints = [Primary_Key [''aoid'']]\<rparr>"

definition made_settings :: table where
  "made_settings = \<lparr>tab_name = ''settings'',
     tab_columns = [col ''key'' Sql_Text,
       col ''value'' Sql_Text,
       col ''value_type'' Sql_Text,
       created ''updated_at''],
     tab_constraints = [Check_In ''ck_settings_value_type'' ''value_type'' [''bool'', ''int'', ''float'', ''str''],
       Primary_Key [''key'']]\<rparr>"

definition made_market_history :: table where
  "made_market_history = \<lparr>tab_name = ''market_history'',
     tab_columns = [serial ''id'',
       col ''aoid'' Sql_BigInteger,
       created ''ts'',
       col ''sell_count'' Sql_Integer,
       col ''buy_count'' Sql_Integer,
       maybe ''min_sell_price'' Sql_BigInteger,
       maybe ''max_buy_price'' Sql_BigInteger,
       maybe ''avg_sell_price'' Sql_Numeric,
       maybe ''avg_buy_price'' Sql_Numeric,
       maybe ''anchor_sell_count'' Sql_Integer,
       maybe ''anchor_buy_count'' Sql_Integer],
     tab_constraints = [Foreign_Key [''aoid''] ''market_watch'' [''aoid''] ''CASCADE'',
       Primary_Key [''id'']]\<rparr>"

definition made_market_subscriptions :: table where
  "made_market_subscriptions = \<lparr>tab_name = ''market_subscriptions'',
     tab_columns = [serial ''id'',
       col ''player'' Sql_Text,
       col ''aoid'' Sql_BigInteger,
       maybe ''side'' (Sql_Enum ''subscription_side'' [''buy'', ''sell'']),
       maybe ''min_price'' Sql_BigInteger,
       maybe ''max_price'' Sql_BigInteger,
       maybe ''min_ql'' Sql_Integer,
       maybe ''max_ql'' Sql_Integer,
       created ''created_at''],
     tab_constraints = [Foreign_Key [''aoid''] ''market_watch'' [''aoid''] ''CASCADE'',
       Foreign_Key [''player''] ''market_users'' [''player''] ''CASCADE'',
       Primary_Key [''id''],
       Unique_Key (Some ''uq_market_subscriptions_player_aoid'') [''player'', ''aoid'']]\<rparr>"

definition initial_upgrade :: "ddl list" where
  "initial_upgrade = [Create_Table made_market_pending_alerts,
     Create_Table made_market_seen_orders,
     Create_Table made_market_user_actions,
     Create_Index \<lparr>ix_name = ''ix_market_user_actions_player_created'', ix_table = ''market_user_actions'', ix_columns = [''player'', ''created_at'']\<rparr>,
     Create_Table made_market_users,
     Create_Table made_market_watch,
     Create_Table made_settings,
     Create_Table made_market_history,
     Create_Index \<lparr>ix_name = ''ix_market_history_aoid_ts'', ix_table = ''market_history'', ix_columns = [''aoid'', ''ts'']\<rparr>,
     Create_Table made_market_subscriptions]"

definition initial_downgrade :: "ddl list" where
  "initial_downgrade = [Drop_Table ''market_subscriptions'',
     Drop_Index ''ix_market_history_aoid_ts'',
     Drop_Table ''market_history'',
     Drop_Table ''settings'',
     Drop_Table ''market_watch'',
     Drop_Table ''market_users'',
     Drop_Index ''ix_market_user_actions_player_created'',
     Drop_Table ''market_user_actions'',
     Drop_Table ''market_seen_orders'',
     Drop_Table ''market_pending_alerts'']"

definition made_api_keys :: table where
  "made_api_keys = \<lparr>tab_name = ''api_keys'',
     tab_columns = [serial ''id'',
       col ''player'' Sql_Text,
       col ''key_hash'' Sql_Text,
       col ''prefix'' Sql_Text,
       created ''created_at'',
       maybe ''revoked_at'' Sql_Timestamptz,
       maybe ''last_used_at'' Sql_Timestamptz],
     tab_constraints = [Foreign_Key [''player''] ''market_users'' [''player''] ''CASCADE'',
       Primary_Key [''id''],
       Unique_Key None [''key_hash'']]\<rparr>"

definition api_keys_upgrade :: "ddl list" where
  "api_keys_upgrade = [Create_Table made_api_keys,
     Create_Index \<lparr>ix_name = ''ix_api_keys_player'', ix_table = ''api_keys'', ix_columns = [''player'']\<rparr>,
     Add_Column ''market_users'' (default_to ''is_admin'' Sql_Boolean ''false'')]"

definition api_keys_downgrade :: "ddl list" where
  "api_keys_downgrade = [Drop_Column ''market_users'' ''is_admin'',
     Drop_Index ''ix_api_keys_player'',
     Drop_Table ''api_keys'']"

definition made_aodb_lookup_backoff :: table where
  "made_aodb_lookup_backoff = \<lparr>tab_name = ''aodb_lookup_backoff'',
     tab_columns = [col ''aoid'' Sql_BigInteger,
       default_to ''failure_count'' Sql_Integer ''1'',
       created ''last_attempted_at'',
       col ''next_retry_at'' Sql_Timestamptz],
     tab_constraints = [Primary_Key [''aoid'']]\<rparr>"

definition backoff_upgrade :: "ddl list" where
  "backoff_upgrade = [Create_Table made_aodb_lookup_backoff]"

definition backoff_downgrade :: "ddl list" where
  "backoff_downgrade = [Drop_Table ''aodb_lookup_backoff'']"

section \<open>The models\<close>

definition declared_market_users :: table where
  "declared_market_users = \<lparr>tab_name = ''market_users'',
     tab_columns = [col ''player'' Sql_Text,
       created ''registered_at'',
       default_to ''is_admin'' Sql_Boolean ''false''],
     tab_constraints = [Primary_Key [''player'']]\<rparr>"

definition declared_market_watch :: table where
  "declared_market_watch = \<lparr>tab_name = ''market_watch'',
     tab_columns = [col ''aoid'' Sql_BigInteger,
       col ''name'' Sql_Text,
       col ''ql'' Sql_Integer,
       maybe ''icon'' Sql_Integer,
       created ''first_seen'',
       default_to ''last_polled'' Sql_Timestamptz ''-infinity'',
       default_to ''auto_tracked'' Sql_Boolean ''false''],
     tab_constraints = [Primary_Key [''aoid'']]\<rparr>"

definition declared_market_history :: table where
  "declared_market_history = \<lparr>tab_name = ''market_history'',
     tab_columns = [serial ''id'',
       col ''aoid'' Sql_BigInteger,
       created ''ts'',
       col ''sell_count'' Sql_Integer,
       col ''buy_count'' Sql_Integer,
       maybe ''min_sell_price'' Sql_BigInteger,
       maybe ''max_buy_price'' Sql_BigInteger,
       maybe ''avg_sell_price'' Sql_Numeric,
       maybe ''avg_buy_price'' Sql_Numeric,
       maybe ''anchor_sell_count'' Sql_Integer,
       maybe ''anchor_buy_count'' Sql_Integer],
     tab_constraints = [Foreign_Key [''aoid''] ''market_watch'' [''aoid''] ''CASCADE'',
       Primary_Key [''id'']]\<rparr>"

definition declared_market_subscriptions :: table where
  "declared_market_subscriptions = \<lparr>tab_name = ''market_subscriptions'',
     tab_columns = [serial ''id'',
       col ''player'' Sql_Text,
       col ''aoid'' Sql_BigInteger,
       maybe ''side'' (Sql_Enum ''subscription_side'' [''buy'', ''sell'']),
       maybe ''min_price'' Sql_BigInteger,
       maybe ''max_price'' Sql_BigInteger,
       maybe ''min_ql'' Sql_Integer,
       maybe ''max_ql'' Sql_Integer,
       created ''created_at''],
     tab_constraints = [Foreign_Key [''player''] ''market_users'' [''player''] ''CASCADE'',
       Foreign_Key [''aoid''] ''market_watch'' [''aoid''] ''CASCADE'',
       Primary_Key [''id''],
       Unique_Key (Some ''uq_market_subscriptions_player_aoid'') [''player'', ''aoid'']]\<rparr>"

definition declared_market_seen_orders :: table where
  "declared_market_seen_orders = \<lparr>tab_name = ''market_seen_orders'',
     tab_columns = [col ''aoid'' Sql_BigInteger,
       col ''fingerprint'' Sql_Text],
     tab_constraints = [Primary_Key [''aoid'', ''fingerprint'']]\<rparr>"

definition declared_market_pending_alerts :: table where
  "declared_market_pending_alerts = \<lparr>tab_name = ''market_pending_alerts'',
     tab_columns = [serial ''id'',
       col ''player'' Sql_Text,
       col ''aoid'' Sql_BigInteger,
       col ''message'' Sql_Text,
       created ''created_at''],
     tab_constraints = [Primary_Key [''id'']]\<rparr>"

definition declared_market_user_actions :: table where
  "declared_market_user_actions = \<lparr>tab_name = ''market_user_actions'',
     tab_columns = [serial ''id'',
       col ''player'' Sql_Text,
       col ''action'' Sql_Text,
       maybe ''aoid'' Sql_BigInteger,
       created ''created_at''],
     tab_constraints = [Primary_Key [''id'']]\<rparr>"

definition declared_api_keys :: table where
  "declared_api_keys = \<lparr>tab_name = ''api_keys'',
     tab_columns = [serial ''id'',
       col ''player'' Sql_Text,
       col ''key_hash'' Sql_Text,
       col ''prefix'' Sql_Text,
       created ''created_at'',
       maybe ''revoked_at'' Sql_Timestamptz,
       maybe ''last_used_at'' Sql_Timestamptz],
     tab_constraints = [Foreign_Key [''player''] ''market_users'' [''player''] ''CASCADE'',
       Primary_Key [''id''],
       Unique_Key None [''key_hash'']]\<rparr>"

definition declared_aodb_lookup_backoff :: table where
  "declared_aodb_lookup_backoff = \<lparr>tab_name = ''aodb_lookup_backoff'',
     tab_columns = [col ''aoid'' Sql_BigInteger,
       default_to ''failure_count'' Sql_Integer ''1'',
       created ''last_attempted_at'',
       col ''next_retry_at'' Sql_Timestamptz],
     tab_constraints = [Primary_Key [''aoid'']]\<rparr>"

definition declared_settings :: table where
  "declared_settings = \<lparr>tab_name = ''settings'',
     tab_columns = [col ''key'' Sql_Text,
       col ''value'' Sql_Text,
       col ''value_type'' Sql_Text,
       created ''updated_at''],
     tab_constraints = [Check_In ''ck_settings_value_type'' ''value_type'' [''bool'', ''int'', ''float'', ''str''],
       Primary_Key [''key'']]\<rparr>"

definition declared_tables :: "table list" where
  "declared_tables = [declared_market_users,
     declared_market_watch,
     declared_market_history,
     declared_market_subscriptions,
     declared_market_seen_orders,
     declared_market_pending_alerts,
     declared_market_user_actions,
     declared_api_keys,
     declared_aodb_lookup_backoff,
     declared_settings]"

definition declared_indexes :: "index list" where
  "declared_indexes =
    [\<lparr>ix_name = ''ix_market_history_aoid_ts'', ix_table = ''market_history'', ix_columns = [''aoid'', ''ts'']\<rparr>,
     \<lparr>ix_name = ''ix_market_user_actions_player_created'', ix_table = ''market_user_actions'', ix_columns = [''player'', ''created_at'']\<rparr>,
     \<lparr>ix_name = ''ix_api_keys_player'', ix_table = ''api_keys'', ix_columns = [''player'']\<rparr>]"

section \<open>Runs\<close>

record revision =
  revision_id :: string
  down_revision :: "string option"
  upgrade :: "ddl list"
  downgrade :: "ddl list"

definition initial_revision :: revision where
  "initial_revision = \<lparr>revision_id = ''ef9f279ce6b5'', down_revision = None,
     upgrade = initial_upgrade, downgrade = initial_downgrade\<rparr>"

definition api_keys_revision :: revision where
  "api_keys_revision = \<lparr>revision_id = ''61dca6f1a427'', down_revision = Some ''ef9f279ce6b5'',
     upgrade = api_keys_upgrade, downgrade = api_keys_downgrade\<rparr>"

definition backoff_revision :: revision where
  "backoff_revision = \<lparr>revision_id = ''d9aefd01bbb0'', down_revision = Some ''61dca6f1a427'',
     upgrade = backoff_upgrade, downgrade = backoff_downgrade\<rparr>"

definition script_directory :: "revision list" where
  "script_directory = [api_keys_revision, backoff_revision, initial_revision]"

text \<open>The revisions above the current one, and those from it down; each at most once.\<close>

fun revisions_up :: "nat \<Rightarrow> string option \<Rightarrow> revision list" where
  "revisions_up 0 cur = []"
| "revisions_up (Suc n) cur = (case find (\<lambda>r. down_revision r = cur) script_directory of
     None \<Rightarrow> [] | Some r \<Rightarrow> r # revisions_up n (Some (revision_id r)))"

fun revisions_down :: "nat \<Rightarrow> string option \<Rightarrow> revision list" where
  "revisions_down 0 cur = []"
| "revisions_down (Suc n) cur = (case find (\<lambda>r. Some (revision_id r) = cur) script_directory of
     None \<Rightarrow> [] | Some r \<Rightarrow> r # revisions_down n (down_revision r))"

definition upgrade_head :: "string option \<times> schema \<Rightarrow> ddl_error + string option \<times> schema" where
  "upgrade_head db = (case db of (cur, d) \<Rightarrow> let rs = revisions_up (length script_directory) cur in
     case execute_all (concat (map upgrade rs)) d of
       Inl e \<Rightarrow> Inl e
     | Inr d' \<Rightarrow> Inr (if rs = [] then cur else Some (revision_id (last rs)), d'))"

definition downgrade_base :: "string option \<times> schema \<Rightarrow> ddl_error + string option \<times> schema" where
  "downgrade_base db = (case db of (cur, d) \<Rightarrow> let rs = revisions_down (length script_directory) cur in
     case execute_all (concat (map downgrade rs)) d of Inl e \<Rightarrow> Inl e | Inr d' \<Rightarrow> Inr (None, d'))"

section \<open>Other people's tables\<close>

definition beside :: "schema \<Rightarrow> schema \<Rightarrow> schema" where
  "beside d e = \<lparr>sch_tables = sch_tables d @ sch_tables e, sch_indexes = sch_indexes d @ sch_indexes e,
     sch_types = sch_types d @ sch_types e\<rparr>"

definition empty_schema :: schema where
  "empty_schema = \<lparr>sch_tables = [], sch_indexes = [], sch_types = []\<rparr>"

lemma beside_empty: "beside d empty_schema = d"
  by (simp add: beside_def empty_schema_def)

text \<open>The names an operation deals with.\<close>

fun names_of :: "ddl \<Rightarrow> string list" where
  "names_of (Create_Table t) = tab_name t # foreign_tables t @ map fst (enum_types t)"
| "names_of (Create_Index i) = [ix_name i, ix_table i]"
| "names_of (Add_Column n c) = [n]"
| "names_of (Drop_Column n c) = [n]"
| "names_of (Drop_Index n) = [n]"
| "names_of (Drop_Table n) = [n]"

text \<open>A schema that knows nothing of a name.\<close>

definition free_of :: "schema \<Rightarrow> string \<Rightarrow> bool" where
  "free_of d n \<longleftrightarrow> n \<notin> set (relation_names d) \<and> n \<notin> fst ` set (sch_types d)
     \<and> (\<forall>t \<in> set (sch_tables d). n \<notin> set (foreign_tables t)) \<and> (\<forall>i \<in> set (sch_indexes d). ix_table i \<noteq> n)"

lemma columns_beside: "n \<notin> tab_name ` set (sch_tables d) \<Longrightarrow> columns_of (beside d e) n = columns_of e n"
  by (auto simp: columns_of_def beside_def image_iff)

lemma with_table_beside:
  assumes "n \<notin> tab_name ` set (sch_tables d)"
  shows "with_table n f (beside d e) = beside d (with_table n f e)"
proof -
  have "map (\<lambda>t. if tab_name t = n then f t else t) (sch_tables d) = sch_tables d"
    using assms by (intro map_idI) auto
  then show ?thesis by (simp add: with_table_def beside_def)
qed

lemma execute_beside:
  assumes "list_all (free_of d) (names_of x)"
  shows "execute x (beside d e) = (case execute x e of Inl y \<Rightarrow> Inl y | Inr e' \<Rightarrow> Inr (beside d e'))"
  using assms
proof (cases x)
  case (Create_Table t)
  with assms have foreign: "\<And>n. n \<in> set (foreign_tables t) \<Longrightarrow> n \<notin> tab_name ` set (sch_tables d)"
    and types: "\<And>ty. ty \<in> set (enum_types t) \<Longrightarrow> fst ty \<notin> fst ` set (sch_types d)"
    and name: "tab_name t \<notin> set (relation_names d)"
    by (auto simp: list_all_iff free_of_def relation_names_def table_names_def)
  have "(\<exists>ty \<in> set (enum_types t). fst ty \<in> fst ` set (sch_types (beside d e)))
      \<longleftrightarrow> (\<exists>ty \<in> set (enum_types t). fst ty \<in> fst ` set (sch_types e))"
    using types by (simp add: beside_def image_Un)
  moreover have "tab_name t \<in> set (relation_names (beside d e)) \<longleftrightarrow> tab_name t \<in> set (relation_names e)"
    using name by (auto simp: relation_names_def table_names_def beside_def)
  moreover have "(\<exists>n \<in> set (foreign_tables t). n \<notin> set (table_names (beside d e)))
      \<longleftrightarrow> (\<exists>n \<in> set (foreign_tables t). n \<notin> set (table_names e))"
    using foreign by (auto simp: table_names_def beside_def)
  ultimately show ?thesis using Create_Table by (simp add: beside_def)
next
  case (Drop_Table n)
  with assms have free: "n \<notin> tab_name ` set (sch_tables d)" "\<forall>t \<in> set (sch_tables d). n \<notin> set (foreign_tables t)"
    "\<forall>i \<in> set (sch_indexes d). ix_table i \<noteq> n"
    by (auto simp: free_of_def relation_names_def table_names_def)
  have "n \<in> set (table_names (beside d e)) \<longleftrightarrow> n \<in> set (table_names e)"
    "(\<exists>t \<in> set (sch_tables (beside d e)). tab_name t \<noteq> n \<and> n \<in> set (foreign_tables t))
      \<longleftrightarrow> (\<exists>t \<in> set (sch_tables e). tab_name t \<noteq> n \<and> n \<in> set (foreign_tables t))"
    using free by (auto simp: table_names_def beside_def)
  moreover have "filter (\<lambda>t. tab_name t \<noteq> n) (sch_tables d) = sch_tables d"
    "filter (\<lambda>i. ix_table i \<noteq> n) (sch_indexes d) = sch_indexes d"
    using free by (auto intro!: filter_True)
  ultimately show ?thesis using Drop_Table by (simp add: beside_def) blast
next
  case (Create_Index i)
  with assms have free: "ix_table i \<notin> tab_name ` set (sch_tables d)" "ix_name i \<notin> set (relation_names d)"
    by (auto simp: free_of_def relation_names_def table_names_def)
  have "ix_table i \<in> set (table_names (beside d e)) \<longleftrightarrow> ix_table i \<in> set (table_names e)"
    "ix_name i \<in> set (relation_names (beside d e)) \<longleftrightarrow> ix_name i \<in> set (relation_names e)"
    using free by (auto simp: relation_names_def table_names_def beside_def)
  moreover have "columns_of (beside d e) (ix_table i) = columns_of e (ix_table i)"
    using free(1) by (rule columns_beside)
  ultimately show ?thesis using Create_Index by (simp add: beside_def)
next
  case (Add_Column n c)
  with assms have free: "n \<notin> tab_name ` set (sch_tables d)" by (auto simp: free_of_def relation_names_def table_names_def)
  have "n \<in> set (table_names (beside d e)) \<longleftrightarrow> n \<in> set (table_names e)" using free by (auto simp: table_names_def beside_def)
  with Add_Column columns_beside [OF free] with_table_beside [OF free] show ?thesis by simp
next
  case (Drop_Column n c)
  with assms have free: "n \<notin> tab_name ` set (sch_tables d)" by (auto simp: free_of_def relation_names_def table_names_def)
  have "n \<in> set (table_names (beside d e)) \<longleftrightarrow> n \<in> set (table_names e)" using free by (auto simp: table_names_def beside_def)
  with Drop_Column columns_beside [OF free] with_table_beside [OF free] show ?thesis by simp
next
  case (Drop_Index n)
  with assms have free: "n \<notin> ix_name ` set (sch_indexes d)" by (auto simp: free_of_def relation_names_def)
  then have "filter (\<lambda>i. ix_name i \<noteq> n) (sch_indexes d) = sch_indexes d" by (auto intro!: filter_True)
  with Drop_Index free show ?thesis by (simp add: beside_def image_Un)
qed

lemma execute_all_beside:
  assumes "list_all (free_of d) (concat (map names_of xs))"
  shows "execute_all xs (beside d e) = (case execute_all xs e of Inl y \<Rightarrow> Inl y | Inr e' \<Rightarrow> Inr (beside d e'))"
  using assms
  by (induction xs arbitrary: e) (auto simp: execute_beside split: sum.split)

section \<open>The revisions evaluated\<close>

definition up_to_head :: "ddl list" where
  "up_to_head = initial_upgrade @ api_keys_upgrade @ backoff_upgrade"

definition down_to_base :: "ddl list" where
  "down_to_base = backoff_downgrade @ api_keys_downgrade @ initial_downgrade"

lemma revisions: 
  "revisions_up (length script_directory) None = [initial_revision, api_keys_revision, backoff_revision]"
  "revisions_down (length script_directory) (Some ''d9aefd01bbb0'') = [backoff_revision, api_keys_revision, initial_revision]"
  by code_simp+

definition upgraded :: schema where
  "upgraded = (case execute_all up_to_head empty_schema of Inl e \<Rightarrow> empty_schema | Inr d \<Rightarrow> d)"

definition left_type :: "string \<times> string list" where
  "left_type = (''subscription_side'', [''buy'', ''sell''])"

definition same_table :: "table \<Rightarrow> table \<Rightarrow> bool" where
  "same_table t u \<longleftrightarrow> tab_name t = tab_name u \<and> tab_columns t = tab_columns u
     \<and> set (tab_constraints t) = set (tab_constraints u)"

lemma up_run: "execute_all up_to_head empty_schema = Inr upgraded"
  by code_simp

lemma down_run: "execute_all down_to_base upgraded = Inr (empty_schema\<lparr>sch_types := [left_type]\<rparr>)"
  by code_simp

lemma up_again: "execute_all up_to_head (empty_schema\<lparr>sch_types := [left_type]\<rparr>)
    = Inl (Duplicate_Object ''market_subscriptions'')"
  by code_simp

lemma upgraded_declared:
  "list_all (\<lambda>t. list_ex (same_table t) declared_tables) (sch_tables upgraded)"
  "list_all (\<lambda>u. list_ex (\<lambda>t. same_table t u) (sch_tables upgraded)) declared_tables"
  "set (sch_indexes upgraded) = set declared_indexes"
  "sch_types upgraded = [left_type]"
  by code_simp+

definition own_names :: "string list" where
  "own_names = concat (map names_of (up_to_head @ down_to_base))"

lemma runs_beside:
  assumes "list_all (free_of d) own_names"
  shows "upgrade_head (None, beside d e) = (case execute_all up_to_head e of
      Inl x \<Rightarrow> Inl x | Inr e' \<Rightarrow> Inr (Some ''d9aefd01bbb0'', beside d e'))"
    and "downgrade_base (Some ''d9aefd01bbb0'', beside d e) = (case execute_all down_to_base e of
      Inl x \<Rightarrow> Inl x | Inr e' \<Rightarrow> Inr (None, beside d e'))"
proof -
  have names: "list_all (free_of d) (concat (map names_of up_to_head))"
    "list_all (free_of d) (concat (map names_of down_to_base))"
    using assms by (simp_all add: own_names_def)
  have "concat (map upgrade [initial_revision, api_keys_revision, backoff_revision]) = up_to_head"
    "concat (map downgrade [backoff_revision, api_keys_revision, initial_revision]) = down_to_base"
    by (simp_all add: initial_revision_def api_keys_revision_def backoff_revision_def up_to_head_def down_to_base_def)
  with revisions execute_all_beside [OF names(1), of e] execute_all_beside [OF names(2), of e]
  show "upgrade_head (None, beside d e) = (case execute_all up_to_head e of
      Inl x \<Rightarrow> Inl x | Inr e' \<Rightarrow> Inr (Some ''d9aefd01bbb0'', beside d e'))"
    and "downgrade_base (Some ''d9aefd01bbb0'', beside d e) = (case execute_all down_to_base e of
      Inl x \<Rightarrow> Inl x | Inr e' \<Rightarrow> Inr (None, beside d e'))"
    by (auto simp: upgrade_head_def downgrade_base_def Let_def backoff_revision_def split: sum.split)
qed

section \<open>Property\<close>

text \<open>C38. In a database that has other tables of other names, the migrations end with exactly the tables the
  models declare (columns in their order, keys, references, checks) and their indexes, beside what was
  there. Going down to the base again takes all of them away, but not the enum type of the
  subscriptions' side; so going up a second time fails, when it comes to the table of subscriptions.\<close>

theorem migrations_reach_models:
  assumes "list_all (free_of d) own_names"
  obtains d1 d2 where "upgrade_head (None, d) = Inr (Some ''d9aefd01bbb0'', d1)"
    and "\<exists>made. sch_tables d1 = sch_tables d @ made
      \<and> list_all (\<lambda>t. list_ex (same_table t) declared_tables) made
      \<and> list_all (\<lambda>u. list_ex (\<lambda>t. same_table t u) made) declared_tables"
    and "set (sch_indexes d1) = set (sch_indexes d) \<union> set declared_indexes"
    and "downgrade_base (Some ''d9aefd01bbb0'', d1) = Inr (None, d2)"
    and "d2 = d\<lparr>sch_types := sch_types d @ [(''subscription_side'', [''buy'', ''sell''])]\<rparr>"
    and "upgrade_head (None, d2) = Inl (Duplicate_Object ''market_subscriptions'')"
proof -
  let ?left = "empty_schema\<lparr>sch_types := [left_type]\<rparr>"
  have left: "beside d ?left = d\<lparr>sch_types := sch_types d @ [left_type]\<rparr>"
    by (simp add: beside_def empty_schema_def)
  show thesis
  proof (rule that [of "beside d upgraded" "beside d ?left"])
    show "upgrade_head (None, d) = Inr (Some ''d9aefd01bbb0'', beside d upgraded)"
      using runs_beside(1) [OF assms, of empty_schema] by (simp add: beside_empty up_run)
    show "\<exists>made. sch_tables (beside d upgraded) = sch_tables d @ made
      \<and> list_all (\<lambda>t. list_ex (same_table t) declared_tables) made
      \<and> list_all (\<lambda>u. list_ex (\<lambda>t. same_table t u) made) declared_tables"
      using upgraded_declared(1,2) by (auto simp: beside_def)
    show "set (sch_indexes (beside d upgraded)) = set (sch_indexes d) \<union> set declared_indexes"
      by (simp add: beside_def upgraded_declared(3))
    show "downgrade_base (Some ''d9aefd01bbb0'', beside d upgraded) = Inr (None, beside d ?left)"
      using runs_beside(2) [OF assms, of upgraded] by (simp add: down_run)
    show "beside d ?left = d\<lparr>sch_types := sch_types d @ [(''subscription_side'', [''buy'', ''sell''])]\<rparr>"
      using left by (simp add: left_type_def)
    show "upgrade_head (None, beside d ?left) = Inl (Duplicate_Object ''market_subscriptions'')"
      using runs_beside(1) [OF assms, of ?left] by (simp add: up_again)
  qed
qed

definition version_table :: table where
  "version_table = \<lparr>tab_name = ''alembic_version'', tab_columns = [col ''version_num'' Sql_Text],
     tab_constraints = [Primary_Key [''version_num'']]\<rparr>"

theorem migrations_reach_models_witness:
  "\<exists>d1. upgrade_head (None, \<lparr>sch_tables = [version_table], sch_indexes = [], sch_types = []\<rparr>) = Inr (Some ''d9aefd01bbb0'', d1)
     \<and> set (sch_indexes d1) = set declared_indexes"
proof -
  let ?d = "\<lparr>sch_tables = [version_table], sch_indexes = [], sch_types = []\<rparr>"
  have free: "list_all (free_of ?d) own_names" by code_simp
  show ?thesis by (rule migrations_reach_models [OF free]) simp
qed

end
