(* ===== verification/Admin_Settings.thy ===== *)
theory Admin_Settings
  imports Typed_Settings
begin

text \<open>
  What the \<open>!settings\<close> command achieves when the settings are typed: it always answers, writes only
  values of the type of the row, and what it writes is read back.
\<close>

section \<open>Numbers from text\<close>

lemma digit_groups_Some: "digit_groups b s = Some ds \<Longrightarrow> list_all is_digit ds \<and> (\<not> b \<longrightarrow> ds \<noteq> [])"
  by (induction s arbitrary: b ds) (auto split: if_splits)

lemma digits_val_bound: "list_all is_digit ds \<Longrightarrow> digits_val ds < 10 ^ length ds"
proof (induction ds rule: rev_induct)
  case (snoc c ds)
  then have "ordc c - 48 \<le> 9" "digits_val ds < 10 ^ length ds" by (auto simp: is_digit_def)
  then show ?case by (simp add: digits_val_simps)
qed (simp add: digits_val_simps)

lemma length_nat_str: "n < 10 ^ k \<Longrightarrow> 0 < k \<Longrightarrow> length (nat_str n) \<le> k"
proof (induction k arbitrary: n)
  case (Suc k)
  show ?case
  proof (cases "n < 10")
    case False
    then have "0 < k" using Suc.prems(1) by (cases k) auto
    moreover have "n div 10 < 10 ^ k" using Suc.prems(1) by (simp add: less_mult_imp_div_less mult.commute)
    ultimately show ?thesis using Suc.IH [of "n div 10"] False by (subst nat_str.simps) simp
  qed (subst nat_str.simps, simp)
qed simp

lemma int_of_text_length:
  assumes "int_of_text s = Inr n"
  shows "length (nat_str (nat \<bar>n\<bar>)) \<le> digits_limit"
proof -
  obtain neg t where sign: "split_sign (strip s) = (neg, t)" by fastforce
  from assms sign obtain ds where ds: "digit_groups False t = Some ds" "length ds \<le> digits_limit"
    and n: "n = (if neg then - int (digits_val ds) else int (digits_val ds))"
    by (auto simp: int_of_text_def split: option.splits if_splits)
  from digit_groups_Some [OF ds(1)] have "list_all is_digit ds" "ds \<noteq> []" by simp_all
  then have "length (nat_str (digits_val ds)) \<le> length ds"
    by (intro length_nat_str digits_val_bound) simp_all
  with ds(2) n show ?thesis by simp
qed

section \<open>The command\<close>

text \<open>With typed settings the coercion yields a value that fits the row, or a reply.\<close>

lemma coercion_run:
  assumes "settings_typed w"
  shows "(setting_type w key = None \<and> coercion ft key raw w = (Inl (Unknown_Setting key), w))
    \<or> (\<exists>reply. coercion ft key raw w = (Inr (Inl reply), w))
    \<or> (\<exists>v. fits w key v \<and> coercion ft key raw w = (Inr (Inr v), w))"
proof (cases "row_with set_key key (settings w)")
  case None
  then show ?thesis
    by (simp add: setting_type_def coercion_def coerce_setting_value_def setting_get_simp bnd_def catch_def
        is_value_error_def)
next
  case (Some r)
  from typed_row [OF assms Some] obtain x where x: "setting_get key w = (Inr x, w)"
    and same: "same_type x (set_value_type r)" "set_value_type r \<noteq> VFloat" by blast
  have vt: "setting_type w key = Some (set_value_type r)" using Some by (simp add: setting_type_def)
  show ?thesis
  proof (cases x)
    case (SBool b)
    then have "fits w key (SBool c)" for c using same vt by (simp add: fits_def has_type_def same_type_def)
    with x SBool show ?thesis
      by (auto simp: coercion_def coerce_setting_value_def bnd_def catch_def coerce_bool_def Let_def is_value_error_def)
  next
    case (SInt m)
    then have "fits w key (SInt n)" if "int_of_text raw = Inr n" for n
      using same vt int_of_text_length [OF that] by (simp add: fits_def has_type_def same_type_def)
    with x SInt show ?thesis
      by (cases "int_of_text raw")
        (auto simp: coercion_def coerce_setting_value_def bnd_def catch_def coerce_int_def is_value_error_def)
  next
    case (SFloat s)
    with same show ?thesis by (simp add: same_type_def)
  next
    case (SStr s)
    then have "fits w key (SStr raw)" using same vt by (simp add: fits_def has_type_def same_type_def)
    with x SStr show ?thesis
      by (auto simp: coercion_def coerce_setting_value_def bnd_def catch_def)
  qed
qed

lemma all_readable:
  assumes "list_all readable_row rows"
  shows "\<exists>kvs. deserialize_all rows = Inr kvs"
  using assms
proof (induction rows)
  case (Cons r rows)
  then obtain x where "deserialize (set_value r) (set_value_type r) = Inr x"
    by (cases "deserialize (set_value r) (set_value_type r)") (auto simp: readable_row_def)
  with Cons show ?case by auto
qed simp

definition wrote :: "string \<Rightarrow> string \<Rightarrow> world \<Rightarrow> world \<Rightarrow> bool" where
  "wrote msg reply w w' \<longleftrightarrow> (\<exists>m v. first_match ADMIN_PATTERNS msg = Some (''settings_set'', m)
     \<and> fits w (match_group m 1) v \<and> w' = snd (setting_set (match_group m 1) v w)
     \<and> fst (setting_get (match_group m 1) w') = Inr v \<and> reply = setting_line (match_group m 1) v)"

lemma admin_dispatch_run:
  assumes typed: "settings_typed w" and first: "first_match ADMIN_PATTERNS msg = Some (name, m)"
  shows "\<exists>reply w'. catch (admin_dispatch ft name m) adapt_unknown w = (Inr reply, w')
    \<and> (w' = w \<or> wrote msg reply w w')"
proof -
  have "name \<in> {''settings_set'', ''settings_get'', ''settings_list''}"
    using first by (auto simp: ADMIN_PATTERNS_def split: option.splits)
  then consider (set) "name = ''settings_set''" | (get) "name = ''settings_get''" | (list) "name = ''settings_list''"
    by blast
  then show ?thesis
  proof cases
    case set
    let ?key = "match_group m 1"
    from coercion_run [OF typed, of ?key ft "strip (match_group m 2)"] show ?thesis
    proof (elim disjE exE conjE)
      fix v assume v: "fits w ?key v" and run: "coercion ft ?key (strip (match_group m 2)) w = (Inr (Inr v), w)"
      obtain u where u: "setting_set ?key v w = (Inr (), u)"
        using store.put_total [OF v] by (cases "setting_set ?key v w") simp
      then have get: "setting_get ?key u = (Inr v, u)"
        using store.put_same [OF v] store.get_pure [of ?key u] by (simp add: prod_eq_iff)
      have "catch (admin_dispatch ft name m) adapt_unknown w = (Inr (setting_line ?key v), u)"
        using run set u get by (simp add: admin_dispatch_def Let_def bnd_def catch_def)
      moreover have "wrote msg (setting_line ?key v) w u"
        unfolding wrote_def using first set v u get by (intro exI [of _ m] exI [of _ v]) simp
      ultimately show ?thesis by blast
    qed (use set in \<open>simp_all add: admin_dispatch_def Let_def bnd_def catch_def adapt_unknown_def\<close>)
  next
    case get
    show ?thesis
    proof (cases "row_with set_key (match_group m 1) (settings w)")
      case None
      with get show ?thesis
        by (simp add: admin_dispatch_def bnd_def setting_get_simp catch_def adapt_unknown_def)
    next
      case (Some r)
      obtain x where "setting_get (match_group m 1) w = (Inr x, w)" by (rule typed_row [OF typed Some])
      with get show ?thesis by (simp add: admin_dispatch_def bnd_def catch_def)
    qed
  next
    case list
    with all_readable typed show ?thesis
      by (fastforce simp: admin_dispatch_def bnd_def setting_all_def catch_def settings_typed_def)
  qed
qed

lemma admin_pure: "\<exists>admin. is_admin_player auth player w = (Inr admin, w)"
  by (auto simp: is_admin_player_def get_user_def)

section \<open>Property\<close>

text \<open>C25. Settings stay typed under the \<open>!settings\<close> command. With typed settings the command always
  answers, whoever writes whatever: a player who is no administrator gets no answer of its own (the
  message goes on to the market commands) and changes nothing; for an administrator the settings
  change only by a well-formed write to an existing key, of a value of that key's type, which is what
  the reply shows and what reading the key gives afterwards; and the settings are typed again.\<close>

theorem admin_command_keeps_types:
  assumes "settings_typed w"
  shows "\<exists>reply w'. handle_admin_command auth float_text player msg w = (Inr reply, w')
    \<and> settings_typed w'
    \<and> (if fst (is_admin_player auth player w) = Inr True
       then w' = w \<or> (\<exists>line. reply = Some line \<and> wrote msg line w w')
       else reply = None \<and> w' = w)"
proof -
  obtain admin where admin: "is_admin_player auth player w = (Inr admin, w)"
    using admin_pure by blast
  have typed: "settings_typed (snd (handle_admin_command auth float_text player msg w))"
    using keepingD [OF typed.handle_admin_command assms] .
  show ?thesis
  proof (cases "first_match ADMIN_PATTERNS msg")
    case None
    with assms show ?thesis by (simp add: handle_admin_command_def admin)
  next
    case (Some nm)
    obtain name m where nm: "nm = (name, m)" by fastforce
    obtain reply w' where run: "catch (admin_dispatch float_text name m) adapt_unknown w = (Inr reply, w')"
      and "w' = w \<or> wrote msg reply w w'"
      using admin_dispatch_run [OF assms Some [unfolded nm]] by blast
    then show ?thesis
      using assms typed Some nm admin by (cases admin) (auto simp: handle_admin_command_def bnd_def)
  qed
qed

definition fresh_settings :: world where
  "fresh_settings = empty_world\<lparr>settings := default_rows 0\<rparr>"

theorem admin_command_keeps_types_witness:
  "settings_typed (snd (handle_admin_command sample_auth (\<lambda>_. None) ''Owner''
     ''!settings PollBatchSize 50'' fresh_settings))"
proof -
  have "settings_typed fresh_settings" by (rule default_rows_typed) (simp add: fresh_settings_def)
  from admin_command_keeps_types [OF this, of sample_auth "\<lambda>_. None" "''Owner''" "''!settings PollBatchSize 50''"]
  show ?thesis by auto
qed

end
