(* ===== verification/Chat_Client.thy ===== *)
theory Chat_Client
  imports Crypto Polling
begin

text \<open>
  \<open>aochat/client.py\<close> and the connection of \<open>aochat/protocol.py\<close>: the chat session.

  A \<open>client\<close> holds what the object keeps, the bytes the server will still send (\<open>inbound\<close>; at their
  end the connection is closed) and the bytes written so far (\<open>outbound\<close>). \<open>link_up\<close> says whether a
  write still goes through. A \<open>Future\<close> of a lookup is a position in \<open>futures\<close>: None while it is
  pending. The random numbers of the login key are arguments, as in \<open>Crypto\<close>.

  A coroutine runs alone up to an \<open>await\<close> that blocks. \<open>lookup_user\<close> is therefore given as the part
  before its wait (\<open>lookup_begin\<close>) and the part behind it (\<open>lookup_end\<close>); what other tasks do
  in between comes between the two.

  The operations work on every record that extends \<open>client\<close>, because the handlers the reader calls
  (\<open>handlers\<close>) work on the state of the whole bot.
\<close>

section \<open>The session\<close>

record character_info =
  chr_id :: nat
  chr_name :: string
  chr_level :: nat
  chr_online :: nat

record client =
  username :: string
  password :: string
  character_name :: string
  connected :: bool
  link_up :: bool
  inbound :: bytes
  outbound :: bytes
  characters :: "character_info list"
  selected :: "character_info option"
  waiters :: "(string \<times> nat) list"
  futures :: "nat option option list"
  buddy_online :: "(nat \<times> bool) list"
  name_to_id :: "(string \<times> nat) list"
  id_to_name :: "(nat \<times> string) list"
  client_stopping :: bool

definition NO_ID :: nat where "NO_ID = 0xFFFFFFFF"

section \<open>The connection\<close>

definition conn_read :: "('a client_scheme, inbound_packet) eff" where
  "conn_read = (\<lambda>c. if \<not> connected c then (Inl Assertion_Error, c)
     else (case read_packet (inbound c) of (r, rest) \<Rightarrow> (r, c\<lparr>inbound := rest\<rparr>)))"

definition conn_send :: "int \<Rightarrow> out_arg list \<Rightarrow> ('a client_scheme, unit) eff" where
  "conn_send packet_type args = (\<lambda>c. if \<not> connected c then (Inl Assertion_Error, c)
     else (case encode_packet packet_type args of
         Inl e \<Rightarrow> (Inl e, c)
       | Inr bs \<Rightarrow> if link_up c then (Inr (), c\<lparr>outbound := outbound c @ bs\<rparr>) else (Inl Connection_Error, c)))"

definition conn_close :: "('a client_scheme, unit) eff" where
  "conn_close = modify (\<lambda>c. if connected c then c\<lparr>link_up := False\<rparr> else c)"

section \<open>Names\<close>

text \<open>
  \<open>str.capitalize\<close>. The capitals of U+00B5 and U+00FF lie outside the range of the model; they are
  left as they are, which does not change which names are equal.
\<close>

definition title_char :: "char \<Rightarrow> string" where
  "title_char c =
     (if (97 \<le> ordc c \<and> ordc c \<le> 122) \<or> (224 \<le> ordc c \<and> ordc c \<le> 254 \<and> ordc c \<noteq> 247)
      then [char_of (ordc c - 32)]
      else if ordc c = 223 then ''Ss'' else [c])"

definition capitalize :: "string \<Rightarrow> string" where
  "capitalize s = (case s of [] \<Rightarrow> [] | c # cs \<Rightarrow> title_char c @ lower cs)"

section \<open>Login\<close>

text \<open>\<open>zip(..., strict=True)\<close> over the four columns (the wording of the exception aside).\<close>

fun zip_characters :: "nat list \<Rightarrow> bytes list \<Rightarrow> nat list \<Rightarrow> nat list \<Rightarrow> exn + character_info list" where
  "zip_characters [] [] [] [] = Inr []"
| "zip_characters (i # ids) (n # names) (l # levels) (f # flags) =
     ebind (zip_characters ids names levels flags) (\<lambda>cs.
     Inr (\<lparr>chr_id = i, chr_name = capitalize (latin1_decode n), chr_level = l, chr_online = f\<rparr> # cs))"
| "zip_characters _ _ _ _ = Inl (Value_Error ''zip() arguments differ in length'')"

definition expect_type :: "string \<Rightarrow> int \<Rightarrow> inbound_packet \<Rightarrow> ('a client_scheme, unit) eff" where
  "expect_type name t pkt = (if ptype pkt \<noteq> t
     then raise (Login_Error (''expected '' @ name @ '', got type '' @ int_str (ptype pkt))) else ret ())"

text \<open>The arguments of a packet are those of its schema; other shapes do not occur.\<close>

definition bad_args :: exn where
  "bad_args = Value_Error ''not enough values to unpack''"

definition one_bytes :: "inbound_packet \<Rightarrow> ('a client_scheme, bytes) eff" where
  "one_bytes pkt = (case pargs pkt of [IBytes b] \<Rightarrow> ret b | _ \<Rightarrow> raise Index_Error)"

definition read_charlist :: "inbound_packet \<Rightarrow> exn + character_info list" where
  "read_charlist pkt = (case pargs pkt of
      [IInts ids, IStrs names, IInts levels, IInts flags] \<Rightarrow> zip_characters ids names levels flags
    | _ \<Rightarrow> Inl bad_args)"

definition login :: "nat \<Rightarrow> bytes \<Rightarrow> ('a client_scheme, unit) eff" where
  "login dh_x prefix =
     bnd (modify (\<lambda>c. c\<lparr>connected := True\<rparr>)) (\<lambda>_.
     bnd conn_read (\<lambda>seed_packet.
     bnd (expect_type ''LOGIN_SEED'' AOCP_LOGIN_SEED seed_packet) (\<lambda>_.
     bnd (one_bytes seed_packet) (\<lambda>server_seed.
     bnd (gets username) (\<lambda>user.
     bnd (gets password) (\<lambda>pw.
     bnd (lift (generate_login_key dh_x prefix server_seed user pw)) (\<lambda>key.
     bnd (conn_send AOCP_LOGIN_REQUEST [OInt 0, OStr user, OStr key]) (\<lambda>_.
     bnd conn_read (\<lambda>charlist_packet.
     bnd (if ptype charlist_packet = AOCP_LOGIN_ERROR
          then bnd (one_bytes charlist_packet) (\<lambda>reason.
            raise (Login_Error (''login rejected: '' @ latin1_decode reason)))
          else ret ()) (\<lambda>_.
     bnd (expect_type ''LOGIN_CHARLIST'' AOCP_LOGIN_CHARLIST charlist_packet) (\<lambda>_.
     bnd (lift (read_charlist charlist_packet)) (\<lambda>cs.
     bnd (modify (\<lambda>c. c\<lparr>characters := cs\<rparr>)) (\<lambda>_.
     bnd (gets character_name) (\<lambda>wanted.
     case find (\<lambda>c. chr_name c = capitalize wanted) cs of
       None \<Rightarrow> raise (Login_Error (''character '' @ py_repr wanted @ '' not found in account character list''))
     | Some sel \<Rightarrow>
         bnd (conn_send AOCP_LOGIN_SELECT [OInt (int (chr_id sel))]) (\<lambda>_.
         bnd conn_read (\<lambda>ok_packet.
         bnd (expect_type ''LOGIN_OK'' AOCP_LOGIN_OK ok_packet) (\<lambda>_.
         modify (\<lambda>c. c\<lparr>selected := Some sel\<rparr>))))))))))))))))))"

definition client_stop :: "('a client_scheme, unit) eff" where
  "client_stop = bnd (modify (\<lambda>c. c\<lparr>client_stopping := True\<rparr>)) (\<lambda>_. conn_close)"

section \<open>Sending\<close>

definition NUL :: string where "NUL = [CHR 0x00]"

definition client_send_tell :: "nat \<Rightarrow> string \<Rightarrow> ('a client_scheme, unit) eff" where
  "client_send_tell char_id message = conn_send AOCP_MSG_PRIVATE [OInt (int char_id), OStr message, OStr NUL]"

definition client_send_privgroup :: "nat \<Rightarrow> string \<Rightarrow> ('a client_scheme, unit) eff" where
  "client_send_privgroup gid message = conn_send AOCP_PRIVGRP_MESSAGE [OInt (int gid), OStr message, OStr NUL]"

definition buddy_add :: "nat \<Rightarrow> ('a client_scheme, unit) eff" where
  "buddy_add char_id =
     bnd (gets selected) (\<lambda>me.
     if me \<noteq> None \<and> char_id = chr_id (the me) then ret ()
     else conn_send AOCP_BUDDY_ADD [OInt (int char_id), OStr [CHR 0x01]])"

definition ping :: "('a client_scheme, unit) eff" where
  "ping = conn_send AOCP_PING [OStr ''aomarket-bot'']"

text \<open>One round of the keepalive loop behind its sleep: does the loop go on?\<close>

definition keepalive_round :: "('a client_scheme, bool) eff" where
  "keepalive_round =
     catch (bnd ping (\<lambda>_. bnd (gets client_stopping) (\<lambda>stopping. ret (\<not> stopping))))
       (\<lambda>e. if e = Connection_Error then Some (ret False) else None)"

section \<open>Looking up names\<close>

datatype lookup = Cached nat | Waiting nat

definition pop_waiter :: "string \<Rightarrow> 'a client_scheme \<Rightarrow> 'a client_scheme" where
  "pop_waiter key c = c\<lparr>waiters := filter (\<lambda>(k, _). k \<noteq> key) (waiters c)\<rparr>"

definition lookup_begin :: "string \<Rightarrow> ('a client_scheme, lookup) eff" where
  "lookup_begin name =
     bnd (gets (\<lambda>c. map_of (name_to_id c) (lower name))) (\<lambda>cached. case cached of
       Some ident \<Rightarrow> ret (Cached ident)
     | None \<Rightarrow>
         bnd (gets (\<lambda>c. length (futures c))) (\<lambda>future.
         bnd (modify (\<lambda>c. c\<lparr>futures := futures c @ [None], waiters := dict_put (lower name) future (waiters c)\<rparr>)) (\<lambda>_.
         bnd (catch (conn_send AOCP_CLIENT_LOOKUP [OStr name])
                (\<lambda>e. Some (bnd (modify (pop_waiter (lower name))) (\<lambda>_. raise e)))) (\<lambda>_.
         ret (Waiting future)))))"

text \<open>The wait is over: the future has its result, or the ten seconds are.\<close>

definition lookup_end :: "string \<Rightarrow> nat \<Rightarrow> ('a client_scheme, nat option) eff" where
  "lookup_end name future =
     bnd (gets (\<lambda>c. futures c ! future)) (\<lambda>outcome.
     bnd (modify (pop_waiter (lower name))) (\<lambda>_.
     ret (case outcome of None \<Rightarrow> None | Some ident \<Rightarrow> ident)))"

definition name_for_id :: "nat \<Rightarrow> 'a client_scheme \<Rightarrow> string option" where
  "name_for_id char_id c = map_of (id_to_name c) char_id"

text \<open>What \<open>send_tell_by_name\<close> and \<open>is_online_by_name\<close> do with the outcome of the lookup.\<close>

definition tell_found :: "string \<Rightarrow> nat option \<Rightarrow> ('a client_scheme, unit) eff" where
  "tell_found message found = (case found of None \<Rightarrow> ret () | Some char_id \<Rightarrow> client_send_tell char_id message)"

definition online_found :: "nat option \<Rightarrow> ('a client_scheme, bool) eff" where
  "online_found found = (case found of
     None \<Rightarrow> ret False
   | Some char_id \<Rightarrow>
       bnd (buddy_add char_id) (\<lambda>_.
       gets (\<lambda>c. case map_of (buddy_online c) char_id of None \<Rightarrow> False | Some b \<Rightarrow> b)))"

section \<open>Inbound packets\<close>

record 's handlers =
  on_tell :: "(nat \<Rightarrow> string \<Rightarrow> ('s, unit) eff) option"
  on_privgroup_message :: "(nat \<Rightarrow> string \<Rightarrow> ('s, unit) eff) option"
  on_buddy_status :: "(nat \<Rightarrow> bool \<Rightarrow> ('s, unit) eff) option"

definition resolve_future :: "nat \<Rightarrow> nat option \<Rightarrow> 'a client_scheme \<Rightarrow> 'a client_scheme" where
  "resolve_future future resolved c =
     (if futures c ! future = None then c\<lparr>futures := (futures c)[future := Some resolved]\<rparr> else c)"

definition name_learned :: "nat \<Rightarrow> string \<Rightarrow> 'a client_scheme \<Rightarrow> 'a client_scheme" where
  "name_learned char_id name c =
     (if char_id \<noteq> NO_ID then c\<lparr>id_to_name := dict_put char_id name (id_to_name c)\<rparr> else c)"

definition lookup_answered :: "nat \<Rightarrow> string \<Rightarrow> 'a client_scheme \<Rightarrow> 'a client_scheme" where
  "lookup_answered char_id name c =
     (let resolved = (if char_id = NO_ID then None else Some char_id);
          c = (case resolved of None \<Rightarrow> c
               | Some ident \<Rightarrow> c\<lparr>name_to_id := dict_put (lower name) ident (name_to_id c)\<rparr>)
      in case map_of (waiters c) (lower name) of None \<Rightarrow> c | Some future \<Rightarrow> resolve_future future resolved c)"

definition dispatch_packet ::
  "'a client_scheme handlers \<Rightarrow> inbound_packet \<Rightarrow> ('a client_scheme, unit) eff" where
  "dispatch_packet hs pkt =
    (if ptype pkt = AOCP_MSG_PRIVATE then
       (case pargs pkt of [IInt sender, IBytes message, _] \<Rightarrow>
          (case on_tell hs of None \<Rightarrow> ret () | Some f \<Rightarrow> f sender (latin1_decode message))
        | _ \<Rightarrow> raise bad_args)
     else if ptype pkt = AOCP_PRIVGRP_MESSAGE then
       (case pargs pkt of [_, IInt sender, IBytes message, _] \<Rightarrow>
          (case on_privgroup_message hs of None \<Rightarrow> ret () | Some f \<Rightarrow> f sender (latin1_decode message))
        | _ \<Rightarrow> raise bad_args)
     else if ptype pkt = AOCP_BUDDY_LOGONOFF then
       (case pargs pkt of [IInt char_id, IInt online, _] \<Rightarrow>
          bnd (modify (\<lambda>c. c\<lparr>buddy_online := dict_put char_id (online \<noteq> 0) (buddy_online c)\<rparr>)) (\<lambda>_.
          case on_buddy_status hs of None \<Rightarrow> ret () | Some f \<Rightarrow> f char_id (online \<noteq> 0))
        | _ \<Rightarrow> raise bad_args)
     else if ptype pkt = AOCP_CLIENT_NAME then
       (case pargs pkt of [IInt char_id, IBytes name] \<Rightarrow> modify (name_learned char_id (latin1_decode name))
        | _ \<Rightarrow> raise bad_args)
     else if ptype pkt = AOCP_CLIENT_LOOKUP then
       (case pargs pkt of [IInt char_id, IBytes name] \<Rightarrow> modify (lookup_answered char_id (latin1_decode name))
        | _ \<Rightarrow> raise bad_args)
     else ret ())"

text \<open>The reader. It ends when the session is stopped or the connection lost; what a packet or a
  handler raises besides ends it with that exception.\<close>

definition connection_lost :: "exn \<Rightarrow> bool" where
  "connection_lost e \<longleftrightarrow> e = Incomplete_Read \<or> e = Connection_Error"

partial_function (option) read_loop ::
  "'a client_scheme handlers \<Rightarrow> 'a client_scheme \<Rightarrow> ((exn + unit) \<times> 'a client_scheme) option" where
  "read_loop hs c =
     (if client_stopping c then Some (Inr (), c)
      else (case conn_read c of
          (Inl e, c') \<Rightarrow> Some (if connection_lost e then Inr () else Inl e, c')
        | (Inr pkt, c') \<Rightarrow> (case dispatch_packet hs pkt c' of
              (Inl e, c'') \<Rightarrow> Some (Inl e, c'')
            | (Inr _, c'') \<Rightarrow> read_loop hs c'')))"

end
