(* ===== verification/Reader.thy ===== *)
theory Reader
  imports Chat_Client
begin

text \<open>
  The reader of the chat session against its specification: the bytes of the connection are a
  sequence of events, handled one after the other (\<open>serve\<close>). The locale \<open>session_handlers\<close> states
  what a handler may do to the session; its lemmas give the behaviour of \<open>read_loop\<close> for every stream
  of packets, that it ends for every stream of bytes, and how lookups of names are answered.
\<close>

section \<open>Events\<close>

datatype event =
    Tell_Event nat string
  | Group_Event nat string
  | Buddy_Event nat bool
  | Name_Event nat string
  | Answer_Event nat string
  | Other_Event
  | Bad_Event

definition event_of :: "inbound_packet \<Rightarrow> event" where
  "event_of pkt =
    (if ptype pkt = AOCP_MSG_PRIVATE then
       (case pargs pkt of [IInt sender, IBytes message, _] \<Rightarrow> Tell_Event sender (latin1_decode message)
        | _ \<Rightarrow> Bad_Event)
     else if ptype pkt = AOCP_PRIVGRP_MESSAGE then
       (case pargs pkt of [_, IInt sender, IBytes message, _] \<Rightarrow> Group_Event sender (latin1_decode message)
        | _ \<Rightarrow> Bad_Event)
     else if ptype pkt = AOCP_BUDDY_LOGONOFF then
       (case pargs pkt of [IInt char_id, IInt online, _] \<Rightarrow> Buddy_Event char_id (online \<noteq> 0)
        | _ \<Rightarrow> Bad_Event)
     else if ptype pkt = AOCP_CLIENT_NAME then
       (case pargs pkt of [IInt char_id, IBytes name] \<Rightarrow> Name_Event char_id (latin1_decode name)
        | _ \<Rightarrow> Bad_Event)
     else if ptype pkt = AOCP_CLIENT_LOOKUP then
       (case pargs pkt of [IInt char_id, IBytes name] \<Rightarrow> Answer_Event char_id (latin1_decode name)
        | _ \<Rightarrow> Bad_Event)
     else Other_Event)"

text \<open>What the session keeps of an event, and the handler it calls.\<close>

fun noted :: "event \<Rightarrow> 'a client_scheme \<Rightarrow> 'a client_scheme" where
  "noted (Buddy_Event char_id online) c = c\<lparr>buddy_online := dict_put char_id online (buddy_online c)\<rparr>"
| "noted (Name_Event char_id name) c = name_learned char_id name c"
| "noted (Answer_Event char_id name) c = lookup_answered char_id name c"
| "noted _ c = c"

fun call :: "'a client_scheme handlers \<Rightarrow> event \<Rightarrow> ('a client_scheme, unit) eff" where
  "call hs (Tell_Event sender message) = (case on_tell hs of None \<Rightarrow> ret () | Some f \<Rightarrow> f sender message)"
| "call hs (Group_Event sender message) =
     (case on_privgroup_message hs of None \<Rightarrow> ret () | Some f \<Rightarrow> f sender message)"
| "call hs (Buddy_Event char_id online) =
     (case on_buddy_status hs of None \<Rightarrow> ret () | Some f \<Rightarrow> f char_id online)"
| "call hs Bad_Event = raise bad_args"
| "call hs _ = ret ()"

definition run_event :: "'a client_scheme handlers \<Rightarrow> event \<Rightarrow> ('a client_scheme, unit) eff" where
  "run_event hs e = bnd (modify (noted e)) (\<lambda>_. call hs e)"

lemma dispatch_event: "dispatch_packet hs pkt = run_event hs (event_of pkt)"
  unfolding dispatch_packet_def event_of_def run_event_def
  by (rule ext) (simp add: bnd_def del: neq0_conv split: list.split in_arg.split)

lemma list_all2_Cons1: "list_all2 P (x # xs) ys \<longleftrightarrow> (\<exists>y ys'. ys = y # ys' \<and> P x y \<and> list_all2 P xs ys')"
  by (cases ys) auto

lemma fits_shape: "Packet.fits (CHR ''I'') v \<longleftrightarrow> (\<exists>n. v = IInt n \<and> n < 4294967296)"
  "Packet.fits (CHR ''S'') v \<longleftrightarrow> (\<exists>b. v = IBytes b \<and> length b < 65536)"
  by (cases v; auto)+

lemma well_formed_event: "well_formed pkt \<Longrightarrow> event_of pkt \<noteq> Bad_Event"
  by (auto simp: well_formed_def event_of_def IN_SCHEMAS_def packet_types list_all2_Cons1 fits_shape
      split: if_splits option.splits)

text \<open>What the session does with a sequence of events.\<close>

fun serve :: "'a client_scheme handlers \<Rightarrow> event list \<Rightarrow> ('a client_scheme, unit) eff" where
  "serve hs [] = ret ()"
| "serve hs (e # es) = (\<lambda>c. if client_stopping c then (Inr (), c)
     else bnd (run_event hs e) (\<lambda>_. serve hs es) c)"

text \<open>A session up to the bytes still to come.\<close>

definition heard :: "'a client_scheme \<Rightarrow> 'a client_scheme" where
  "heard c = c\<lparr>inbound := []\<rparr>"

text \<open>A packet that could be read took its header off the stream.\<close>

lemma readexactly_Inr: "readexactly n s = (Inr b, s') \<Longrightarrow> length s = n + length s'"
  by (auto simp: readexactly_def split: if_splits)

lemma read_packet_shorter: "read_packet s = (Inr p, s') \<Longrightarrow> length s' < length s"
  by (auto simp: read_packet_def bnd_Inr_iff split: if_splits dest!: readexactly_Inr)

section \<open>Code that does not look at the bytes to come\<close>

named_theorems oblivion

definition oblivious :: "('a client_scheme, 'b) eff \<Rightarrow> bool" where
  "oblivious m \<longleftrightarrow> (\<forall>c i. m (c\<lparr>inbound := i\<rparr>) = (fst (m c), (snd (m c))\<lparr>inbound := i\<rparr>))"

lemma obliviousD: "oblivious m \<Longrightarrow> m c = (r, c') \<Longrightarrow> m (c\<lparr>inbound := i\<rparr>) = (r, c'\<lparr>inbound := i\<rparr>)"
  by (simp add: oblivious_def)

lemma oblivious_pure [oblivion]:
  "oblivious (ret x)"
  "oblivious (raise e)"
  "oblivious (lift r)"
  "(\<And>c i. g (c\<lparr>inbound := i\<rparr>) = g c) \<Longrightarrow> oblivious (gets g)"
  "(\<And>c i. f (c\<lparr>inbound := i\<rparr>) = (f c)\<lparr>inbound := i\<rparr>) \<Longrightarrow> oblivious (modify f)"
  by (simp_all add: oblivious_def)

lemma oblivious_bnd [oblivion]:
  assumes "oblivious m" and "\<And>x. oblivious (f x)"
  shows "oblivious (bnd m f)"
  unfolding oblivious_def
proof (intro allI)
  fix c i
  obtain r u where m: "m c = (r, u)" by fastforce
  with obliviousD [OF assms(1) m] assms(2)
  show "bnd m f (c\<lparr>inbound := i\<rparr>) = (fst (bnd m f c), (snd (bnd m f c))\<lparr>inbound := i\<rparr>)"
    by (cases r) (simp_all add: bnd_def oblivious_def)
qed

lemma oblivious_if [oblivion]: "oblivious m \<Longrightarrow> oblivious n \<Longrightarrow> oblivious (if b then m else n)"
  by simp

lemma oblivious_option [oblivion]:
  "oblivious m \<Longrightarrow> (\<And>x. oblivious (f x)) \<Longrightarrow> oblivious (case a of None \<Rightarrow> m | Some x \<Rightarrow> f x)"
  by (cases a) simp_all

lemma oblivious_send [oblivion]: "oblivious (conn_send t args)"
  by (simp add: oblivious_def conn_send_def split: sum.split)

lemma noted_frame: "noted e (c\<lparr>inbound := i\<rparr>) = (noted e c)\<lparr>inbound := i\<rparr>"
  by (cases e) (simp_all add: name_learned_def lookup_answered_def resolve_future_def Let_def split: option.split)

lemma noted_flags: "connected (noted e c) = connected c" "client_stopping (noted e c) = client_stopping c"
  by (cases e; simp add: name_learned_def lookup_answered_def resolve_future_def Let_def split: option.split)+

section \<open>Handlers\<close>

text \<open>The part of a session that handlers leave as it is.\<close>

definition session :: "'a client_scheme \<Rightarrow> bool \<times> bool \<times> character_info option \<times> (string \<times> nat) list
    \<times> nat option option list \<times> (string \<times> nat) list \<times> (nat \<times> string) list" where
  "session c = (connected c, client_stopping c, selected c, waiters c, futures c, name_to_id c, id_to_name c)"

locale session_handlers =
  fixes hs :: "'a client_scheme handlers"
  assumes tell_oblivious: "on_tell hs = Some f \<Longrightarrow> oblivious (f n s)"
    and tell_session: "on_tell hs = Some f \<Longrightarrow> keeping (\<lambda>c. session c = x) (f n s)"
    and group_oblivious: "on_privgroup_message hs = Some f \<Longrightarrow> oblivious (f n s)"
    and group_session: "on_privgroup_message hs = Some f \<Longrightarrow> keeping (\<lambda>c. session c = x) (f n s)"
    and buddy_oblivious: "on_buddy_status hs = Some g \<Longrightarrow> oblivious (g n b)"
    and buddy_session: "on_buddy_status hs = Some g \<Longrightarrow> keeping (\<lambda>c. session c = x) (g n b)"
begin

lemma call_oblivious: "oblivious (call hs e)"
  by (cases e) (auto intro!: oblivion split: option.split dest: tell_oblivious group_oblivious buddy_oblivious)

lemma call_session: "keeping (\<lambda>c. session c = x) (call hs e)"
  by (cases e)
    (simp_all add: keeping_pure keeping_option tell_session group_session buddy_session del: split_paired_All
      split: option.split)

lemma event_oblivious: "oblivious (run_event hs e)"
  unfolding run_event_def by (intro oblivion call_oblivious noted_frame)

lemma serve_oblivious: "oblivious (serve hs es)"
proof (induction es)
  case (Cons e es)
  then have "oblivious (bnd (run_event hs e) (\<lambda>_. serve hs es))"
    by (intro oblivion event_oblivious)
  then show ?case by (simp add: oblivious_def)
qed (simp add: oblivious_def)

lemma event_session: "run_event hs e c = (r, c') \<Longrightarrow> session c' = session (noted e c)"
  using keepingD [OF call_session, of "noted e c" "session (noted e c)" e] by (simp add: run_event_def)

lemma event_frame:
  assumes "run_event hs e c = (r, c')"
  shows "inbound c' = inbound c" and "connected c' = connected c" and "client_stopping c' = client_stopping c"
    and "run_event hs e (c\<lparr>inbound := i\<rparr>) = (r, c'\<lparr>inbound := i\<rparr>)"
proof -
  from obliviousD [OF event_oblivious assms, of "inbound c"] assms
  have "c' = c'\<lparr>inbound := inbound c\<rparr>" by simp
  moreover have "inbound (c'\<lparr>inbound := inbound c\<rparr>) = inbound c" by simp
  ultimately show "inbound c' = inbound c" by metis
  show "connected c' = connected c" "client_stopping c' = client_stopping c"
    using event_session [OF assms] noted_flags [of e c] by (simp_all add: session_def)
  show "run_event hs e (c\<lparr>inbound := i\<rparr>) = (r, c'\<lparr>inbound := i\<rparr>)"
    by (rule obliviousD [OF event_oblivious assms])
qed

lemma read_loop_stopped: "client_stopping c \<Longrightarrow> read_loop hs c = Some (Inr (), c)"
  by (subst read_loop.simps) simp

lemma read_loop_failing:
  assumes "\<not> client_stopping c" and "connected c" and "read_packet (inbound c) = (Inl e, rest)"
  shows "read_loop hs c = Some (if connection_lost e then Inr () else Inl e, c\<lparr>inbound := rest\<rparr>)"
  using assms by (subst read_loop.simps) (simp add: conn_read_def)

lemma read_loop_event:
  assumes "\<not> client_stopping c" and "connected c" and "read_packet (inbound c) = (Inr pkt, rest)"
    and "run_event hs (event_of pkt) c = (r, c')"
  shows "read_loop hs c = (case r of Inl e \<Rightarrow> Some (Inl e, c'\<lparr>inbound := rest\<rparr>)
    | Inr _ \<Rightarrow> read_loop hs (c'\<lparr>inbound := rest\<rparr>))"
  using assms event_frame(4) [OF assms(4), of rest]
  by (subst read_loop.simps) (simp add: conn_read_def dispatch_event split: sum.split)

text \<open>Every run of the reader ends: each packet takes bytes away and no handler adds any.\<close>

lemma read_loop_ends: "\<exists>r c'. read_loop hs c = Some (r, c')"
proof (induction "length (inbound c)" arbitrary: c rule: less_induct)
  case less
  show ?case
  proof (cases "client_stopping c \<or> \<not> connected c")
    case True
    then show ?thesis by (subst read_loop.simps) (auto simp: conn_read_def)
  next
    case False
    obtain p rest where read: "read_packet (inbound c) = (p, rest)" by fastforce
    show ?thesis
    proof (cases p)
      case (Inl e)
      with read_loop_failing False read show ?thesis by blast
    next
      case (Inr pkt)
      obtain r c' where run: "run_event hs (event_of pkt) c = (r, c')" by fastforce
      have "length (inbound (c'\<lparr>inbound := rest\<rparr>)) < length (inbound c)"
        using read_packet_shorter read Inr by simp
      from less [OF this] show ?thesis
        using read_loop_event [OF _ _ _ run] False read Inr by (cases r) auto
    qed
  qed
qed

text \<open>A run of well-formed packets is the run of their events.\<close>

lemma read_loop_packets:
  assumes "list_all well_formed ps" and "\<not> client_stopping c" and "connected c"
    and "inbound c = concat (map packet_frame ps) @ rest"
    and "serve hs (map event_of ps) c = (r, c')"
  shows "case r of Inl e \<Rightarrow> \<exists>i. read_loop hs c = Some (Inl e, c'\<lparr>inbound := i\<rparr>)
    | Inr _ \<Rightarrow> read_loop hs c = read_loop hs (c'\<lparr>inbound := rest\<rparr>)
        \<and> \<not> client_stopping c' \<and> connected c'"
  using assms
proof (induction ps arbitrary: c c')
  case Nil
  then have "c\<lparr>inbound := rest\<rparr> = c" by simp
  with Nil show ?case by auto
next
  case (Cons p ps)
  let ?more = "concat (map packet_frame ps) @ rest"
  have read: "read_packet (inbound c) = (Inr p, ?more)"
    using Cons.prems(1,4) read_packet_well_formed [of p ?more] by simp
  obtain q u where run: "run_event hs (event_of p) c = (q, u)" by fastforce
  note step = read_loop_event [OF Cons.prems(2,3) read run]
  show ?case
  proof (cases q)
    case (Inl e)
    with Cons.prems(2,5) run step show ?thesis by (auto simp: bnd_def)
  next
    case (Inr x)
    let ?u = "u\<lparr>inbound := ?more\<rparr>"
    have go: "serve hs (map event_of ps) u = (r, c')" using Cons.prems(2,5) run Inr by (simp add: bnd_def)
    then have go': "serve hs (map event_of ps) ?u = (r, c'\<lparr>inbound := ?more\<rparr>)"
      by (rule obliviousD [OF serve_oblivious])
    have "read_loop hs c = read_loop hs ?u" using step Inr by simp
    moreover from Cons.IH [OF _ _ _ _ go'] Cons.prems(1-3) event_frame [OF run]
    have "case r of Inl e \<Rightarrow> \<exists>i. read_loop hs ?u = Some (Inl e, c'\<lparr>inbound := i\<rparr>)
      | Inr _ \<Rightarrow> read_loop hs ?u = read_loop hs (c'\<lparr>inbound := rest\<rparr>)
        \<and> \<not> client_stopping c' \<and> connected c'"
      by (simp split: sum.splits)
    ultimately show ?thesis by (simp split: sum.splits)
  qed
qed

text \<open>
  The refinement: up to the bytes still to come, reading packets and then something that is no
  packet is serving the events and then ending in the way the last read did.
\<close>

lemma read_loop_refines:
  assumes "list_all well_formed ps" and "\<not> client_stopping c" and "connected c"
    and "inbound c = concat (map packet_frame ps) @ rest" and "fst (read_packet rest) = Inl e"
  shows "map_option (map_prod id heard) (read_loop hs c)
    = Some (bnd (serve hs (map event_of ps)) (\<lambda>_. if connection_lost e then ret () else raise e) (heard c))"
proof -
  obtain r c' where go: "serve hs (map event_of ps) c = (r, c')" by fastforce
  then have heard: "serve hs (map event_of ps) (heard c) = (r, heard c')"
    unfolding heard_def by (rule obliviousD [OF serve_oblivious])
  note run = read_loop_packets [OF assms(1-4) go]
  show ?thesis
  proof (cases r)
    case (Inl x)
    with run heard show ?thesis by (auto simp: bnd_def heard_def)
  next
    case (Inr x)
    obtain rest' where "read_packet rest = (Inl e, rest')" using assms(5) by (metis prod.collapse)
    moreover from run Inr have "read_loop hs c = read_loop hs (c'\<lparr>inbound := rest\<rparr>)"
      "\<not> client_stopping c'" "connected c'" by simp_all
    ultimately show ?thesis
      using heard Inr read_loop_failing [of "c'\<lparr>inbound := rest\<rparr>" e rest']
      by (simp add: bnd_def heard_def)
  qed
qed

end

end
