(* ===== verification/Lookups.thy ===== *)
theory Lookups
  imports Reader
begin

text \<open>
  Looking up a character's name: which answer reaches the task that waits for it. Waiting tasks are
  kept by lower-cased name, so there is one place for all that look up the same name.
\<close>

section \<open>The table of waiting tasks\<close>

text \<open>Each waiting task has a future of its own.\<close>

definition waiters_ok :: "'a client_scheme \<Rightarrow> bool" where
  "waiters_ok c \<longleftrightarrow> distinct (map fst (waiters c)) \<and> distinct (map snd (waiters c))
     \<and> (\<forall>i \<in> snd ` set (waiters c). i < length (futures c))"

definition waits :: "string \<Rightarrow> nat \<Rightarrow> 'a client_scheme \<Rightarrow> bool" where
  "waits key i c \<longleftrightarrow> i < length (futures c) \<and> (\<forall>k. map_of (waiters c) k = Some i \<longleftrightarrow> k = key)"

definition orphan :: "nat \<Rightarrow> 'a client_scheme \<Rightarrow> bool" where
  "orphan i c \<longleftrightarrow> (\<forall>k. map_of (waiters c) k \<noteq> Some i)"

lemma mem_dict_put: "p \<in> set (dict_put k v d) \<Longrightarrow> p = (k, v) \<or> p \<in> set d"
  by (induction d) (auto split: if_splits)

lemma snd_dict_put: "snd ` set (dict_put k v d) \<subseteq> insert v (snd ` set d)"
  using mem_dict_put by fastforce

lemma distinct_snd_dict_put:
  "distinct (map snd d) \<Longrightarrow> v \<notin> snd ` set d \<Longrightarrow> distinct (map snd (dict_put k v d))"
proof (induction d)
  case (Cons p d)
  with snd_dict_put [of k v d] show ?case by (cases p) auto
qed simp

lemma distinct_map_filter: "distinct (map f xs) \<Longrightarrow> distinct (map f (filter P xs))"
  by (induction xs) auto

lemma map_of_pop: "map_of (filter (\<lambda>(k, _). k \<noteq> key) d) k = (if k = key then None else map_of d k)"
  by (induction d) auto

lemma pop_waiter_ok: "waiters_ok c \<Longrightarrow> waiters_ok (pop_waiter key c)"
  by (auto simp: waiters_ok_def pop_waiter_def distinct_map_filter)

lemma orphan_pop: "waits key i c \<Longrightarrow> orphan i (pop_waiter key c)"
  by (simp add: waits_def pop_waiter_def orphan_def map_of_pop)

lemma conn_send_Inr: "conn_send t args c = (Inr x, c') \<Longrightarrow> \<exists>out. c' = c\<lparr>outbound := out\<rparr>"
  by (auto simp: conn_send_def split: if_splits sum.splits)

lemma lookup_begin_run:
  "lookup_begin name c = (case map_of (name_to_id c) (lower name) of
     Some ident \<Rightarrow> (Inr (Cached ident), c)
   | None \<Rightarrow>
      (let c1 = c\<lparr>futures := futures c @ [None],
           waiters := dict_put (lower name) (length (futures c)) (waiters c)\<rparr>
       in case conn_send AOCP_CLIENT_LOOKUP [OStr name] c1 of
            (Inl e, c2) \<Rightarrow> (Inl e, pop_waiter (lower name) c2)
          | (Inr _, c2) \<Rightarrow> (Inr (Waiting (length (futures c))), c2)))"
  by (simp add: lookup_begin_def bnd_def catch_def Let_def split: option.split prod.split sum.split)

text \<open>A lookup that has to ask enters the table under a fresh future.\<close>

lemma lookup_begin_waiting:
  assumes "lookup_begin name c = (Inr (Waiting i), c')" and "waiters_ok c"
  shows "waiters_ok c'" and "waits (lower name) i c'" and "futures c' = futures c @ [None]"
    and "i = length (futures c)" and "waiters c' = dict_put (lower name) i (waiters c)"
    and "name_to_id c' = name_to_id c" and "client_stopping c' = client_stopping c"
    and "map_of (name_to_id c) (lower name) = None"
proof -
  have fresh: "map_of (name_to_id c) (lower name) = None"
    using assms(1) by (cases "map_of (name_to_id c) (lower name)") (simp_all add: lookup_begin_run)
  let ?c1 = "c\<lparr>futures := futures c @ [None],
      waiters := dict_put (lower name) (length (futures c)) (waiters c)\<rparr>"
  obtain q c2 where send: "conn_send AOCP_CLIENT_LOOKUP [OStr name] ?c1 = (q, c2)" by fastforce
  with assms(1) fresh have q: "q = Inr ()" and i: "i = length (futures c)" and c2: "c2 = c'"
    by (cases q; simp add: lookup_begin_run)+
  from conn_send_Inr [OF send [unfolded q c2]] obtain out where "c' = ?c1\<lparr>outbound := out\<rparr>" by blast
  then have c': "c' = c\<lparr>futures := futures c @ [None],
      waiters := dict_put (lower name) (length (futures c)) (waiters c), outbound := out\<rparr>" by simp
  from c' i fresh show "futures c' = futures c @ [None]" "i = length (futures c)" "name_to_id c' = name_to_id c"
    "waiters c' = dict_put (lower name) i (waiters c)" "client_stopping c' = client_stopping c"
    "map_of (name_to_id c) (lower name) = None" by simp_all
  have new: "length (futures c) \<notin> snd ` set (waiters c)" using assms(2) by (auto simp: waiters_ok_def)
  with assms(2) show "waiters_ok c'"
    using snd_dict_put [of "lower name" "length (futures c)" "waiters c"]
    by (fastforce simp: waiters_ok_def c' distinct_dict_put distinct_snd_dict_put)
  from new have "map_of (waiters c) k \<noteq> Some (length (futures c))" for k
    by (auto dest!: map_of_SomeD simp: image_iff)
  then show "waits (lower name) i c'" by (auto simp: waits_def c' i)
qed

section \<open>Answers\<close>

definition resolved :: "nat \<Rightarrow> nat option" where
  "resolved char_id = (if char_id = NO_ID then None else Some char_id)"

text \<open>The first answer for a name among the events.\<close>

fun answer_for :: "string \<Rightarrow> event list \<Rightarrow> nat option option" where
  "answer_for key [] = None"
| "answer_for key (e # es) = (case e of
     Answer_Event char_id name \<Rightarrow> (if lower name = key then Some (resolved char_id) else answer_for key es)
   | _ \<Rightarrow> answer_for key es)"

text \<open>What the name is known as, besides: the last number an answer gave.\<close>

fun known_after :: "string \<Rightarrow> event list \<Rightarrow> nat option \<Rightarrow> nat option" where
  "known_after key [] known = known"
| "known_after key (e # es) known = known_after key es (case e of
     Answer_Event char_id name \<Rightarrow> (if lower name = key \<and> char_id \<noteq> NO_ID then Some char_id else known)
   | _ \<Rightarrow> known)"

lemma noted_waiters: "waiters (noted e c) = waiters c" "length (futures (noted e c)) = length (futures c)"
  by (cases e; simp add: name_learned_def lookup_answered_def resolve_future_def Let_def split: option.split)+

lemma answered_futures: "futures (lookup_answered n s c) = (case map_of (waiters c) (lower s) of
    None \<Rightarrow> futures c
  | Some j \<Rightarrow> if futures c ! j = None then (futures c)[j := Some (resolved n)] else futures c)"
  by (simp add: lookup_answered_def resolve_future_def Let_def resolved_def split: option.split)

lemma name_learned_futures: "futures (name_learned n s c) = futures c"
  by (simp add: name_learned_def)

lemma noted_future:
  assumes "waits key i c"
  shows "futures (noted e c) ! i = (if futures c ! i \<noteq> None then futures c ! i
    else answer_for key [e])"
  using assms
proof (cases e)
  case (Answer_Event n s)
  show ?thesis
  proof (cases "lower s = key")
    case True
    with assms have "map_of (waiters c) (lower s) = Some i" "i < length (futures c)" by (auto simp: waits_def)
    with True Answer_Event show ?thesis by (simp add: answered_futures)
  next
    case False
    with assms have "map_of (waiters c) (lower s) \<noteq> Some i" by (auto simp: waits_def)
    with False Answer_Event show ?thesis
      by (cases "map_of (waiters c) (lower s)") (simp_all add: answered_futures)
  qed
qed (simp_all add: name_learned_futures)

lemma noted_orphan:
  assumes "orphan i c"
  shows "futures (noted e c) ! i = futures c ! i"
proof (cases e)
  case (Answer_Event n s)
  from assms have "map_of (waiters c) (lower s) \<noteq> Some i" by (simp add: orphan_def)
  with Answer_Event show ?thesis
    by (cases "map_of (waiters c) (lower s)") (simp_all add: answered_futures)
qed (simp_all add: name_learned_futures)

lemma noted_known: "map_of (name_to_id (noted e c)) key = known_after key [e] (map_of (name_to_id c) key)"
  by (cases e) (auto simp: name_learned_def lookup_answered_def resolve_future_def Let_def split: option.split)

context session_handlers
begin

lemma event_lookups:
  assumes "run_event hs e c = (r, c')"
  shows "waiters c' = waiters c" and "futures c' = futures (noted e c)" and "name_to_id c' = name_to_id (noted e c)"
    and "client_stopping c' = client_stopping c"
  using event_session [OF assms] noted_waiters [of e c] noted_flags [of e c] by (simp_all add: session_def)

lemma serve_waiters_ok:
  assumes "serve hs es c = (r, c')"
  shows "waiters c' = waiters c" and "length (futures c') = length (futures c)"
  using assms
  by (induction es arbitrary: c)
    (auto simp: bnd_def noted_waiters split: if_splits prod.splits sum.splits dest: event_lookups(1,2))

lemma serve_orphan:
  assumes "serve hs es c = (r, c')" and "orphan i c"
  shows "futures c' ! i = futures c ! i"
  using assms
proof (induction es arbitrary: c)
  case (Cons e es)
  obtain q u where run: "run_event hs e c = (q, u)" by fastforce
  have "orphan i u" using Cons.prems(2) event_lookups(1) [OF run] by (simp add: orphan_def)
  moreover have "futures u ! i = futures c ! i" using event_lookups(2) [OF run] noted_orphan Cons.prems(2) by simp
  ultimately show ?case
    using Cons.IH [of u] Cons.prems(1) run by (auto simp: bnd_def split: if_splits sum.splits)
qed simp

lemma serve_waiting:
  assumes "serve hs es c = (Inr x, c')" and "\<not> client_stopping c" and "waits key i c"
  shows "futures c' ! i = (if futures c ! i \<noteq> None then futures c ! i else answer_for key es)"
    and "map_of (name_to_id c') key = known_after key es (map_of (name_to_id c) key)"
  using assms
proof (induction es arbitrary: c)
  case (Cons e es)
  {
    case 1
    obtain u where run: "run_event hs e c = (Inr (), u)" and go: "serve hs es u = (Inr x, c')"
      using 1 by (auto simp: bnd_Inr_iff)
    have "waits key i u" "\<not> client_stopping u" "futures u = futures (noted e c)"
      using 1 event_lookups [OF run] noted_waiters [of e c] by (simp_all add: waits_def)
    with Cons.IH(1) [OF go] noted_future [OF 1(3), of e] show ?case by (auto split: event.split)
  next
    case 2
    obtain u where run: "run_event hs e c = (Inr (), u)" and go: "serve hs es u = (Inr x, c')"
      using 2 by (auto simp: bnd_Inr_iff)
    have "waits key i u" "\<not> client_stopping u" "name_to_id u = name_to_id (noted e c)"
      using 2 event_lookups [OF run] noted_waiters [of e c] by (simp_all add: waits_def)
    with Cons.IH(2) [OF go] noted_known [of e c key] show ?case by simp
  }
qed simp_all

text \<open>One lookup of the name: the task gets the first answer that came, or None.\<close>

lemma lookup_gets_answer:
  assumes "waiters_ok c" and "\<not> client_stopping c"
    and "lookup_begin name c = (Inr (Waiting i), c1)" and "serve hs es c1 = (Inr (), c2)"
  shows "fst (lookup_end name i c2) = Inr (case answer_for (lower name) es of None \<Rightarrow> None | Some found \<Rightarrow> found)"
    and "map_of (name_to_id c2) (lower name) = known_after (lower name) es None"
proof -
  note begun = lookup_begin_waiting [OF assms(3,1)]
  have "\<not> client_stopping c1" using begun(7) assms(2) by simp
  from serve_waiting [OF assms(4) this begun(2)] begun(3,4,6,8)
  show "fst (lookup_end name i c2) = Inr (case answer_for (lower name) es of None \<Rightarrow> None | Some found \<Rightarrow> found)"
    "map_of (name_to_id c2) (lower name) = known_after (lower name) es None"
    by (simp_all add: lookup_end_def)
qed

text \<open>Two at a time: the second takes the place of the first, which waits in vain, and when it gives
  up it takes the second out of the table.\<close>

lemma lookup_overtaken:
  assumes "waiters_ok c" and "\<not> client_stopping c" and "lower name2 = lower name1"
    and "lookup_begin name1 c = (Inr (Waiting i), c1)"
    and "lookup_begin name2 c1 = (Inr (Waiting j), c2)" and "serve hs es c2 = (Inr (), c3)"
    and "lookup_end name1 i c3 = (r, c4)" and "serve hs es' c4 = (r', c5)"
  shows "r = Inr None"
    and "fst (lookup_end name2 j c5) = Inr (case answer_for (lower name1) es of None \<Rightarrow> None | Some found \<Rightarrow> found)"
proof -
  note one = lookup_begin_waiting [OF assms(4,1)]
  note two = lookup_begin_waiting [OF assms(5) one(1)]
  have ij: "i < j" using one(3,4) two(4) by simp
  have key: "lower name2 = lower name1" by (rule assms(3))
  have run: "\<not> client_stopping c2" using assms(2) one(7) two(7) by simp
  have "orphan i c2"
  proof -
    have "map_of (waiters c2) k \<noteq> Some i" for k
    proof (cases "k = lower name1")
      case True
      then show ?thesis using two(5) ij key by simp
    next
      case False
      then have "map_of (waiters c1) k \<noteq> Some i" using one(2) by (auto simp: waits_def)
      with False show ?thesis using two(5) key by simp
    qed
    then show ?thesis by (simp add: orphan_def)
  qed
  from serve_orphan [OF assms(6) this] have "futures c3 ! i = None"
    using one(3,4) two(3) by (simp add: nth_append)
  with assms(7) show "r = Inr None" by (auto simp: lookup_end_def)
  have c4: "c4 = pop_waiter (lower name1) c3" using assms(7) by (auto simp: lookup_end_def)
  have "waits (lower name1) j c3"
    using two(2) serve_waiters_ok [OF assms(6)] key by (simp add: waits_def)
  then have "orphan j c4" unfolding c4 by (rule orphan_pop)
  from serve_orphan [OF assms(8) this] have "futures c5 ! j = futures c3 ! j" by (simp add: c4 pop_waiter_def)
  also have "\<dots> = answer_for (lower name1) es"
    using serve_waiting(1) [OF assms(6) run two(2)] two(3,4) key by simp
  finally show "fst (lookup_end name2 j c5)
      = Inr (case answer_for (lower name1) es of None \<Rightarrow> None | Some found \<Rightarrow> found)"
    by (simp add: lookup_end_def)
qed

end

end
