(* ===== verification/Bot.thy ===== *)
theory Bot
  imports Admin_Settings Lookups
begin

text \<open>
  \<open>bot/runner.py\<close>: the bot, which ties the chat session to the services.

  Its state extends the session by the database and the fields of \<open>MarketBot\<close>. What the outside world
  answers is given by \<open>surroundings\<close>, each part as a function of the database at that moment: the
  configuration of the auth service, the clients the services use (the chat sinks of that
  environment are replaced by the bot's own), what \<open>lookup_user\<close> found out for a name, the random part
  of a new key, and for the API the item search with all its parameters and whether the database
  answers a health check.

  The sinks' outcomes depend on the session only through parts the services do not change, so a
  service runs on the database alone, and what it sent is written to the connection when it is done
  (\<open>deliver\<close>). The requests for buddies that \<open>is_online\<close> writes on its way are not in \<open>outbound\<close>.
\<close>

section \<open>State\<close>

record bot = client +
  db :: world
  bot_stopping :: bool
  last_poll_at :: "int option"
  last_autotrack_at :: "int option"

record surroundings =
  auth_conf :: auth_config
  outside :: "world \<Rightarrow> env"
  resolves :: "world \<Rightarrow> string \<Rightarrow> exn + nat option"
  draws :: "world \<Rightarrow> string"
  float_of :: "string \<Rightarrow> string option"
  item_search :: "world \<Rightarrow> string \<Rightarrow> int option \<Rightarrow> int \<Rightarrow> int \<Rightarrow> exn + item list \<times> int"
  db_reachable :: bool

definition is_connected :: "'a client_scheme \<Rightarrow> bool" where
  "is_connected c \<longleftrightarrow> selected c \<noteq> None"

section \<open>Services\<close>

definition bot_send_privgroup :: "string \<Rightarrow> ('a client_scheme, unit) eff" where
  "bot_send_privgroup message =
     bnd (gets selected) (\<lambda>me. case me of
       None \<Rightarrow> ret ()
     | Some character \<Rightarrow> client_send_privgroup (chr_id character) message)"

definition make_service :: "surroundings \<Rightarrow> bot \<Rightarrow> env" where
  "make_service s b = (outside s (db b))\<lparr>
     privgroup_sink := Some (\<lambda>message. fst (bot_send_privgroup message b)),
     tell_sink := Some (\<lambda>player message.
       ebind (resolves s (db b) player) (\<lambda>found. fst (tell_found message found b))),
     online_sink := Some (\<lambda>player.
       ebind (resolves s (db b) player) (\<lambda>found. fst (online_found found b)))\<rparr>"

definition deliver :: "surroundings \<Rightarrow> world \<Rightarrow> chat_out \<Rightarrow> (bot, unit) eff" where
  "deliver s w out = (case out of
     Privgroup message \<Rightarrow> bot_send_privgroup message
   | Tell player message \<Rightarrow> bnd (lift (resolves s w player)) (tell_found message))"

definition with_service :: "surroundings \<Rightarrow> (env \<Rightarrow> (world, 'a) eff) \<Rightarrow> (bot, 'a) eff" where
  "with_service s m = (\<lambda>b. case m (make_service s b) (db b) of (r, w) \<Rightarrow>
     (r, snd (for_each (drop (length (outbox (db b))) (outbox w)) (deliver s (db b)) (b\<lparr>db := w\<rparr>))))"

section \<open>Tells\<close>

definition player_of :: "nat \<Rightarrow> 'a client_scheme \<Rightarrow> string" where
  "player_of char_id c = (case name_for_id char_id c of
     None \<Rightarrow> nat_str char_id | Some name \<Rightarrow> if name = [] then nat_str char_id else name)"

definition answer_tell :: "surroundings \<Rightarrow> string \<Rightarrow> string \<Rightarrow> env \<Rightarrow> (world, string) eff" where
  "answer_tell s player message env =
     bnd (handle_admin_command (auth_conf s) (float_of s) player message) (\<lambda>reply. case reply of
       Some r \<Rightarrow> ret r
     | None \<Rightarrow> bnd (gets (draws s)) (\<lambda>random. handle_command env (auth_conf s) random player message))"

definition handle_tell :: "surroundings \<Rightarrow> nat \<Rightarrow> string \<Rightarrow> (bot, unit) eff" where
  "handle_tell s char_id message =
     bnd (gets (player_of char_id)) (\<lambda>player.
     bnd (with_service s (answer_tell s player message)) (\<lambda>reply.
     client_send_tell char_id reply))"

definition bot_handlers :: "surroundings \<Rightarrow> bot handlers" where
  "bot_handlers s = \<lparr>on_tell = Some (handle_tell s), on_privgroup_message = None, on_buddy_status = None\<rparr>"

section \<open>Starting and stopping\<close>

definition start :: "nat \<Rightarrow> bytes \<Rightarrow> (bot, unit) eff" where
  "start dh_x prefix =
     bnd (login dh_x prefix) (\<lambda>_. modify (\<lambda>b. b\<lparr>bot_stopping := False\<rparr>))"

definition stop :: "(bot, unit) eff" where
  "stop = bnd (modify (\<lambda>b. b\<lparr>bot_stopping := True\<rparr>)) (\<lambda>_. client_stop)"

text \<open>The thread up to the start of its loop: is the handle ready?\<close>

definition bot_thread_main :: "nat \<Rightarrow> bytes \<Rightarrow> bot \<Rightarrow> bool \<times> bot" where
  "bot_thread_main dh_x prefix b = (case start dh_x prefix b of (Inl _, b') \<Rightarrow> (False, b') | (Inr _, b') \<Rightarrow> (True, b'))"

section \<open>Work on demand\<close>

definition now :: "(bot, int) eff" where
  "now = gets (\<lambda>b. clock (db b))"

definition force_poll_now :: "surroundings \<Rightarrow> (bot, unit) eff" where
  "force_poll_now s =
     bnd (with_service s poll_market) (\<lambda>_.
     bnd now (\<lambda>t. modify (\<lambda>b. b\<lparr>last_poll_at := Some t\<rparr>)))"

definition force_autotrack_now :: "surroundings \<Rightarrow> (bot, unit) eff" where
  "force_autotrack_now s =
     bnd (with_service s sync_top_traded_items) (\<lambda>_.
     bnd now (\<lambda>t. modify (\<lambda>b. b\<lparr>last_autotrack_at := Some t\<rparr>)))"

section \<open>What a service leaves alone\<close>

lemma send_state: "\<exists>out. snd (conn_send t args c) = c\<lparr>outbound := out\<rparr>"
proof (cases "connected c \<and> link_up c \<and> (\<exists>bs. encode_packet t args = Inr bs)")
  case True
  then show ?thesis by (auto simp: conn_send_def)
next
  case False
  then have "snd (conn_send t args c) = c\<lparr>outbound := outbound c\<rparr>"
    by (auto simp: conn_send_def split: sum.split)
  then show ?thesis by blast
qed

lemma deliver_state: "\<exists>out. snd (deliver s w x b) = b\<lparr>outbound := out\<rparr>"
proof -
  have same: "\<exists>out. b = b\<lparr>outbound := out\<rparr>" by (rule exI [of _ "outbound b"]) simp
  show ?thesis
    using send_state same
    by (auto simp: deliver_def bot_send_privgroup_def tell_found_def client_send_privgroup_def client_send_tell_def
        bnd_def split: chat_out.split option.split sum.split)
qed

lemma deliveries_state: "\<exists>out. snd (for_each xs (deliver s w) b) = b\<lparr>outbound := out\<rparr>"
proof (induction xs arbitrary: b)
  case Nil
  show ?case by (rule exI [of _ "outbound b"]) simp
next
  case (Cons x xs)
  obtain r u where run: "deliver s w x b = (r, u)" by fastforce
  with deliver_state [of s w x b] obtain out where u: "u = b\<lparr>outbound := out\<rparr>" by auto
  show ?case using run u Cons.IH [of u] by (cases r) (auto simp: bnd_def)
qed

lemma with_service_state:
  assumes "m (make_service s b) (db b) = (r, w)"
  obtains out where "with_service s m b = (r, b\<lparr>db := w, outbound := out\<rparr>)"
proof -
  obtain out where "snd (for_each (drop (length (outbox (db b))) (outbox w)) (deliver s (db b)) (b\<lparr>db := w\<rparr>))
      = b\<lparr>db := w, outbound := out\<rparr>"
    using deliveries_state by blast
  with assms that show thesis by (simp add: with_service_def)
qed

lemma with_service_run: "\<exists>out. with_service s m b = (fst (m (make_service s b) (db b)),
    b\<lparr>db := snd (m (make_service s b) (db b)), outbound := out\<rparr>)"
  by (rule with_service_state [of m s b]) auto

lemma with_service_db: "db (snd (with_service s m b)) = snd (m (make_service s b) (db b))"
  by (rule with_service_state [of m s b]) (auto simp: prod_eq_iff)

section \<open>A bot to evaluate\<close>

definition sample_surroundings :: surroundings where
  "sample_surroundings = \<lparr>auth_conf = sample_auth, outside = (\<lambda>_. sample_env), resolves = (\<lambda>_ _. Inr None),
     draws = (\<lambda>_. ''abc''), float_of = (\<lambda>_. None), item_search = (\<lambda>_ _ _ _ _. Inr ([], 0)), db_reachable = True\<rparr>"

definition sample_bot :: "world \<Rightarrow> bytes \<Rightarrow> bot" where
  "sample_bot w bs = \<lparr>username = ''user'', password = ''secret'', character_name = ''Bot'', connected = True,
     link_up = True, inbound = bs, outbound = [], characters = [], selected = None, waiters = [], futures = [],
     buddy_online = [], name_to_id = [], id_to_name = [], client_stopping = False, db = w,
     bot_stopping = False, last_poll_at = None, last_autotrack_at = None\<rparr>"

end
