(* ===== verification/Scheduler.thy ===== *)
theory Scheduler
  imports Bot
begin

text \<open>
  \<open>bot/scheduler.py\<close>: the two background loops.

  What other tasks do while a loop sleeps is an arbitrary change of the state; a list of such
  changes drives a run of the loop, which goes through one pass for each. \<open>asyncio.sleep\<close> converts the
  number of seconds to a float and raises when it is beyond them.
\<close>

section \<open>Time\<close>

definition sleep :: "int \<Rightarrow> ('s, unit) eff" where
  "sleep interval = (case fl interval 1 of Infty \<Rightarrow> raise Overflow_Error | Fin _ _ \<Rightarrow> ret ())"

definition interval_of :: "int \<Rightarrow> int" where
  "interval_of minutes = max 60 (60 * minutes)"

text \<open>\<open>now.timestamp() - last_sync >= interval\<close>: the difference is a float, the comparison exact.\<close>

definition overdue :: "int \<Rightarrow> int \<Rightarrow> int \<Rightarrow> exn + bool" where
  "overdue t last_sync interval = (case (fl t microseconds, fl last_sync 1) of
     (Fin a b, Fin c d) \<Rightarrow> (case fl (a * d - c * b) (b * d) of
         Fin n k \<Rightarrow> Inr (interval * k \<le> n)
       | Infty \<Rightarrow> Inr (c < 0))
   | _ \<Rightarrow> Inl Overflow_Error)"

section \<open>Polling\<close>

definition poll_cycle :: "surroundings \<Rightarrow> (bot, int) eff" where
  "poll_cycle s = catch
     (bnd (with_service s (\<lambda>env.
        bnd (get_int ''PollIntervalMinutes'') (\<lambda>interval_minutes.
        bnd (poll_market env) (\<lambda>_. ret (interval_of interval_minutes))))) (\<lambda>interval.
      bnd now (\<lambda>t.
      bnd (modify (\<lambda>b. b\<lparr>last_poll_at := Some t\<rparr>)) (\<lambda>_. ret interval))))
     (\<lambda>_. Some (ret 60))"

fun poll_loop :: "surroundings \<Rightarrow> (bot \<Rightarrow> bot) list \<Rightarrow> (bot, unit) eff" where
  "poll_loop s [] = ret ()"
| "poll_loop s (others # rest) = (\<lambda>b. if bot_stopping b then (Inr (), b)
     else bnd (poll_cycle s) (\<lambda>interval.
          bnd (sleep interval) (\<lambda>_.
          bnd (modify others) (\<lambda>_.
          poll_loop s rest))) b)"

section \<open>Auto-tracking\<close>

definition synced_now :: "bool \<Rightarrow> (bot, unit) eff" where
  "synced_now synced = (if synced then bnd now (\<lambda>t. modify (\<lambda>b. b\<lparr>last_autotrack_at := Some t\<rparr>)) else ret ())"

definition catch_up :: "env \<Rightarrow> (world, bool) eff" where
  "catch_up env =
     bnd (get_bool ''AutoTrackEnabled'') (\<lambda>enabled.
     if \<not> enabled then ret False
     else
       bnd (get_int ''AutoTrackIntervalMinutes'') (\<lambda>interval_minutes.
       bnd (get_int ''AutoTrackLastSync'') (\<lambda>last_sync.
       bnd (gets clock) (\<lambda>t.
       bnd (lift (overdue t last_sync (interval_of interval_minutes))) (\<lambda>due.
       if due then bnd (sync_top_traded_items env) (\<lambda>_. ret True) else ret False)))))"

definition autotrack_startup :: "surroundings \<Rightarrow> (bot, unit) eff" where
  "autotrack_startup s = catch (bnd (with_service s catch_up) synced_now) (\<lambda>_. Some (ret ()))"

definition autotrack_interval :: "surroundings \<Rightarrow> (bot, int) eff" where
  "autotrack_interval s = catch
     (with_service s (\<lambda>_. bnd (get_int ''AutoTrackIntervalMinutes'') (\<lambda>interval_minutes.
        ret (interval_of interval_minutes))))
     (\<lambda>_. Some (ret 60))"

definition resync_when_enabled :: "env \<Rightarrow> (world, bool) eff" where
  "resync_when_enabled env =
     bnd (get_bool ''AutoTrackEnabled'') (\<lambda>enabled.
     if \<not> enabled then ret False
     else
       bnd (get_int ''AutoTrackCount'') (\<lambda>count.
       if 1 \<le> count then bnd (sync_top_traded_items env) (\<lambda>_. ret True) else ret False))"

definition autotrack_cycle :: "surroundings \<Rightarrow> (bot, unit) eff" where
  "autotrack_cycle s = catch (bnd (with_service s resync_when_enabled) synced_now) (\<lambda>_. Some (ret ()))"

fun autotrack_rounds :: "surroundings \<Rightarrow> (bot \<Rightarrow> bot) list \<Rightarrow> (bot, unit) eff" where
  "autotrack_rounds s [] = ret ()"
| "autotrack_rounds s (others # rest) = (\<lambda>b. if bot_stopping b then (Inr (), b)
     else bnd (autotrack_interval s) (\<lambda>interval.
          bnd (sleep interval) (\<lambda>_.
          bnd (modify others) (\<lambda>_.
          bnd (autotrack_cycle s) (\<lambda>_.
          autotrack_rounds s rest)))) b)"

definition autotrack_loop :: "surroundings \<Rightarrow> (bot \<Rightarrow> bot) list \<Rightarrow> (bot, unit) eff" where
  "autotrack_loop s others = bnd (autotrack_startup s) (\<lambda>_. autotrack_rounds s others)"

section \<open>Which intervals can be slept through\<close>

lemma sleep_small:
  assumes "0 \<le> n" and "n \<le> 2 ^ 60"
  shows "sleep n b = (Inr (), b)"
proof -
  have "real_of_int n / real_of_int 1 \<le> 2 ^ 60" using assms(2) by simp
  also have "\<dots> \<le> (2 :: real) ^ 1000" by (rule power_increasing) simp_all
  finally have "real_of_int n / real_of_int 1 \<le> 2 ^ 1000" .
  then obtain m u where "fl n 1 = Fin m u" by (rule fl_error [OF assms(1) zero_less_one]) blast
  then show ?thesis by (simp add: sleep_def)
qed

lemma no_float:
  assumes "2 ^ 1025 \<le> n"
  shows "fl n 1 = Infty"
proof -
  have "(0 :: int) < 2 ^ 1025" by simp
  with assms have pos: "0 < n" by (rule less_le_trans [rotated])
  obtain m u where mu: "nearest n 1 = (m, u)" by fastforce
  with nearest_error [OF pos zero_less_one mu]
  have u: "0 < u" and err: "\<bar>real_of_int m / real_of_int u - real_of_int n\<bar>
      \<le> real_of_int n / 2 ^ 53 + 1 / 2 ^ 1075" by simp_all
  have "(1 :: real) / 2 ^ 1075 \<le> 1" by simp
  moreover have "real_of_int n / 2 ^ 53 \<le> real_of_int n / 4" using pos by (simp add: field_simps)
  moreover have n: "2 * 2 ^ 1024 \<le> real_of_int n"
    using assms by (metis of_int_le_iff of_int_numeral of_int_power power_Suc numeral_eq_Suc pred_numeral_simps)
  ultimately have "real_of_int n * 3 / 4 - 1 \<le> real_of_int m / real_of_int u" using err by linarith
  moreover have "(4 :: real) \<le> 2 ^ 1024" by simp
  ultimately have "2 ^ 1024 \<le> real_of_int m / real_of_int u" using n by linarith
  then have "2 ^ 1024 * real_of_int u \<le> real_of_int m" using u by (simp add: pos_le_divide_eq)
  then have "2 ^ 1024 * u \<le> m" by (metis of_int_le_iff of_int_mult of_int_numeral of_int_power)
  with pos mu show ?thesis by (simp add: fl_def)
qed

lemma minutes_before_bound:
  assumes "minutes_before t n = Inr c"
  shows "n \<le> 2 ^ 50"
proof -
  from assms have "n * minute div day \<le> 999999999"
    by (auto simp: minutes_before_def timedelta_def ebind_Inr_iff split: if_splits)
  moreover have "n * minute div day * day \<ge> n * minute - day" by (simp add: time_units)
  ultimately have "n * minute \<le> 1000000000 * day" by (simp add: time_units)
  then show ?thesis by (simp add: time_units)
qed

lemma read_run:
  "get_int key w = (r, u) \<longleftrightarrow> fst (get_int key w) = r \<and> u = w"
  "get_bool key w = (q, u) \<longleftrightarrow> fst (get_bool key w) = q \<and> u = w"
  by (auto simp: get_int_def get_bool_def bnd_def setting_get_simp split: prod.splits sum.splits option.splits setting_value.splits)

lemma poll_market_interval:
  assumes "poll_market env w = (Inr x, w')" and "fst (get_int ''PollIntervalMinutes'' w) = Inr n"
  shows "n \<le> 2 ^ 50"
proof -
  have "\<exists>t c. minutes_before t n = Inr c"
    using assms unfolding poll_market_def by (clarsimp simp: bnd_Inr_iff read_run) blast
  with minutes_before_bound show ?thesis by blast
qed

section \<open>Cycles\<close>

lemma catch_all: "\<exists>x b'. catch m (\<lambda>_. Some (ret y)) b = (Inr x, b')"
  by (auto simp: catch_def split: prod.split sum.split)

lemma poll_cycle_run:
  obtains i b' where "poll_cycle s b = (Inr i, b')" and "60 \<le> i" and "i \<le> 2 ^ 60"
    and "i = 60 \<and> last_poll_at b' = last_poll_at b \<or> last_poll_at b' = Some (clock (db b'))"
proof -
  let ?m = "\<lambda>env. bnd (get_int ''PollIntervalMinutes'') (\<lambda>interval_minutes.
      bnd (poll_market env) (\<lambda>_. ret (interval_of interval_minutes)))"
  obtain r w where run: "?m (make_service s b) (db b) = (r, w)" by fastforce
  obtain out where served: "with_service s ?m b = (r, b\<lparr>db := w, outbound := out\<rparr>)"
    using with_service_run [of s ?m b] unfolding run fst_conv snd_conv by blast
  show thesis
  proof (cases r)
    case (Inl e)
    with served show ?thesis by (intro that [of 60 "b\<lparr>db := w, outbound := out\<rparr>"]) (simp_all add: poll_cycle_def bnd_def catch_def)
  next
    case (Inr i)
    with run obtain n x where n: "fst (get_int ''PollIntervalMinutes'' (db b)) = Inr n"
      and poll: "poll_market (make_service s b) (db b) = (Inr x, w)" and i: "i = interval_of n"
      by (auto simp: bnd_Inr_iff read_run)
    from poll_market_interval [OF poll n] have "n \<le> 2 ^ 50" .
    then have "60 \<le> i" "i \<le> 2 ^ 60" by (simp_all add: i interval_of_def)
    with served Inr show ?thesis
      by (intro that [of i "b\<lparr>db := w, outbound := out, last_poll_at := Some (clock w)\<rparr>"])
        (simp_all add: poll_cycle_def bnd_def catch_def now_def)
  qed
qed

section \<open>Properties\<close>

text \<open>C31. The poll loop survives everything. Whatever the clients answer, whatever the settings hold and
  whatever other tasks do while it sleeps, it goes on for as long as the bot runs: every cycle
  yields an interval of at least a minute that can be slept through, and reports a time of the last
  poll only when it succeeded.\<close>

theorem poll_loop_survives:
  "fst (poll_loop s others b) = Inr ()
   \<and> (\<exists>i b'. poll_cycle s b = (Inr i, b') \<and> 60 \<le> i \<and> sleep i b' = (Inr (), b')
        \<and> (i = 60 \<and> last_poll_at b' = last_poll_at b \<or> last_poll_at b' = Some (clock (db b'))))"
proof
  show "fst (poll_loop s others b) = Inr ()"
  proof (induction others arbitrary: b)
    case (Cons f fs)
    obtain i b' where "poll_cycle s b = (Inr i, b')" "60 \<le> i" "i \<le> 2 ^ 60" by (rule poll_cycle_run)
    with Cons sleep_small [of i b'] show ?case by (simp add: bnd_def)
  qed simp
  obtain i b' where "poll_cycle s b = (Inr i, b')" "60 \<le> i" "i \<le> 2 ^ 60"
    "i = 60 \<and> last_poll_at b' = last_poll_at b \<or> last_poll_at b' = Some (clock (db b'))"
    by (rule poll_cycle_run)
  with sleep_small [of i b'] show "\<exists>i b'. poll_cycle s b = (Inr i, b') \<and> 60 \<le> i \<and> sleep i b' = (Inr (), b')
      \<and> (i = 60 \<and> last_poll_at b' = last_poll_at b \<or> last_poll_at b' = Some (clock (db b')))" by auto
qed

lemma autotrack_interval_run:
  "autotrack_interval s b = (Inr (case fst (get_int ''AutoTrackIntervalMinutes'' (db b)) of
     Inl _ \<Rightarrow> 60 | Inr n \<Rightarrow> interval_of n), b)"
proof -
  obtain r where "get_int ''AutoTrackIntervalMinutes'' (db b) = (r, db b)" by (auto simp: read_run)
  then show ?thesis
    by (cases r) (simp_all add: autotrack_interval_def with_service_def catch_def bnd_def)
qed

text \<open>C32. The auto-track loop does not survive everything: its sleep stands outside of every handler.
  When the interval it reads is one that a float can hold, a round goes through, whatever the resync
  does; an interval beyond that (the settings keep integers of any size) ends the loop with an
  OverflowError in its first round, before anything is synced.\<close>

theorem autotrack_loop_survives:
  assumes "\<not> bot_stopping b" and "fst (get_int ''AutoTrackIntervalMinutes'' (db b)) = Inr n"
  shows "case fl (interval_of n) 1 of
      Fin _ _ \<Rightarrow> fst (autotrack_rounds s [others] b) = Inr ()
    | Infty \<Rightarrow> autotrack_rounds s (others # rest) b = (Inl Overflow_Error, b)"
proof -
  have "\<exists>x b'. autotrack_cycle s (others b) = (Inr x, b')"
    unfolding autotrack_cycle_def by (rule catch_all)
  then obtain x b' where "autotrack_cycle s (others b) = (Inr x, b')" by blast
  with assms show ?thesis
    by (simp add: autotrack_interval_run bnd_def sleep_def split: pyfloat.split)
qed

lemma get_int_value: "fst (setting_get key w) = Inr (SInt n) \<Longrightarrow> fst (get_int key w) = Inr n"
  by (cases "setting_get key w") (simp add: get_int_def bnd_def)

definition huge_interval :: world where
  "huge_interval = snd (setting_set ''AutoTrackIntervalMinutes'' (SInt (2 ^ 1024)) fresh_settings)"

theorem autotrack_loop_survives_witness:
  "autotrack_rounds sample_surroundings [id] (sample_bot huge_interval [])
   = (Inl Overflow_Error, sample_bot huge_interval [])"
proof -
  have "setting_type fresh_settings ''AutoTrackIntervalMinutes'' = Some VInt" by code_simp
  moreover have "length (nat_str (2 ^ 1024)) \<le> 309" by (rule length_nat_str) simp_all
  ultimately have "Settings.fits fresh_settings ''AutoTrackIntervalMinutes'' (SInt (2 ^ 1024))"
    by (simp add: Settings.fits_def has_type_def digits_limit_def nat_power_eq)
  then have "fst (get_int ''AutoTrackIntervalMinutes'' huge_interval) = Inr (2 ^ 1024)"
    unfolding huge_interval_def by (intro get_int_value store.put_same)
  moreover have "fl (interval_of (2 ^ 1024)) 1 = Infty" by (rule no_float) (simp add: interval_of_def)
  ultimately show ?thesis
    using autotrack_loop_survives [of "sample_bot huge_interval []" "2 ^ 1024" sample_surroundings id "[]"]
    by (simp add: sample_bot_def)
qed

end
