(* ===== verification/Schemas.thy ===== *)
theory Schemas
  imports Scheduler
begin

text \<open>
  \<open>api/schemas.py\<close>: the bodies of requests and replies, with the conversions of rows into replies
  (\<open>model_validate\<close> with \<open>from_attributes\<close>, and the constructor calls the routes share). A time is a
  number of microseconds, \<open>last_polled\<close> a \<open>stamp\<close>.
\<close>

section \<open>Replies\<close>

record item_out =
  ito_aoid :: int
  ito_name :: string
  ito_ql :: int
  ito_icon :: "int option"
  ito_description :: "string option"

record watch_item_out =
  wio_aoid :: int
  wio_name :: string
  wio_ql :: int
  wio_icon :: "int option"
  wio_first_seen :: int
  wio_last_polled :: stamp
  wio_auto_tracked :: bool

record subscription_out =
  suo_aoid :: int
  suo_player :: string
  suo_min_price :: "int option"
  suo_max_price :: "int option"
  suo_min_ql :: "int option"
  suo_max_ql :: "int option"
  suo_created_at :: int

record setting_out =
  seo_key :: string
  seo_value :: setting_value

record register_out =
  reo_player :: string
  reo_registered :: bool

record unregister_out =
  uno_player :: string
  uno_subscriptions_removed :: int

record bulk_unwatch_out =
  buo_removed :: "int list"
  buo_not_watched :: "int list"

record user_stats_out =
  uso_player :: string
  uso_total_actions :: int
  uso_first_seen :: int
  uso_active_subscriptions :: int
  uso_by_action :: "(string \<times> int) list"

record bot_status_out =
  bso_connected :: bool
  bso_character_name :: "string option"
  bso_character_id :: "nat option"
  bso_last_poll_at :: "int option"
  bso_last_autotrack_at :: "int option"

record health_out =
  heo_status :: string
  heo_db_ok :: bool
  heo_bot_connected :: bool
  heo_character_name :: "string option"
  heo_timestamp :: int

datatype payload =
    Error_Out string
  | Setting_Out setting_out
  | Settings_Out "(string \<times> setting_value) list"
  | Item_Out item_out
  | Items_Out "item_out list" int
  | Watch_Item_Out watch_item_out
  | Watch_Items_Out "watch_item_out list"
  | Subscription_Out subscription_out
  | Subscriptions_Out "subscription_out list"
  | Register_Out register_out
  | Unregister_Out unregister_out
  | Bulk_Unwatch_Out bulk_unwatch_out
  | Unwatched_Out string int
  | User_Stats_Out user_stats_out
  | Status_Summary_Out market_status
  | Untrack_All_Out int
  | Bot_Status_Out bot_status_out
  | Orders_Out orders
  | Triggered_Out
  | Sent_Out
  | Health_Out health_out
  | Ready_Out bool
  | No_Content
  | Internal_Server_Error

section \<open>Conversions\<close>

definition item_reply :: "item \<Rightarrow> item_out" where
  "item_reply i = \<lparr>ito_aoid = it_aoid i, ito_name = it_name i, ito_ql = it_ql i, ito_icon = it_icon i,
     ito_description = it_description i\<rparr>"

definition watch_reply :: "watch_row \<Rightarrow> watch_item_out" where
  "watch_reply r = \<lparr>wio_aoid = wat_aoid r, wio_name = wat_name r, wio_ql = wat_ql r, wio_icon = wat_icon r,
     wio_first_seen = wat_first_seen r, wio_last_polled = wat_last_polled r, wio_auto_tracked = wat_auto_tracked r\<rparr>"

definition subscription_reply :: "sub_row \<Rightarrow> subscription_out" where
  "subscription_reply s = \<lparr>suo_aoid = sub_aoid s, suo_player = sub_player s, suo_min_price = sub_min_price s,
     suo_max_price = sub_max_price s, suo_min_ql = sub_min_ql s, suo_max_ql = sub_max_ql s,
     suo_created_at = sub_created_at s\<rparr>"

text \<open>A player with actions has a first one; pydantic would refuse None.\<close>

definition stats_reply :: "string \<Rightarrow> user_statistics \<Rightarrow> exn + user_stats_out" where
  "stats_reply player stats = (case first_action stats of
     None \<Rightarrow> Inl (Value_Error ''first_seen'')
   | Some t \<Rightarrow> Inr \<lparr>uso_player = player, uso_total_actions = total_actions stats, uso_first_seen = t,
       uso_active_subscriptions = active_subscriptions stats, uso_by_action = by_action stats\<rparr>)"

section \<open>Requests\<close>

text \<open>A request as the framework hands it to a route: path, query and body, parsed to their types.\<close>

datatype request =
    Get_Player string
  | Post_Register string
  | Post_Unregister string bool
  | Get_Watchlist string
  | Post_Subscribe string int
  | Delete_Subscribe string int
  | Post_Bulk_Delete string "int list"
  | Delete_Watchlist string bool
  | Get_Filter string int
  | Put_Filter string int "string option" "string option"
  | Delete_Filter string int
  | Get_Stats string
  | Get_Watches int int "bool option"
  | Get_Watch int
  | Post_Watch int
  | Delete_Watch int
  | Get_Orders int
  | Post_Untrack_All bool
  | Get_Admin_Stats string
  | Get_Status
  | Get_Status_Details int int
  | Get_Items string "int option" int int
  | Get_Item int
  | Get_Settings
  | Get_Setting string
  | Put_Setting string setting_value
  | Get_Bot_Status
  | Post_Poll_Trigger
  | Post_Autotrack_Trigger
  | Post_Tell string string
  | Get_Healthz
  | Get_Readyz

end
