(* ===== verification/Api.thy ===== *)
theory Api
  imports Schemas
begin

text \<open>
  The HTTP API: \<open>api/deps.py\<close>, \<open>api/auth_deps.py\<close>, \<open>api/app.py\<close> and \<open>api/routes/\<close>.

  The state is the bot (with the database) and the handle the two threads share: None when the
  program runs without chat, otherwise whether the bot is ready. Matching paths and parsing
  parameters is the framework's; a route is a function of its parsed parameters, and \<open>serve_request\<close> is
  what the framework makes of it: the dependencies first, then the route, then the reply or what the
  exception handlers turn an exception into.
\<close>

record app =
  system :: bot
  handle_ready :: "bool option"

record http_response =
  http_status :: int
  http_payload :: payload

section \<open>Dependencies\<close>

definition on_bot :: "(bot, 'a) eff \<Rightarrow> (app, 'a) eff" where
  "on_bot m = (\<lambda>a. case m (system a) of (r, b) \<Rightarrow> (r, a\<lparr>system := b\<rparr>))"

definition on_db :: "(world, 'a) eff \<Rightarrow> (bot, 'a) eff" where
  "on_db m = (\<lambda>b. case m (db b) of (r, w) \<Rightarrow> (r, b\<lparr>db := w\<rparr>))"

definition bot_ready :: "app \<Rightarrow> bool" where
  "bot_ready a \<longleftrightarrow> handle_ready a = Some True"

definition call_on_bot :: "(bot, 'a) eff \<Rightarrow> (app, 'a) eff" where
  "call_on_bot m = bnd (gets bot_ready) (\<lambda>ready. if \<not> ready then raise Bot_Not_Ready else on_bot m)"

definition require_bot_ready :: "(app, unit) eff" where
  "require_bot_ready = bnd (gets bot_ready) (\<lambda>ready.
     if \<not> ready then raise (Http_Exception 503 ''bot is not connected yet'') else ret ())"

text \<open>Sinks that find no bot ready do nothing, and nobody is online: as if they were not set.\<close>

definition get_service :: "surroundings \<Rightarrow> (env \<Rightarrow> (world, 'a) eff) \<Rightarrow> (app, 'a) eff" where
  "get_service s m = bnd (gets bot_ready) (\<lambda>ready.
     if ready then on_bot (with_service s m)
     else on_bot (\<lambda>b. on_db (m ((outside s (db b))\<lparr>privgroup_sink := None, tell_sink := None, online_sink := None\<rparr>)) b))"

definition API_KEY_HEADER :: string where "API_KEY_HEADER = ''X-Api-Key''"

definition check_key :: "surroundings \<Rightarrow> string option \<Rightarrow> (app, principal) eff" where
  "check_key s x_api_key = (case x_api_key of
     None \<Rightarrow> raise (Http_Exception 401 (''missing '' @ API_KEY_HEADER @ '' header''))
   | Some key \<Rightarrow>
     if key = [] then raise (Http_Exception 401 (''missing '' @ API_KEY_HEADER @ '' header''))
     else bnd (on_bot (on_db (authenticate (auth_conf s) key))) (\<lambda>found. case found of
       None \<Rightarrow> raise (Http_Exception 401 ''invalid or revoked API key'')
     | Some p \<Rightarrow> ret p))"

definition require_admin_key :: "surroundings \<Rightarrow> string option \<Rightarrow> (app, unit) eff" where
  "require_admin_key s x_api_key =
     bnd (check_key s x_api_key) (\<lambda>p.
     if \<not> prc_is_admin p then raise (Http_Exception 403 ''admin API key required'') else ret ())"

definition require_player_key :: "surroundings \<Rightarrow> string \<Rightarrow> string option \<Rightarrow> (app, unit) eff" where
  "require_player_key s player x_api_key =
     bnd (check_key s x_api_key) (\<lambda>p.
     if \<not> prc_is_admin p \<and> prc_player p \<noteq> player
     then raise (Http_Exception 403 ''API key is not scoped to this player'') else ret ())"

section \<open>Replies\<close>

definition ok :: "payload \<Rightarrow> http_response" where
  "ok body = \<lparr>http_status = 200, http_payload = body\<rparr>"

definition no_content :: http_response where
  "no_content = \<lparr>http_status = 204, http_payload = No_Content\<rparr>"

definition http_error :: "int \<Rightarrow> string \<Rightarrow> ('w, 'a) eff" where
  "http_error code detail = raise (Http_Exception code detail)"

definition confirm_first :: "bool \<Rightarrow> ('w, 'a) eff \<Rightarrow> ('w, 'a) eff" where
  "confirm_first confirm m = (if \<not> confirm then http_error 400 ''destructive action requires confirm=true'' else m)"

section \<open>Players\<close>

definition get_player_route :: "string \<Rightarrow> env \<Rightarrow> (world, http_response) eff" where
  "get_player_route player env = bnd (is_registered player) (\<lambda>known.
     ret (ok (Register_Out \<lparr>reo_player = player, reo_registered = known\<rparr>)))"

definition register_route :: "string \<Rightarrow> env \<Rightarrow> (world, http_response) eff" where
  "register_route player env = bnd (register env player) (\<lambda>_.
     ret (ok (Register_Out \<lparr>reo_player = player, reo_registered = True\<rparr>)))"

definition unregister_route :: "string \<Rightarrow> bool \<Rightarrow> env \<Rightarrow> (world, http_response) eff" where
  "unregister_route player confirm env = confirm_first confirm
     (bnd (unregister env player) (\<lambda>removed.
      ret (ok (Unregister_Out \<lparr>uno_player = player, uno_subscriptions_removed = removed\<rparr>))))"

definition watchlist_route :: "string \<Rightarrow> env \<Rightarrow> (world, http_response) eff" where
  "watchlist_route player env = bnd (list_watchlist player) (\<lambda>found.
     ret (ok (Subscriptions_Out (map subscription_reply found))))"

definition subscribe_route :: "string \<Rightarrow> int \<Rightarrow> env \<Rightarrow> (world, http_response) eff" where
  "subscribe_route player aoid env = bnd (subscribe env player aoid) (\<lambda>item.
     ret (ok (Item_Out (item_reply item))))"

definition unsubscribe_route :: "string \<Rightarrow> int \<Rightarrow> env \<Rightarrow> (world, http_response) eff" where
  "unsubscribe_route player aoid env = bnd (unsubscribe env player aoid) (\<lambda>deleted.
     if \<not> deleted then http_error 404 (player @ '' is not watching aoid '' @ int_str aoid) else ret no_content)"

definition bulk_route :: "string \<Rightarrow> int list \<Rightarrow> env \<Rightarrow> (world, http_response) eff" where
  "bulk_route player aoids env = bnd (unsubscribe_bulk env player aoids) (\<lambda>(removed, not_watched).
     ret (ok (Bulk_Unwatch_Out \<lparr>buo_removed = sort removed, buo_not_watched = sort not_watched\<rparr>)))"

definition unsubscribe_all_route :: "string \<Rightarrow> bool \<Rightarrow> env \<Rightarrow> (world, http_response) eff" where
  "unsubscribe_all_route player confirm env = confirm_first confirm
     (bnd (unsubscribe_all env player) (\<lambda>count. ret (ok (Unwatched_Out player count))))"

definition get_filter_route :: "string \<Rightarrow> int \<Rightarrow> env \<Rightarrow> (world, http_response) eff" where
  "get_filter_route player aoid env = bnd (get_filter player aoid) (\<lambda>sub.
     ret (ok (Subscription_Out (subscription_reply sub))))"

definition update_filter_route ::
  "string \<Rightarrow> int \<Rightarrow> string option \<Rightarrow> string option \<Rightarrow> env \<Rightarrow> (world, http_response) eff" where
  "update_filter_route player aoid price_spec ql_spec env =
     bnd (case price_spec of None \<Rightarrow> ret () | Some spec \<Rightarrow> set_price_filter player aoid spec) (\<lambda>_.
     bnd (case ql_spec of None \<Rightarrow> ret () | Some spec \<Rightarrow> set_ql_filter player aoid spec) (\<lambda>_.
     bnd (get_filter player aoid) (\<lambda>sub.
     ret (ok (Subscription_Out (subscription_reply sub))))))"

definition clear_filter_route :: "string \<Rightarrow> int \<Rightarrow> env \<Rightarrow> (world, http_response) eff" where
  "clear_filter_route player aoid env =
     bnd (clear_filter player aoid) (\<lambda>_.
     bnd (get_filter player aoid) (\<lambda>sub.
     ret (ok (Subscription_Out (subscription_reply sub)))))"

definition stats_route :: "string \<Rightarrow> env \<Rightarrow> (world, http_response) eff" where
  "stats_route player env = bnd (user_stats player) (\<lambda>found. case found of
     None \<Rightarrow> http_error 404 (player @ '' has no recorded Market activity'')
   | Some stats \<Rightarrow> bnd (lift (stats_reply player stats)) (\<lambda>out. ret (ok (User_Stats_Out out))))"

section \<open>Tracked items\<close>

definition list_watch_route :: "int \<Rightarrow> int \<Rightarrow> bool option \<Rightarrow> env \<Rightarrow> (world, http_response) eff" where
  "list_watch_route limit offset auto_tracked env = bnd (list_watch limit offset auto_tracked) (\<lambda>rows.
     ret (ok (Watch_Items_Out (map watch_reply rows))))"

definition untracked :: "int \<Rightarrow> string" where
  "untracked aoid = ''aoid '' @ int_str aoid @ '' is not currently tracked''"

definition get_watch_route :: "int \<Rightarrow> env \<Rightarrow> (world, http_response) eff" where
  "get_watch_route aoid env = bnd (get_watch aoid) (\<lambda>found. case found of
     None \<Rightarrow> http_error 404 (untracked aoid) | Some row \<Rightarrow> ret (ok (Watch_Item_Out (watch_reply row))))"

definition start_watching_route :: "int \<Rightarrow> env \<Rightarrow> (world, http_response) eff" where
  "start_watching_route aoid env = bnd (lift (aodb_get env aoid)) (\<lambda>found. case found of
     None \<Rightarrow> raise (Market_Error (Unknown_Item aoid))
   | Some item \<Rightarrow>
       bnd (watch_item env aoid (it_name item) (it_ql item) (it_icon item) False) (\<lambda>_.
       ret (ok (Item_Out (item_reply item)))))"

definition stop_tracking_route :: "int \<Rightarrow> env \<Rightarrow> (world, http_response) eff" where
  "stop_tracking_route aoid env = bnd (delete_watch aoid) (\<lambda>deleted.
     if \<not> deleted then http_error 404 (untracked aoid) else ret no_content)"

definition orders_route :: "int \<Rightarrow> env \<Rightarrow> (world, http_response) eff" where
  "orders_route aoid env = bnd (lift (gmi_get env aoid)) (\<lambda>found. case found of
     None \<Rightarrow> http_error 502 ''market data currently unavailable''
   | Some os \<Rightarrow> ret (ok (Orders_Out os)))"

section \<open>Administration and status\<close>

definition untrack_all_route :: "bool \<Rightarrow> env \<Rightarrow> (world, http_response) eff" where
  "untrack_all_route confirm env = confirm_first confirm
     (bnd untrack_all (\<lambda>cleared. ret (ok (Untrack_All_Out cleared))))"

definition admin_stats_route :: "string \<Rightarrow> env \<Rightarrow> (world, http_response) eff" where
  "admin_stats_route player env = bnd (user_stats player) (\<lambda>found. case found of
     None \<Rightarrow> raise (Market_Error (No_Activity player))
   | Some stats \<Rightarrow> bnd (lift (stats_reply player stats)) (\<lambda>out. ret (ok (User_Stats_Out out))))"

definition status_route :: "env \<Rightarrow> (world, http_response) eff" where
  "status_route env = bnd status_summary (\<lambda>summary. ret (ok (Status_Summary_Out summary)))"

definition status_details_route :: "int \<Rightarrow> int \<Rightarrow> env \<Rightarrow> (world, http_response) eff" where
  "status_details_route limit offset env = bnd (status_details limit offset) (\<lambda>rows.
     ret (ok (Watch_Items_Out (map watch_reply rows))))"

section \<open>Settings\<close>

definition unknown_to_404 :: "string \<Rightarrow> exn \<Rightarrow> (world, 'a) eff option" where
  "unknown_to_404 key e = (case e of
     Unknown_Setting _ \<Rightarrow> Some (http_error 404 (''unknown setting '' @ py_repr key)) | _ \<Rightarrow> None)"

definition list_settings_route :: "env \<Rightarrow> (world, http_response) eff" where
  "list_settings_route env = bnd setting_all (\<lambda>kvs. ret (ok (Settings_Out kvs)))"

definition setting_reply :: "string \<Rightarrow> setting_value \<Rightarrow> http_response" where
  "setting_reply key v = ok (Setting_Out \<lparr>seo_key = key, seo_value = v\<rparr>)"

definition get_setting_route :: "string \<Rightarrow> env \<Rightarrow> (world, http_response) eff" where
  "get_setting_route key env =
     bnd (catch (setting_get key) (unknown_to_404 key)) (\<lambda>v. ret (setting_reply key v))"

definition update_setting_route :: "string \<Rightarrow> setting_value \<Rightarrow> env \<Rightarrow> (world, http_response) eff" where
  "update_setting_route key v env =
     bnd (catch (bnd (setting_set key v) (\<lambda>_. setting_get key)) (unknown_to_404 key)) (\<lambda>v'.
     ret (setting_reply key v'))"

section \<open>Items\<close>

definition search_items_route :: "surroundings \<Rightarrow> string \<Rightarrow> int option \<Rightarrow> int \<Rightarrow> int \<Rightarrow> env \<Rightarrow> (world, http_response) eff" where
  "search_items_route s q ql limit offset env =
     bnd (gets (\<lambda>w. item_search s w q ql limit offset)) (\<lambda>found.
     bnd (lift found) (\<lambda>(items, total). ret (ok (Items_Out (map item_reply items) total))))"

definition get_item_route :: "int \<Rightarrow> env \<Rightarrow> (world, http_response) eff" where
  "get_item_route aoid env = bnd (lift (aodb_get env aoid)) (\<lambda>found. case found of
     None \<Rightarrow> http_error 404 (''unknown item aoid '' @ int_str aoid)
   | Some item \<Rightarrow> ret (ok (Item_Out (item_reply item))))"

section \<open>The bot\<close>

definition bot_status_route :: "(app, http_response) eff" where
  "bot_status_route = gets (\<lambda>a.
     let is_up = bot_ready a; character = (if is_up then selected (system a) else None) in
     ok (Bot_Status_Out \<lparr>bso_connected = is_up, bso_character_name = map_option chr_name character,
       bso_character_id = map_option chr_id character,
       bso_last_poll_at = (if is_up then last_poll_at (system a) else None),
       bso_last_autotrack_at = (if is_up then last_autotrack_at (system a) else None)\<rparr>))"

definition trigger_poll_route :: "surroundings \<Rightarrow> (app, http_response) eff" where
  "trigger_poll_route s = bnd require_bot_ready (\<lambda>_.
     bnd (call_on_bot (force_poll_now s)) (\<lambda>_. ret (ok Triggered_Out)))"

definition trigger_autotrack_route :: "surroundings \<Rightarrow> (app, http_response) eff" where
  "trigger_autotrack_route s = bnd require_bot_ready (\<lambda>_.
     bnd (call_on_bot (force_autotrack_now s)) (\<lambda>_. ret (ok Triggered_Out)))"

definition send_tell_by_name :: "surroundings \<Rightarrow> string \<Rightarrow> string \<Rightarrow> (bot, unit) eff" where
  "send_tell_by_name s player message =
     bnd (gets (\<lambda>b. resolves s (db b) player)) (\<lambda>r. bnd (lift r) (tell_found message))"

definition tell_route :: "surroundings \<Rightarrow> string \<Rightarrow> string \<Rightarrow> (app, http_response) eff" where
  "tell_route s player message = bnd require_bot_ready (\<lambda>_.
     bnd (call_on_bot (send_tell_by_name s player message)) (\<lambda>_. ret (ok Sent_Out)))"

definition healthz_route :: "surroundings \<Rightarrow> (app, http_response) eff" where
  "healthz_route s = gets (\<lambda>a.
     ok (Health_Out \<lparr>heo_status = (if db_reachable s then ''ok'' else ''degraded''), heo_db_ok = db_reachable s,
       heo_bot_connected = bot_ready a,
       heo_character_name = (if bot_ready a then map_option chr_name (selected (system a)) else None),
       heo_timestamp = clock (db (system a))\<rparr>))"

definition readyz_route :: "(app, http_response) eff" where
  "readyz_route = gets (\<lambda>a. ok (Ready_Out (bot_ready a)))"

section \<open>Requests\<close>

text \<open>The dependency a route names beside the service: whose key it takes.\<close>

datatype key_needed = No_Key | Admin_Key | Player_Key string

fun key_for :: "request \<Rightarrow> key_needed" where
  "key_for (Post_Unregister player _) = Player_Key player"
| "key_for (Post_Subscribe player _) = Player_Key player"
| "key_for (Delete_Subscribe player _) = Player_Key player"
| "key_for (Post_Bulk_Delete player _) = Player_Key player"
| "key_for (Delete_Watchlist player _) = Player_Key player"
| "key_for (Put_Filter player _ _ _) = Player_Key player"
| "key_for (Delete_Filter player _) = Player_Key player"
| "key_for (Post_Watch _) = Admin_Key"
| "key_for (Delete_Watch _) = Admin_Key"
| "key_for (Post_Untrack_All _) = Admin_Key"
| "key_for (Put_Setting _ _) = Admin_Key"
| "key_for Post_Poll_Trigger = Admin_Key"
| "key_for Post_Autotrack_Trigger = Admin_Key"
| "key_for (Post_Tell _ _) = Admin_Key"
| "key_for _ = No_Key"

definition check_dependencies :: "surroundings \<Rightarrow> request \<Rightarrow> string option \<Rightarrow> (app, unit) eff" where
  "check_dependencies s req x_api_key = (case key_for req of
     No_Key \<Rightarrow> ret ()
   | Admin_Key \<Rightarrow> require_admin_key s x_api_key
   | Player_Key player \<Rightarrow> require_player_key s player x_api_key)"

fun run_route :: "surroundings \<Rightarrow> request \<Rightarrow> (app, http_response) eff" where
  "run_route s (Get_Player player) = get_service s (get_player_route player)"
| "run_route s (Post_Register player) = get_service s (register_route player)"
| "run_route s (Post_Unregister player confirm) = get_service s (unregister_route player confirm)"
| "run_route s (Get_Watchlist player) = get_service s (watchlist_route player)"
| "run_route s (Post_Subscribe player aoid) = get_service s (subscribe_route player aoid)"
| "run_route s (Delete_Subscribe player aoid) = get_service s (unsubscribe_route player aoid)"
| "run_route s (Post_Bulk_Delete player aoids) = get_service s (bulk_route player aoids)"
| "run_route s (Delete_Watchlist player confirm) = get_service s (unsubscribe_all_route player confirm)"
| "run_route s (Get_Filter player aoid) = get_service s (get_filter_route player aoid)"
| "run_route s (Put_Filter player aoid price ql) = get_service s (update_filter_route player aoid price ql)"
| "run_route s (Delete_Filter player aoid) = get_service s (clear_filter_route player aoid)"
| "run_route s (Get_Stats player) = get_service s (stats_route player)"
| "run_route s (Get_Watches limit offset auto) = get_service s (list_watch_route limit offset auto)"
| "run_route s (Get_Watch aoid) = get_service s (get_watch_route aoid)"
| "run_route s (Post_Watch aoid) = get_service s (start_watching_route aoid)"
| "run_route s (Delete_Watch aoid) = get_service s (stop_tracking_route aoid)"
| "run_route s (Get_Orders aoid) = get_service s (orders_route aoid)"
| "run_route s (Post_Untrack_All confirm) = get_service s (untrack_all_route confirm)"
| "run_route s (Get_Admin_Stats player) = get_service s (admin_stats_route player)"
| "run_route s Get_Status = get_service s status_route"
| "run_route s (Get_Status_Details limit offset) = get_service s (status_details_route limit offset)"
| "run_route s (Get_Items q ql limit offset) = get_service s (search_items_route s q ql limit offset)"
| "run_route s (Get_Item aoid) = get_service s (get_item_route aoid)"
| "run_route s Get_Settings = get_service s list_settings_route"
| "run_route s (Get_Setting key) = get_service s (get_setting_route key)"
| "run_route s (Put_Setting key v) = get_service s (update_setting_route key v)"
| "run_route s Get_Bot_Status = bot_status_route"
| "run_route s Post_Poll_Trigger = trigger_poll_route s"
| "run_route s Post_Autotrack_Trigger = trigger_autotrack_route s"
| "run_route s (Post_Tell player message) = tell_route s player message"
| "run_route s Get_Healthz = healthz_route s"
| "run_route s Get_Readyz = readyz_route"

section \<open>Exceptions become replies\<close>

fun status_code_for :: "market_error \<Rightarrow> int" where
  "status_code_for (Unknown_Item _) = 404"
| "status_code_for (Not_Watching _) = 404"
| "status_code_for (No_Activity _) = 404"
| "status_code_for (Already_Registered _) = 409"
| "status_code_for (Already_Watching _) = 409"
| "status_code_for (Subscription_Limit _) = 409"
| "status_code_for (Not_Registered _) = 400"
| "status_code_for (Invalid_Range _) = 422"
| "status_code_for Market_Disabled = 400"

text \<open>\<open>str(exc)\<close>.\<close>

fun error_detail :: "market_error \<Rightarrow> string" where
  "error_detail (Unknown_Item aoid) = ''unknown item aoid '' @ int_str aoid"
| "error_detail (Not_Watching aoid) = ''not watching aoid '' @ int_str aoid"
| "error_detail (No_Activity player) = player"
| "error_detail (Already_Registered player) = player"
| "error_detail (Already_Watching aoid) = ''already watching aoid '' @ int_str aoid"
| "error_detail (Subscription_Limit limit) = ''subscription limit of '' @ int_str limit @ '' reached''"
| "error_detail (Not_Registered player) = player"
| "error_detail (Invalid_Range spec) = spec"
| "error_detail Market_Disabled = []"

definition market_error_handler :: "market_error \<Rightarrow> http_response" where
  "market_error_handler e = \<lparr>http_status = status_code_for e, http_payload = Error_Out (error_detail e)\<rparr>"

definition error_response :: "exn \<Rightarrow> http_response" where
  "error_response e = (case e of
     Market_Error m \<Rightarrow> market_error_handler m
   | Http_Exception code detail \<Rightarrow> \<lparr>http_status = code, http_payload = Error_Out detail\<rparr>
   | _ \<Rightarrow> \<lparr>http_status = 500, http_payload = Internal_Server_Error\<rparr>)"

definition serve_request :: "surroundings \<Rightarrow> request \<Rightarrow> string option \<Rightarrow> app \<Rightarrow> http_response \<times> app" where
  "serve_request s req x_api_key a =
     (case bnd (check_dependencies s req x_api_key) (\<lambda>_. run_route s req) a of
        (Inl e, a') \<Rightarrow> (error_response e, a')
      | (Inr r, a') \<Rightarrow> (r, a'))"

definition sample_app :: "world \<Rightarrow> app" where
  "sample_app w = \<lparr>system = sample_bot w [], handle_ready = None\<rparr>"

end
