(* ===== verification/Api_Guard.thy ===== *)
theory Api_Guard
  imports Api
begin

text \<open>
  Who may change what over HTTP: without a key that its route accepts, a request changes nothing but
  the time a key was last used.
\<close>

section \<open>What counts as nothing\<close>

definition forget_use :: "key_row \<Rightarrow> key_row" where
  "forget_use k = k\<lparr>key_last_used_at := None\<rparr>"

definition touched :: "world \<Rightarrow> world \<Rightarrow> bool" where
  "touched w w' \<longleftrightarrow> w' = w\<lparr>api_keys := api_keys w'\<rparr> \<and> map forget_use (api_keys w') = map forget_use (api_keys w)"

definition only_touched :: "app \<Rightarrow> app \<Rightarrow> bool" where
  "only_touched a a' \<longleftrightarrow> a' = a\<lparr>system := (system a)\<lparr>db := db (system a')\<rparr>\<rparr>
     \<and> touched (db (system a)) (db (system a'))"

lemma touched_refl: "touched w w"
  by (simp add: touched_def)

lemma only_touched_refl: "only_touched a a"
  by (simp add: only_touched_def touched_refl)

lemma touch_touched: "touched w (snd (touch_last_used ident w))"
  by (simp add: touched_def touch_last_used_def update_where_def forget_use_def comp_def)

section \<open>Keys\<close>

definition admin_in :: "auth_config \<Rightarrow> world \<Rightarrow> string \<Rightarrow> bool" where
  "admin_in auth w p \<longleftrightarrow> (owner_character auth \<noteq> [] \<and> p = owner_character auth)
     \<or> (case row_with usr_player p (users w) of None \<Rightarrow> False | Some u \<Rightarrow> usr_is_admin u)"

lemma authenticate_run:
  "\<exists>w'. authenticate auth key w = (Inr (map_option (\<lambda>p. \<lparr>prc_player = p, prc_is_admin = admin_in auth w p\<rparr>)
      (key_holder w (digest auth key))), w') \<and> touched w w'"
proof (cases "find (\<lambda>k. key_hash k = digest auth key \<and> active k) (api_keys w)")
  case None
  then show ?thesis by (simp add: authenticate_def get_by_hash_def key_holder_def touched_refl)
next
  case (Some k)
  let ?w = "snd (touch_last_used (key_id k) w)"
  have "users ?w = users w" by (simp add: touch_last_used_def)
  then have "is_admin_player auth p ?w = (Inr (admin_in auth w p), ?w)" for p
    by (simp add: is_admin_player_def get_user_def admin_in_def split: option.split)
  with Some touch_touched [of w "key_id k"] show ?thesis
    by (simp add: authenticate_def get_by_hash_def key_holder_def touch_last_used_def bnd_def)
qed

text \<open>The player whose unrevoked key the header presents.\<close>

definition bearer :: "surroundings \<Rightarrow> string option \<Rightarrow> world \<Rightarrow> string option" where
  "bearer s x_api_key w = (case x_api_key of
     None \<Rightarrow> None | Some key \<Rightarrow> if key = [] then None else key_holder w (digest (auth_conf s) key))"

text \<open>The keys a route accepts: that of the player named in the path, or of an administrator.\<close>

definition granted :: "surroundings \<Rightarrow> request \<Rightarrow> string option \<Rightarrow> world \<Rightarrow> bool" where
  "granted s req x_api_key w = (case bearer s x_api_key w of
     None \<Rightarrow> False
   | Some p \<Rightarrow> (case key_for req of
       No_Key \<Rightarrow> False
     | Admin_Key \<Rightarrow> admin_in (auth_conf s) w p
     | Player_Key player \<Rightarrow> p = player \<or> admin_in (auth_conf s) w p))"

lemma check_key_run:
  "\<exists>detail a'. check_key s x_api_key a =
     (case bearer s x_api_key (db (system a)) of
        None \<Rightarrow> Inl (Http_Exception 401 detail)
      | Some p \<Rightarrow> Inr \<lparr>prc_player = p, prc_is_admin = admin_in (auth_conf s) (db (system a)) p\<rparr>, a')
   \<and> only_touched a a'"
proof (cases "x_api_key = None \<or> x_api_key = Some []")
  case True
  then show ?thesis by (auto simp: check_key_def bearer_def intro: only_touched_refl)
next
  case False
  then obtain key where key: "x_api_key = Some key" "key \<noteq> []" by auto
  obtain w' where run: "authenticate (auth_conf s) key (db (system a)) = (Inr (map_option
      (\<lambda>p. \<lparr>prc_player = p, prc_is_admin = admin_in (auth_conf s) (db (system a)) p\<rparr>)
      (key_holder (db (system a)) (digest (auth_conf s) key))), w')" and "touched (db (system a)) w'"
    using authenticate_run by blast
  then have "only_touched a (a\<lparr>system := (system a)\<lparr>db := w'\<rparr>\<rparr>)" by (simp add: only_touched_def)
  with key run show ?thesis
    by (cases "key_holder (db (system a)) (digest (auth_conf s) key)")
      (auto simp: check_key_def bearer_def on_bot_def on_db_def bnd_def)
qed

text \<open>The dependencies of a route let through exactly the keys it accepts.\<close>

lemma dependencies_run:
  assumes "check_dependencies s req x_api_key a = (r, a')" and "key_for req \<noteq> No_Key"
  shows "only_touched a a'"
    and "if granted s req x_api_key (db (system a)) then r = Inr ()
      else \<exists>code detail. r = Inl (Http_Exception code detail) \<and> code \<in> {401, 403}"
proof -
  obtain detail u where check: "check_key s x_api_key a =
     (case bearer s x_api_key (db (system a)) of
        None \<Rightarrow> Inl (Http_Exception 401 detail)
      | Some p \<Rightarrow> Inr \<lparr>prc_player = p, prc_is_admin = admin_in (auth_conf s) (db (system a)) p\<rparr>, u)"
    and touched: "only_touched a u"
    using check_key_run [of s x_api_key a] by blast
  have "a' = u \<and> (if granted s req x_api_key (db (system a)) then r = Inr ()
      else \<exists>code detail. r = Inl (Http_Exception code detail) \<and> code \<in> {401, 403})"
    using assms check
    by (cases "bearer s x_api_key (db (system a))"; cases "key_for req")
      (auto simp: check_dependencies_def require_admin_key_def require_player_key_def bnd_def granted_def
        split: if_splits)
  with touched show "only_touched a a'"
    and "if granted s req x_api_key (db (system a)) then r = Inr ()
      else \<exists>code detail. r = Inl (Http_Exception code detail) \<and> code \<in> {401, 403}"
    by blast+
qed

section \<open>Reading routes\<close>

definition unchanging :: "('w, 'a) eff \<Rightarrow> bool" where
  "unchanging m \<longleftrightarrow> (\<forall>w. snd (m w) = w)"

lemma unchangingI: "(\<And>x. keeping (\<lambda>w. w = x) m) \<Longrightarrow> unchanging m"
  by (auto simp: unchanging_def keeping_def)

lemma unchanging_service:
  assumes "\<And>env. unchanging (m env)"
  shows "unchanging (get_service s m)"
  unfolding unchanging_def
proof
  fix a :: app
  have run: "\<exists>r. m env (db (system a)) = (r, db (system a))" for env
    using assms [of env] by (metis unchanging_def prod.collapse)
  obtain r where "m (make_service s (system a)) (db (system a)) = (r, db (system a))" using run by blast
  then have "snd (on_bot (with_service s m) a) = a" by (simp add: on_bot_def with_service_def)
  moreover have "snd (on_bot (\<lambda>b. on_db (m (f b)) b) a) = a" for f
    using run [of "f (system a)"] by (auto simp: on_bot_def on_db_def)
  ultimately show "snd (get_service s m a) = a" by (simp add: get_service_def)
qed

lemma reading_routes:
  "unchanging (get_player_route p env)"
  "unchanging (watchlist_route p env)"
  "unchanging (get_filter_route p aoid env)"
  "unchanging (stats_route p env)"
  "unchanging (list_watch_route limit offset auto env)"
  "unchanging (get_watch_route aoid env)"
  "unchanging (orders_route aoid env)"
  "unchanging (admin_stats_route p env)"
  "unchanging (status_route env)"
  "unchanging (status_details_route limit offset env)"
  "unchanging (list_settings_route env)"
  "unchanging (get_setting_route key env)"
  "unchanging (search_items_route s q ql limit offset env)"
  "unchanging (get_item_route aoid env)"
  by (rule unchangingI;
      auto intro!: keeps simp: get_player_route_def watchlist_route_def get_filter_route_def stats_route_def
        list_watch_route_def get_watch_route_def orders_route_def admin_stats_route_def status_route_def
        status_details_route_def list_settings_route_def get_setting_route_def search_items_route_def
        get_item_route_def http_error_def unknown_to_404_def list_watch_def get_watch_def with_params_def
      split: exn.splits)+

lemma open_route_unchanging:
  assumes "key_for req = No_Key" and "\<And>p. req \<noteq> Post_Register p"
  shows "unchanging (run_route s req)"
proof -
  have posted: "False" if "req = Post_Register p" for p using that assms(2) by blast
  have gets: "unchanging (gets f)" for f :: "app \<Rightarrow> http_response" by (simp add: unchanging_def)
  show ?thesis
    using assms(1) posted
    by (cases req)
      (simp_all add: bot_status_route_def healthz_route_def readyz_route_def gets unchanging_service reading_routes)
qed

section \<open>Property\<close>

text \<open>C33. Without a key its route accepts, a request changes nothing, whatever it asks for and whatever
  the state is; only a registration (open to everybody) does. The routes that write answer 401 or 403
  to it, and all it can leave is the time at which the key it did present was last used.\<close>

theorem unauthorised_requests_change_nothing:
  assumes "\<not> granted s req x_api_key (db (system a))" and "\<And>p. req \<noteq> Post_Register p"
    and "serve_request s req x_api_key a = (response, a')"
  shows "only_touched a a' \<and> (key_for req = No_Key \<or> http_status response \<in> {401, 403})"
proof (cases "key_for req = No_Key")
  case True
  with open_route_unchanging [OF True assms(2)] have "a' = a"
    using assms(3) unfolding unchanging_def serve_request_def
    by (auto simp: check_dependencies_def split: prod.splits sum.splits) (metis snd_conv)+
  with True show ?thesis by (simp add: only_touched_refl)
next
  case False
  obtain r u where deps: "check_dependencies s req x_api_key a = (r, u)" by fastforce
  from dependencies_run [OF deps False] assms(1) obtain code detail where
    "r = Inl (Http_Exception code detail)" "code \<in> {401, 403}" "only_touched a u" by auto
  with assms(3) deps show ?thesis by (auto simp: serve_request_def bnd_def error_response_def)
qed

definition ann_with_key :: world where
  "ann_with_key = snd (generate_key sample_auth ''Ann'' ''one'' empty_world)"

theorem unauthorised_requests_change_nothing_witness:
  "http_status (fst (serve_request sample_surroundings (Post_Subscribe ''Bob'' 100) (Some ''aomk_one'')
     (sample_app ann_with_key))) \<in> {401, 403}"
proof -
  let ?req = "Post_Subscribe ''Bob'' 100" and ?key = "Some ''aomk_one''" and ?a = "sample_app ann_with_key"
  let ?out = "serve_request sample_surroundings ?req ?key ?a"
  have "\<not> granted sample_surroundings ?req ?key ann_with_key" by code_simp
  then have "\<not> granted sample_surroundings ?req ?key (db (system ?a))" by (simp add: sample_app_def sample_bot_def)
  from unauthorised_requests_change_nothing [OF this _ prod.collapse [symmetric]]
  show ?thesis by simp
qed

end
