(* ===== verification/Api_Errors.thy ===== *)
theory Api_Errors
  imports Api_Guard Chat_Errors
begin

text \<open>
  What the API answers on a sound database: the routes of the services can fail with a market error
  (which has a status of its own), with an \<open>HTTPException\<close>, with an exception of a client or sink, or
  with one that a number out of range causes; only the last two become a 500.
\<close>

section \<open>Routes\<close>

definition is_http :: "exn \<Rightarrow> bool" where
  "is_http e \<longleftrightarrow> (case e of Http_Exception code _ \<Rightarrow> code \<noteq> 500 | _ \<Rightarrow> False)"

definition excused :: "(exn \<Rightarrow> bool) \<Rightarrow> exn \<Rightarrow> bool" where
  "excused X e \<longleftrightarrow> X e \<or> is_http e"

lemma guarded_excuse: "code \<noteq> 500 \<Longrightarrow> admitted (excused X) (Http_Exception code detail)"
  by (simp add: excused_def is_http_def)

lemma clients_excused: "clients_raise X env \<Longrightarrow> clients_raise (excused X) env"
  unfolding clients_raise_def excused_def by blast

lemma guarded_http [guards]:
  "code \<noteq> 500 \<Longrightarrow> guarded I (admitted (excused X)) (http_error code detail)"
  "guarded I (admitted (excused X)) m \<Longrightarrow> guarded I (admitted (excused X)) (confirm_first c m)"
  by (auto intro!: guards guarded_excuse simp: http_error_def confirm_first_def)

lemma guarded_tracked [guards]:
  "guarded sound (admitted X) (get_watch aoid)"
  "guarded sound (admitted X) (delete_watch aoid)"
proof -
  have "keeping I (get_watch aoid)" for I :: "world \<Rightarrow> bool"
    by (auto intro!: keeps simp: get_watch_def with_params_def)
  then show "guarded sound (admitted X) (get_watch aoid)"
    by (intro guarded_leaf data_only) simp_all
  show "guarded sound (admitted X) (delete_watch aoid)"
    by (intro guarded_leaf data_only consistent.delete_watch typed.delete_watch) simp
qed

lemma guarded_reply [guards]: "guarded I (admitted X) (lift (stats_reply p stats))"
  by (auto intro!: guarded_lift simp: stats_reply_def split: option.splits)

lemma guarded_setting_reads [guards]:
  "guarded sound (admitted (excused X)) (catch (setting_get key) (unknown_to_404 key))"
  "guarded sound (admitted (excused X)) setting_all"
proof -
  show "guarded sound (admitted (excused X)) (catch (setting_get key) (unknown_to_404 key))"
  proof (rule guardedI)
    show "keeping sound (catch (setting_get key) (unknown_to_404 key))"
      by (auto intro!: keeps simp: unknown_to_404_def http_error_def split: exn.splits)
    fix w e w' assume "sound w" and run: "catch (setting_get key) (unknown_to_404 key) w = (Inl e, w')"
    then show "admitted (excused X) e"
    proof (cases "row_with set_key key (settings w)")
      case None
      with run show ?thesis
        by (auto simp: catch_def setting_get_simp unknown_to_404_def http_error_def guarded_excuse)
    next
      case (Some r)
      obtain x where "setting_get key w = (Inr x, w)"
        by (rule typed_row [OF _ Some]) (use \<open>sound w\<close> in \<open>simp add: sound_def\<close>)
      with run show ?thesis by (simp add: catch_def)
    qed
  qed
  show "guarded sound (admitted (excused X)) setting_all"
  proof (rule guardedI)
    show "keeping sound setting_all" by (auto intro!: keeps simp: setting_all_def)
    fix w e w' assume "sound w" and "setting_all w = (Inl e, w')"
    then show "admitted (excused X) e"
      using all_readable [of "settings w"] by (auto simp: setting_all_def sound_def settings_typed_def)
  qed
qed

lemma client_calls:
  assumes "clients_raise X env"
  shows "guarded sound (admitted (excused X)) (lift (aodb_get env aoid))"
    and "guarded sound (admitted (excused X)) (lift (gmi_get env aoid))"
  using clients_excused [OF assms] by (auto intro!: guarded_lift simp: clients_raise_def)

lemmas route_defs = get_player_route_def register_route_def unregister_route_def watchlist_route_def
  subscribe_route_def unsubscribe_route_def bulk_route_def unsubscribe_all_route_def get_filter_route_def
  update_filter_route_def clear_filter_route_def stats_route_def list_watch_route_def get_watch_route_def
  start_watching_route_def stop_tracking_route_def orders_route_def untrack_all_route_def admin_stats_route_def
  status_route_def status_details_route_def list_settings_route_def get_setting_route_def get_item_route_def

lemma routes_guarded:
  assumes "clients_raise X env"
  shows "guarded sound (admitted (excused X)) (get_player_route p env)"
    "guarded sound (admitted (excused X)) (register_route p env)"
    "guarded sound (admitted (excused X)) (unregister_route p c env)"
    "guarded sound (admitted (excused X)) (watchlist_route p env)"
    "guarded sound (admitted (excused X)) (subscribe_route p aoid env)"
    "guarded sound (admitted (excused X)) (unsubscribe_route p aoid env)"
    "guarded sound (admitted (excused X)) (bulk_route p aoids env)"
    "guarded sound (admitted (excused X)) (unsubscribe_all_route p c env)"
    "guarded sound (admitted (excused X)) (get_filter_route p aoid env)"
    "guarded sound (admitted (excused X)) (update_filter_route p aoid price ql env)"
    "guarded sound (admitted (excused X)) (clear_filter_route p aoid env)"
    "guarded sound (admitted (excused X)) (stats_route p env)"
    "guarded sound (admitted (excused X)) (list_watch_route l off auto env)"
    "guarded sound (admitted (excused X)) (get_watch_route aoid env)"
    "guarded sound (admitted (excused X)) (start_watching_route aoid env)"
    "guarded sound (admitted (excused X)) (stop_tracking_route aoid env)"
    "guarded sound (admitted (excused X)) (orders_route aoid env)"
    "guarded sound (admitted (excused X)) (untrack_all_route c env)"
    "guarded sound (admitted (excused X)) (admin_stats_route p env)"
    "guarded sound (admitted (excused X)) (status_route env)"
    "guarded sound (admitted (excused X)) (status_details_route l off env)"
    "guarded sound (admitted (excused X)) (list_settings_route env)"
    "guarded sound (admitted (excused X)) (get_setting_route key env)"
    "guarded sound (admitted (excused X)) (get_item_route aoid env)"
  unfolding route_defs
  by (intro guards clients_excused [OF assms] client_calls [OF assms] admitted_simps | simp)+

lemma search_guarded:
  assumes "\<And>w q ql limit offset e. item_search s w q ql limit offset = Inl e \<Longrightarrow> X e"
  shows "guarded sound (admitted (excused X)) (search_items_route s q ql limit offset env)"
proof (rule guardedI)
  show "keeping sound (search_items_route s q ql limit offset env)"
    by (auto intro!: keeps simp: search_items_route_def)
  fix w e w' assume "search_items_route s q ql limit offset env w = (Inl e, w')"
  with assms show "admitted (excused X) e"
    by (cases "item_search s w q ql limit offset")
      (auto simp: search_items_route_def excused_def split: prod.splits)
qed

text \<open>Writing a setting through the API does not keep the settings typed, but fails no worse.\<close>

lemma update_setting_errors:
  assumes "sound w" and "update_setting_route key v env w = (Inl e, w')"
  shows "admitted (excused X) e"
proof (cases "row_with set_key key (settings w)")
  case None
  with assms(2) show ?thesis
    by (auto simp: update_setting_route_def setting_set_simp bnd_def catch_def unknown_to_404_def http_error_def guarded_excuse)
next
  case (Some r)
  have range: "admitted (excused X) e" if "serialize v t = Inl e \<or> deserialize x t = Inl e" for x t e
    using that text_errors(1) [of x]
    by (cases v) (auto simp: serialize_def py_str_def str_of_int_def deserialize_def admitted_range
        split: if_splits value_type.splits sum.splits simp: ebind_def)
  from Some have "row_with set_key key (update_where (\<lambda>r. set_key r = key)
      (\<lambda>r. r\<lparr>set_value := t, set_updated_at := n\<rparr>) (settings w)) \<noteq> None" for t n
    by (simp add: settings_update_row)
  with Some assms(2) range show ?thesis
    by (fastforce simp: update_setting_route_def setting_set_simp setting_get_simp bnd_def catch_def
        unknown_to_404_def http_error_def guarded_excuse setting_reply_def split: sum.splits option.splits exn.splits)
qed

section \<open>Requests\<close>

lemma keeping_on_db: "keeping I m \<Longrightarrow> keeping (\<lambda>a. I (db (system a))) (on_bot (on_db m))"
  by (simp add: keeping_def on_bot_def on_db_def split: prod.split) auto

lemma dependencies_sound: "keeping (\<lambda>a. sound (db (system a))) (check_dependencies s req x_api_key)"
proof -
  have "keeping (\<lambda>a. sound (db (system a))) (check_key s x_api_key)"
    unfolding check_key_def
    by (intro keeps keeping_on_db sound_keeping consistent.authenticating typed.authenticating)
  then show ?thesis
    by (cases "key_for req")
      (auto intro!: keeps simp: check_dependencies_def require_admin_key_def require_player_key_def)
qed

text \<open>What the service of a request is built with.\<close>

definition service_env :: "surroundings \<Rightarrow> bool \<Rightarrow> bot \<Rightarrow> env" where
  "service_env s ready b = (if ready then make_service s b
     else (outside s (db b))\<lparr>privgroup_sink := None, tell_sink := None, online_sink := None\<rparr>)"

lemma service_error:
  assumes "get_service s m a = (Inl e, a')" and "\<And>b. clients_raise X (service_env s (bot_ready a) b)"
  obtains env w' where "clients_raise X env" and "m env (db (system a)) = (Inl e, w')"
proof (cases "bot_ready a")
  case True
  with assms(1) have "fst (m (make_service s (system a)) (db (system a))) = Inl e"
    by (auto simp: get_service_def on_bot_def with_service_def split: prod.splits)
  with assms(2) [of "system a"] True that show thesis by (metis service_env_def prod.collapse)
next
  case False
  with assms(1) have "fst (m (service_env s False (system a)) (db (system a))) = Inl e"
    by (auto simp: get_service_def on_bot_def on_db_def service_env_def split: prod.splits)
  with assms(2) [of "system a"] False that show thesis by (metis prod.collapse)
qed

text \<open>The requests that do not make the bot do something.\<close>

fun of_service :: "request \<Rightarrow> bool" where
  "of_service Post_Poll_Trigger = False"
| "of_service Post_Autotrack_Trigger = False"
| "of_service (Post_Tell _ _) = False"
| "of_service _ = True"

lemma route_error:
  assumes "run_route s req a = (Inl e, a')" and "of_service req" and "sound (db (system a))"
    and "\<And>b. clients_raise X (service_env s (bot_ready a) b)"
    and "\<And>w q ql limit offset e. item_search s w q ql limit offset = Inl e \<Longrightarrow> X e"
  shows "admitted (excused X) e"
proof -
  have via: "admitted (excused X) e" if run: "get_service s m a = (Inl e, a')"
    and m: "\<And>env. clients_raise X env \<Longrightarrow> guarded sound (admitted (excused X)) (m env)" for m
  proof -
    obtain env w' where "clients_raise X env" "m env (db (system a)) = (Inl e, w')"
      using service_error [OF run assms(4)] .
    with m assms(3) show ?thesis by (blast intro: guardedD)
  qed
  have put: "admitted (excused X) e" if run: "get_service s (update_setting_route key v) a = (Inl e, a')" for key v
  proof -
    obtain env w' where "update_setting_route key v env (db (system a)) = (Inl e, w')"
      using service_error [OF run assms(4)] .
    with update_setting_errors assms(3) show ?thesis by blast
  qed
  have search: "admitted (excused X) e" if "get_service s (search_items_route s q ql limit offset) a = (Inl e, a')"
    for q ql limit offset
    using that by (rule via) (rule search_guarded [OF assms(5)])
  show ?thesis
    using assms(1,2)
    by (cases req)
      (simp_all add: bot_status_route_def healthz_route_def readyz_route_def,
        ((erule via, erule routes_guarded) | erule search | erule put)+)
qed

lemma only_touched_ready: "only_touched a u \<Longrightarrow> handle_ready u = handle_ready a"
  by (auto simp: only_touched_def dest: arg_cong [where f = handle_ready])

lemma status_no_500: "status_code_for e \<noteq> 500"
  by (cases e) simp_all

section \<open>Property\<close>



end
