(* ===== verification/Bot_Reader.thy ===== *)
theory Bot_Reader
  imports Bot
begin

text \<open>
  The reader of the running bot: its handler satisfies the laws of \<open>session_handlers\<close>, so the
  lemmas on the reader and on lookups hold for the bot. The properties are stated on the bytes of
  the connection.
\<close>

section \<open>The bot's handler\<close>

lemma oblivious_outcome: "oblivious m \<Longrightarrow> fst (m (c\<lparr>inbound := i\<rparr>)) = fst (m c)"
  by (simp add: oblivious_def)

lemma oblivious_for_each [oblivion]: "(\<And>x. oblivious (f x)) \<Longrightarrow> oblivious (for_each xs f)"
  by (induction xs) (auto intro!: oblivion)

lemma chat_oblivious [oblivion]:
  "oblivious (client_send_tell n message)"
  "oblivious (bot_send_privgroup message)"
  "oblivious (tell_found message found)"
  "oblivious (online_found found)"
  "oblivious (deliver s w out)"
  by (auto intro!: oblivion simp: client_send_tell_def bot_send_privgroup_def client_send_privgroup_def
      tell_found_def online_found_def buddy_add_def deliver_def split: chat_out.split)

lemma make_service_frame: "make_service s (b\<lparr>inbound := i\<rparr>) = make_service s b"
  by (simp add: make_service_def oblivious_outcome chat_oblivious)

lemma with_service_oblivious [oblivion]: "oblivious (with_service s m)"
  unfolding oblivious_def
proof (intro allI)
  fix b :: bot and i
  obtain r w where run: "m (make_service s b) (db b) = (r, w)" by fastforce
  let ?sends = "for_each (drop (length (outbox (db b))) (outbox w)) (deliver s (db b))"
  have "oblivious ?sends" by (intro oblivion)
  then have "snd (?sends (b\<lparr>db := w\<rparr>\<lparr>inbound := i\<rparr>)) = (snd (?sends (b\<lparr>db := w\<rparr>)))\<lparr>inbound := i\<rparr>"
    unfolding oblivious_def by (metis snd_conv)
  moreover have "b\<lparr>db := w\<rparr>\<lparr>inbound := i\<rparr> = b\<lparr>inbound := i\<rparr>\<lparr>db := w\<rparr>" by simp
  ultimately have "snd (?sends (b\<lparr>inbound := i\<rparr>\<lparr>db := w\<rparr>)) = (snd (?sends (b\<lparr>db := w\<rparr>)))\<lparr>inbound := i\<rparr>"
    by (simp only:)
  then show "with_service s m (b\<lparr>inbound := i\<rparr>)
      = (fst (with_service s m b), (snd (with_service s m b))\<lparr>inbound := i\<rparr>)"
    by (simp add: with_service_def make_service_frame run)
qed

lemma handle_tell_oblivious: "oblivious (handle_tell s n message)"
  unfolding handle_tell_def
  by (intro oblivion) (simp add: player_of_def name_for_id_def)

lemma send_session: "keeping (\<lambda>b. session b = x) (conn_send t args)"
proof (rule keepingI)
  fix b assume "session b = x"
  then show "session (snd (conn_send t args b)) = x"
    using send_state [of t args b] by (auto simp: session_def)
qed

lemma with_service_session: "keeping (\<lambda>b. session b = x) (with_service s m)"
proof (rule keepingI)
  fix b :: bot assume "session b = x"
  then show "session (snd (with_service s m b)) = x"
    by (rule_tac with_service_state [of m s b]) (auto simp: prod_eq_iff session_def)
qed

lemma handle_tell_session: "keeping (\<lambda>b. session b = x) (handle_tell s n message)"
  unfolding handle_tell_def client_send_tell_def by (intro keeps send_session with_service_session)

interpretation bot_session: session_handlers "bot_handlers s" for s
  by unfold_locales (auto simp: bot_handlers_def handle_tell_oblivious handle_tell_session)

lemma outcome_run: "fst p = r \<Longrightarrow> p = (r, snd p)"
  by (cases p) simp

section \<open>Properties\<close>

text \<open>C26. The reader implements the event loop. When the connection carries well-formed packets and
  then something that cannot be read, the bot does exactly what serving the packets' events in order
  does, each once, up to the exception a handler raises. Behind them it ends quietly when the
  connection was lost (also in the middle of a packet), and with the exception otherwise: a packet
  of a type without a schema, whatever its payload, ends the reader with a KeyError, and what
  follows it is never looked at.\<close>

theorem reader_serves_events:
  assumes "list_all well_formed ps" and "\<not> client_stopping b" and "connected b"
    and "inbound b = concat (map packet_frame ps) @ rest" and "fst (read_packet rest) = Inl e"
  shows "map_option (map_prod id heard) (read_loop (bot_handlers s) b)
    = Some (bnd (serve (bot_handlers s) (map event_of ps))
        (\<lambda>_. if connection_lost e then ret () else raise e) (heard b))"
  by (rule bot_session.read_loop_refines [OF assms])

definition name_packet :: inbound_packet where
  "name_packet = \<lparr>ptype = AOCP_CLIENT_NAME, pargs = [IInt 7, IBytes [65, 110, 110]]\<rparr>"

theorem reader_serves_events_witness:
  "map_option fst (read_loop (bot_handlers sample_surroundings)
     (sample_bot empty_world (packet_frame name_packet @ frame 65 []))) = Some (Inl Key_Error)"
proof -
  let ?b = "sample_bot empty_world (packet_frame name_packet @ frame 65 [])"
  let ?hs = "bot_handlers sample_surroundings"
  have ps: "list_all well_formed [name_packet]"
    by (simp add: name_packet_def well_formed_def packet_types IN_SCHEMAS_def wire_str_def)
  have b: "\<not> client_stopping ?b" "connected ?b"
    "inbound ?b = concat (map packet_frame [name_packet]) @ frame 65 []"
    by (simp_all add: sample_bot_def)
  have "fst (read_packet (frame 65 [])) = Inl Key_Error" by code_simp
  from reader_serves_events [OF ps b this, of sample_surroundings]
  have "map_option fst (map_option (map_prod id heard) (read_loop ?hs ?b))
    = Some (fst (bnd (serve ?hs (map event_of [name_packet]))
        (\<lambda>_. if connection_lost Key_Error then ret () else raise Key_Error) (heard ?b)))"
    by (simp only: option.map)
  also have "\<dots> = Some (Inl Key_Error)"
    by (simp add: event_of_def name_packet_def packet_types run_event_def bnd_def heard_def sample_bot_def connection_lost_def)
  finally show ?thesis by (simp add: option.map_comp comp_def)
qed

text \<open>C27. The reader returns on every finite stream of bytes, well-formed or not.\<close>

theorem reader_returns: "\<exists>outcome b'. read_loop (bot_handlers s) b = Some (outcome, b')"
  by (rule bot_session.read_loop_ends)

text \<open>C28. A lookup that is the only one for its name gets the first answer the server sends for
  that name, in whatever case, while it waits (None for the number that means nobody), or None when
  there is none; and the name is known from then on when an answer named somebody.\<close>

theorem lookup_answered_first:
  assumes "waiters_ok b" and "\<not> client_stopping b"
    and "lookup_begin name b = (Inr (Waiting i), b1)"
    and "serve (bot_handlers s) events b1 = (Inr (), b2)"
  shows "fst (lookup_end name i b2)
      = Inr (case answer_for (lower name) events of None \<Rightarrow> None | Some found \<Rightarrow> found)
    \<and> (case known_after (lower name) events None of None \<Rightarrow> True
       | Some found \<Rightarrow> lookup_begin name b2 = (Inr (Cached found), b2))"
  using bot_session.lookup_gets_answer [OF assms] by (simp add: lookup_begin_run split: option.split)

lemma answer_run: "run_event hs (Answer_Event n name) c = (Inr (), lookup_answered n name c)"
  by (simp add: run_event_def)

lemma answers_served:
  "\<not> client_stopping c \<Longrightarrow> fst (serve hs [Answer_Event n name] c) = Inr ()"
  "\<not> client_stopping c \<Longrightarrow> fst (serve hs [Answer_Event n name, Answer_Event m other] c) = Inr ()"
  using noted_flags(2) [of "Answer_Event n name" c] by (simp_all add: bnd_apply(1) [OF answer_run])

definition asking :: bot where
  "asking = sample_bot empty_world []"

lemma asking_ok: "waiters_ok asking" "\<not> client_stopping asking"
  by (simp_all add: asking_def sample_bot_def waiters_ok_def)

theorem lookup_answered_first_witness:
  "fst (lookup_end ''Ann'' 0 (snd (serve (bot_handlers sample_surroundings)
     [Answer_Event 9 ''Bob'', Answer_Event 7 ''ANN''] (snd (lookup_begin ''Ann'' asking))))) = Inr (Some 7)"
proof -
  let ?es = "[Answer_Event 9 ''Bob'', Answer_Event 7 ''ANN'']"
  let ?one = "lookup_begin ''Ann'' asking"
  let ?two = "serve (bot_handlers sample_surroundings) ?es (snd ?one)"
  have one: "fst ?one = Inr (Waiting 0)" by code_simp
  have two: "fst ?two = Inr ()" by (rule answers_served, code_simp)
  have names: "lower ''Ann'' = ''ann''" "lower ''Bob'' = ''bob''" "lower ''ANN'' = ''ann''" by code_simp+
  have "answer_for (lower ''Ann'') ?es = Some (Some 7)" by (simp add: names resolved_def NO_ID_def)
  with lookup_answered_first [OF asking_ok one [THEN outcome_run] two [THEN outcome_run]]
  show ?thesis by (simp only: option.case)
qed

text \<open>C29. Lookups of the same name at the same time lose answers. The task that asked first gets None
  although the server answered, because the second took its place; and when it gives up, the second
  is forgotten too: it gets what had arrived by then and nothing that comes later.\<close>

theorem overlapping_lookups_lose:
  assumes "waiters_ok b" and "\<not> client_stopping b" and "lower name2 = lower name1"
    and "lookup_begin name1 b = (Inr (Waiting i), b1)"
    and "lookup_begin name2 b1 = (Inr (Waiting j), b2)"
    and "serve (bot_handlers s) events b2 = (Inr (), b3)"
    and "lookup_end name1 i b3 = (outcome, b4)"
    and "serve (bot_handlers s) later b4 = (Inr (), b5)"
  shows "outcome = Inr None
    \<and> fst (lookup_end name2 j b5)
      = Inr (case answer_for (lower name1) events of None \<Rightarrow> None | Some found \<Rightarrow> found)"
  using bot_session.lookup_overtaken [OF assms] by blast

theorem overlapping_lookups_lose_witness:
  "fst (lookup_end ''Ann'' 0 (snd (serve (bot_handlers sample_surroundings) [Answer_Event 7 ''Ann'']
     (snd (lookup_begin ''ann'' (snd (lookup_begin ''Ann'' asking))))))) = Inr None"
proof -
  let ?one = "lookup_begin ''Ann'' asking"
  let ?two = "lookup_begin ''ann'' (snd ?one)"
  let ?three = "serve (bot_handlers sample_surroundings) [Answer_Event 7 ''Ann''] (snd ?two)"
  let ?four = "lookup_end ''Ann'' 0 (snd ?three)"
  have one: "fst ?one = Inr (Waiting 0)" by code_simp
  have two: "fst ?two = Inr (Waiting 1)" by code_simp
  have three: "fst ?three = Inr ()" by (rule answers_served, code_simp)
  have key: "lower ''ann'' = lower ''Ann''" by code_simp
  have "serve (bot_handlers sample_surroundings) [] (snd ?four) = (Inr (), snd ?four)" by simp
  from overlapping_lookups_lose [OF asking_ok key one [THEN outcome_run] two [THEN outcome_run]
      three [THEN outcome_run] outcome_run [OF refl] this]
  show ?thesis by (rule conjunct1)
qed

end
