(* ===== verification/Startup.thy ===== *)
theory Startup
  imports Api_Guard Bot_Login Bot_Reader Config
begin

text \<open>
  \<open>main.py\<close>: seeding the settings, building the parts, with or without a bot.

  Starting the thread of the bot is a separate event (\<open>bot_thread\<close>), after which the server is up
  already; what it finds on the wire decides whether the handle ever becomes ready.
\<close>

definition new_bot :: "app_config \<Rightarrow> world \<Rightarrow> bot" where
  "new_bot c w = \<lparr>username = ao_login c, password = ao_password c, character_name = ao_character c,
     connected = False, link_up = False, inbound = [], outbound = [], characters = [], selected = None,
     waiters = [], futures = [], buddy_online = [], name_to_id = [], id_to_name = [], client_stopping = False,
     db = w, bot_stopping = False, last_poll_at = None, last_autotrack_at = None\<rparr>"

text \<open>The process ends with the exception when seeding fails; otherwise it serves requests.\<close>

definition main_program :: "app_config \<Rightarrow> world \<Rightarrow> exn + app" where
  "main_program given w = (let c = load_config given in
     case seed_defaults w of
       (Inl e, _) \<Rightarrow> Inl e
     | (Inr _, w') \<Rightarrow> Inr \<lparr>system = new_bot c w',
         handle_ready = (if ao_login c \<noteq> [] \<and> ao_password c \<noteq> [] \<and> ao_character c \<noteq> [] then Some False else None)\<rparr>)"

definition bot_thread :: "nat \<Rightarrow> bytes \<Rightarrow> app \<Rightarrow> app" where
  "bot_thread dh_x prefix a = (case bot_thread_main dh_x prefix (system a) of (ready, b) \<Rightarrow>
     a\<lparr>system := b, handle_ready := Some ready\<rparr>)"

section \<open>What seeding establishes\<close>

text \<open>A default setting that is there has its type.\<close>

definition default_types :: "world \<Rightarrow> bool" where
  "default_types w \<longleftrightarrow> list_all (\<lambda>(key, value, vt). setting_type w key \<in> {None, Some vt}) DEFAULT_SETTINGS"

definition catalogue_ok :: "world \<Rightarrow> bool" where
  "catalogue_ok w \<longleftrightarrow> list_all (\<lambda>(key, value, vt). setting_type w key = Some vt) DEFAULT_SETTINGS"

lemma catalogue_default_types: "catalogue_ok w \<Longrightarrow> default_types w"
  by (auto simp: catalogue_ok_def default_types_def list_all_iff)

lemma seed_one_type:
  assumes "has_type v vt"
  shows "setting_type (snd (seed_one (k, v, vt) w)) k' =
    (if k' = k \<and> setting_type w k = None then Some vt else setting_type w k')"
  using seed_one_run [OF assms, of k w]
  by (auto simp: setting_type_def row_with_upsert new_setting_def split: option.splits)

lemma seed_types:
  assumes "\<forall>(k, v, vt) \<in> set ds. has_type v vt" and "distinct (map fst ds)"
    and "\<forall>(k, v, vt) \<in> set ds. setting_type w k \<in> {None, Some vt}"
  shows "(\<forall>(k, v, vt) \<in> set ds. setting_type (snd (for_each ds seed_one w)) k = Some vt)
    \<and> (\<forall>k. k \<notin> fst ` set ds \<longrightarrow> setting_type (snd (for_each ds seed_one w)) k = setting_type w k)"
  using assms
proof (induction ds arbitrary: w)
  case (Cons d ds)
  obtain k v vt where d: "d = (k, v, vt)" by (cases d) auto
  have v: "has_type v vt" using Cons.prems(1) d by simp
  obtain w' where step: "seed_one d w = (Inr (), w')" using seed_one_run [OF v, of k w] d by auto
  have types: "setting_type w' x = (if x = k \<and> setting_type w k = None then Some vt else setting_type w x)" for x
    using seed_one_type [OF v, of k w x] step d by simp
  have run: "snd (for_each (d # ds) seed_one w) = snd (for_each ds seed_one w')"
    using step by (simp add: bnd_apply(1))
  have k: "k \<notin> fst ` set ds" and ds: "\<forall>(k, v, vt) \<in> set ds. has_type v vt" "distinct (map fst ds)"
    using Cons.prems(1,2) d by auto
  have "setting_type w' x \<in> {None, Some t}" if m: "(x, u, t) \<in> set ds" for x u t
  proof -
    from m k have "x \<noteq> k" by force
    moreover from Cons.prems(3) m have "setting_type w x \<in> {None, Some t}" by fastforce
    ultimately show ?thesis by (simp add: types)
  qed
  then have "\<forall>(x, v, t) \<in> set ds. setting_type w' x \<in> {None, Some t}" by blast
  note IH = Cons.IH [OF ds this]
  have "setting_type (snd (for_each ds seed_one w')) k = Some vt"
    using IH k types [of k] Cons.prems(3) d by (auto split: if_splits)
  with IH show ?case unfolding run using d by (simp add: types)
qed simp

lemma seed_catalogue: "default_types w \<Longrightarrow> catalogue_ok (snd (seed_defaults w))"
  using seed_types [OF defaults_typed, of w]
  by (simp add: default_types_def catalogue_ok_def seed_defaults_alt list_all_iff)

lemma seed_runs: "seed_defaults w = (Inr (), snd (seed_defaults w))"
  using seed_list [OF defaults_typed, of w] by (intro prod_eqI) (simp_all add: seed_defaults_alt)

lemma main_run: "main_program c w = Inr \<lparr>system = new_bot (load_config c) (snd (seed_defaults w)),
    handle_ready = (if ao_login c \<noteq> [] \<and> ao_password c \<noteq> [] \<and> ao_character c \<noteq> [] then Some False else None)\<rparr>"
proof -
  obtain w' where "seed_defaults w = (Inr (), w')" using seed_runs by blast
  then show ?thesis
    by (simp add: main_program_def Let_def load_config_def compose_database_url_from_parts_def)
qed

text \<open>Seeding writes settings and nothing else.\<close>

lemma seed_tables: "\<exists>s. snd (seed_defaults w) = w\<lparr>settings := s\<rparr>"
proof -
  have "\<exists>s. snd (for_each ds seed_one w) = w\<lparr>settings := s\<rparr>" if "\<forall>(k, v, vt) \<in> set ds. has_type v vt" for ds w
    using that
  proof (induction ds arbitrary: w)
    case Nil
    show ?case by (rule exI [of _ "settings w"]) simp
  next
    case (Cons d ds)
    obtain k v vt where d: "d = (k, v, vt)" by (cases d) auto
    with Cons.prems obtain s where "seed_one d w = (Inr (), w\<lparr>settings := s\<rparr>)"
      using seed_one_run [of v vt k w] by auto
    moreover obtain s' where "snd (for_each ds seed_one (w\<lparr>settings := s\<rparr>)) = w\<lparr>settings := s'\<rparr>"
      using Cons.IH [of "w\<lparr>settings := s\<rparr>"] Cons.prems by auto
    ultimately show ?case by (auto simp: bnd_apply(1))
  qed
  from this [OF defaults_typed(1)] show ?thesis by (simp add: seed_defaults_alt)
qed

end
