(* ===== verification/Reachable.thy ===== *)
theory Reachable
  imports Startup
begin

text \<open>
  The whole program as a state machine: requests, packets, the cycles of the background loops and the
  passing of time, in any order. Each of them runs as a whole (the coroutines of a thread are not
  interleaved here); what the world outside answers may be different every time.
\<close>

section \<open>Invariants of the database, lifted\<close>

lemma keeping_with_service:
  "(\<And>env. keeping I (m env)) \<Longrightarrow> keeping (\<lambda>b. I (db b)) (with_service s m)"
  by (simp add: keeping_def with_service_db)

lemma keeping_send: "keeping (\<lambda>b :: bot. I (db b)) (conn_send t args)"
proof (rule keepingI)
  fix b :: bot assume "I (db b)"
  then show "I (db (snd (conn_send t args b)))" using send_state [of t args b] by auto
qed

lemma keeping_on_bot: "keeping P m \<Longrightarrow> keeping (\<lambda>a. P (system a)) (on_bot m)"
  by (simp add: keeping_def on_bot_def split: prod.split) auto

lemma keeping_service_request:
  assumes "\<And>env. keeping I (m env)"
  shows "keeping (\<lambda>a. I (db (system a))) (get_service s m)"
proof -
  have "keeping (\<lambda>b :: bot. I (db b)) (\<lambda>b. on_db (m (f b)) b)" for f
  proof (rule keepingI)
    fix b :: bot assume "I (db b)"
    then show "I (db (snd (on_db (m (f b)) b)))"
      using keepingD [OF assms, of "db b" "f b"] by (simp add: on_db_def split: prod.split) auto
  qed
  then show ?thesis
    unfolding get_service_def by (intro keeps keeping_on_bot keeping_with_service assms)
qed

text \<open>An invariant that survives whatever the settings are set to, and time.\<close>

locale system_invariant = settings_invariant +
  assumes time_passes: "keeping I (modify (\<lambda>w. w\<lparr>clock := t\<rparr>))"
begin

lemma confirming: "keeping I m \<Longrightarrow> keeping I (confirm_first c m)"
  by (auto intro!: keeps simp: confirm_first_def http_error_def)

lemma writing_routes:
  "keeping I (register_route p env)"
  "keeping I (unregister_route p c env)"
  "keeping I (subscribe_route p aoid env)"
  "keeping I (unsubscribe_route p aoid env)"
  "keeping I (bulk_route p aoids env)"
  "keeping I (unsubscribe_all_route p c env)"
  "keeping I (update_filter_route p aoid price ql env)"
  "keeping I (clear_filter_route p aoid env)"
  "keeping I (start_watching_route aoid env)"
  "keeping I (stop_tracking_route aoid env)"
  "keeping I (untrack_all_route c env)"
  "keeping I (update_setting_route key v env)"
  by (auto intro!: keeps confirming simp: register_route_def unregister_route_def subscribe_route_def
      unsubscribe_route_def bulk_route_def unsubscribe_all_route_def update_filter_route_def clear_filter_route_def
      start_watching_route_def stop_tracking_route_def untrack_all_route_def update_setting_route_def
      unknown_to_404_def http_error_def split: exn.splits)

lemma reading: "unchanging m \<Longrightarrow> keeping I m"
  by (simp add: unchanging_def keeping_def)

lemma bot_work:
  "keeping (\<lambda>b. I (db b)) (force_poll_now s)"
  "keeping (\<lambda>b. I (db b)) (force_autotrack_now s)"
  "keeping (\<lambda>b. I (db b)) (send_tell_by_name s p msg)"
  "keeping (\<lambda>b. I (db b)) (handle_tell s n msg)"
  by (auto intro!: keeps keeping_with_service keeping_send keeping_modify
      simp: force_poll_now_def force_autotrack_now_def send_tell_by_name_def tell_found_def client_send_tell_def
        handle_tell_def now_def answer_tell_def)

lemma request_kept: "keeping (\<lambda>a. I (db (system a))) (run_route s req)"
proof -
  have bot: "keeping (\<lambda>a. I (db (system a))) (bnd require_bot_ready (\<lambda>_. bnd (call_on_bot m) (\<lambda>_. ret r)))"
    if "keeping (\<lambda>b. I (db b)) m" for m :: "(bot, unit) eff" and r :: http_response
    using that by (auto intro!: keeps keeping_on_bot simp: require_bot_ready_def call_on_bot_def)
  show ?thesis
    by (cases req)
      (auto intro!: keeping_service_request writing_routes reading reading_routes bot bot_work keeps
        simp: trigger_poll_route_def trigger_autotrack_route_def tell_route_def bot_status_route_def
          healthz_route_def readyz_route_def)
qed

lemma dependencies_kept: "keeping (\<lambda>a. I (db (system a))) (check_dependencies s req x_api_key)"
proof -
  have auth: "keeping (\<lambda>b. I (db b)) (on_db (authenticate auth key))" for auth key
  proof (rule keepingI)
    fix b :: bot assume "I (db b)"
    then show "I (db (snd (on_db (authenticate auth key) b)))"
      using keepingD [OF authenticating, of "db b" auth key] by (simp add: on_db_def split: prod.split) auto
  qed
  have "keeping (\<lambda>a. I (db (system a))) (check_key s x_api_key)"
    unfolding check_key_def by (intro keeps keeping_on_bot auth)
  then show ?thesis
    by (cases "key_for req")
      (auto intro!: keeps simp: check_dependencies_def require_admin_key_def require_player_key_def)
qed

lemma serve_request_kept:
  assumes "I (db (system a))"
  shows "I (db (system (snd (serve_request s req x_api_key a))))"
proof -
  have "keeping (\<lambda>a. I (db (system a))) (bnd (check_dependencies s req x_api_key) (\<lambda>_. run_route s req))"
    by (intro keeps dependencies_kept request_kept)
  from keepingD [OF this assms] show ?thesis
    by (simp add: serve_request_def split: prod.split sum.split) auto
qed

lemma packet_kept: "keeping (\<lambda>b. I (db b)) (dispatch_packet (bot_handlers s) pkt)"
proof -
  have "keeping (\<lambda>b. I (db b)) (call (bot_handlers s) e)" for e
    by (cases e) (auto intro!: keeps bot_work simp: bot_handlers_def)
  moreover have "db (noted e b) = db b" for e and b :: bot
    by (cases e) (simp_all add: name_learned_def lookup_answered_def resolve_future_def Let_def split: option.split)
  ultimately show ?thesis
    unfolding dispatch_event run_event_def by (intro keeping_bnd keeping_modify) simp_all
qed

lemma catch_rest: "keeping P m \<Longrightarrow> keeping P (catch m (\<lambda>_. Some (ret x)))"
  by (rule keeping_catch) (auto intro: keeps)

lemma cycles_kept:
  "keeping (\<lambda>b. I (db b)) (poll_cycle s)"
  "keeping (\<lambda>b. I (db b)) (autotrack_startup s)"
  "keeping (\<lambda>b. I (db b)) (autotrack_cycle s)"
  unfolding poll_cycle_def autotrack_startup_def autotrack_cycle_def
  by (auto intro!: catch_rest keeps keeping_with_service keeping_modify
      simp: now_def catch_up_def resync_when_enabled_def synced_now_def)

end

interpretation consistent: system_invariant db_ok
  by unfold_locales (rule keeping_modify, simp add: db_defs)

interpretation filters: system_invariant filters_ok
  by unfold_locales (rule keeping_modify, simp add: filters_ok_def)

interpretation single_key: system_invariant one_active
  by unfold_locales (rule keeping_modify, simp add: one_active_def)

text \<open>Every default setting keeps being there, under its type.\<close>

lemma catalogue_tables: "settings u = settings w \<Longrightarrow> catalogue_ok w \<Longrightarrow> catalogue_ok u"
  by (simp add: catalogue_ok_def setting_type_def)

interpretation catalogue: system_invariant catalogue_ok
proof unfold_locales
  fix ts key v
  show "keeping catalogue_ok (setting_set key v)" "keeping catalogue_ok (setting_set ''AutoTrackLastSync'' (SInt ts))"
    by (simp_all add: keeping_def catalogue_ok_def setting_type_set)
qed (rule keepingI, rule catalogue_tables [rotated], assumption,
    simp add: leaf_defs bnd_def record_failure_settings generate_key_settings)+

section \<open>Sessions\<close>

lemma waiters_session: "session b' = session b \<Longrightarrow> waiters_ok b \<Longrightarrow> waiters_ok b'"
  by (simp add: waiters_ok_def session_def)

lemma keeping_waiters: "(\<And>x. keeping (\<lambda>b. session b = x) m) \<Longrightarrow> keeping waiters_ok m"
  unfolding keeping_def by (metis waiters_session)

lemma dispatch_waiters:
  assumes "waiters_ok (b :: bot)"
  shows "waiters_ok (snd (dispatch_packet (bot_handlers s) pkt b))"
proof -
  obtain r b' where run: "run_event (bot_handlers s) (event_of pkt) b = (r, b')" by fastforce
  from bot_session.event_session [OF run] noted_waiters [of "event_of pkt" b] assms
  show ?thesis by (simp add: dispatch_event run waiters_ok_def session_def)
qed

lemma cycle_waiters:
  "keeping waiters_ok (poll_cycle s)"
  "keeping waiters_ok (autotrack_startup s)"
  "keeping waiters_ok (autotrack_cycle s)"
proof -
  have served: "keeping waiters_ok (with_service s m)" for m :: "env \<Rightarrow> (world, 'b) eff"
    by (rule keeping_waiters, rule with_service_session)
  have rest: "keeping P m \<Longrightarrow> keeping P (catch m (\<lambda>_. Some (ret x)))" for P and m :: "(bot, 'c) eff" and x
    by (rule keeping_catch) (auto intro: keeps)
  show "keeping waiters_ok (poll_cycle s)" "keeping waiters_ok (autotrack_startup s)"
    "keeping waiters_ok (autotrack_cycle s)"
    unfolding poll_cycle_def autotrack_startup_def autotrack_cycle_def
    by (auto intro!: rest keeps served keeping_modify simp: now_def synced_now_def waiters_ok_def)
qed

lemma waiters_outbound [simp]: "waiters_ok (c\<lparr>outbound := out\<rparr>) = waiters_ok c"
  by (simp add: waiters_ok_def)

lemma waiters_sent: "conn_send t args c = (q, c2) \<Longrightarrow> waiters_ok c \<Longrightarrow> waiters_ok c2"
  using send_state [of t args c] by (metis snd_conv waiters_outbound)

lemma lookup_begin_ok: "waiters_ok c \<Longrightarrow> waiters_ok (snd (lookup_begin name c))"
proof (cases "map_of (name_to_id c) (lower name)")
  case None
  assume ok: "waiters_ok c"
  let ?c1 = "c\<lparr>futures := futures c @ [None],
      waiters := dict_put (lower name) (length (futures c)) (waiters c)\<rparr>"
  have "length (futures c) \<notin> snd ` set (waiters c)" using ok by (auto simp: waiters_ok_def)
  with ok snd_dict_put [of "lower name" "length (futures c)" "waiters c"] have c1: "waiters_ok ?c1"
    by (fastforce simp: waiters_ok_def distinct_dict_put distinct_snd_dict_put)
  obtain q c2 where sent: "conn_send AOCP_CLIENT_LOOKUP [OStr name] ?c1 = (q, c2)" by fastforce
  from waiters_sent [OF sent c1] have "waiters_ok c2" .
  with None sent pop_waiter_ok show ?thesis by (cases q) (simp_all add: lookup_begin_run Let_def)
qed (simp add: lookup_begin_run)

lemma lookup_end_ok: "waiters_ok c \<Longrightarrow> waiters_ok (snd (lookup_end name i c))"
  by (simp add: lookup_end_def pop_waiter_ok)

lemma service_session:
  assumes "\<And>env. \<exists>r w'. m env (db (system a)) = (r, w')"
  shows "session (system (snd (get_service s m a))) = session (system a)"
  using keepingD [OF with_service_session [of "session (system a)" s m], of "system a"]
  by (simp add: get_service_def on_bot_def on_db_def session_def split: prod.split) auto

lemma keeping_service_session: "keeping (\<lambda>a. session (system a) = x) (get_service s m)"
  using service_session [of m] by (simp add: keeping_def)

lemma request_session: "session (system (snd (serve_request s req x_api_key a))) = session (system a)"
proof -
  have bot: "keeping (\<lambda>b. session b = x) (force_poll_now s)" "keeping (\<lambda>b. session b = x) (force_autotrack_now s)"
    "keeping (\<lambda>b. session b = x) (send_tell_by_name s p msg)" for x p msg
    unfolding force_poll_now_def force_autotrack_now_def send_tell_by_name_def tell_found_def client_send_tell_def now_def
    by (intro keeps with_service_session send_session keeping_modify; simp add: session_def)+
  have auth: "keeping (\<lambda>b :: bot. session b = x) (on_db m)" for x and m :: "(world, 'b) eff"
    by (auto simp: keeping_def on_db_def session_def split: prod.split)
  have "keeping (\<lambda>a. session (system a) = x) (check_key s x_api_key)" for x
    unfolding check_key_def by (intro keeps keeping_on_bot auth)
  then have deps: "keeping (\<lambda>a. session (system a) = x) (check_dependencies s req x_api_key)" for x
    by (cases "key_for req"; simp only: check_dependencies_def require_admin_key_def require_player_key_def
        key_needed.case; intro keeps)
  have "keeping (\<lambda>a. session (system a) = x) (run_route s req)" for x
    by (cases req)
      (auto intro!: keeping_service_session keeps keeping_on_bot bot
        simp: trigger_poll_route_def trigger_autotrack_route_def tell_route_def bot_status_route_def
          healthz_route_def readyz_route_def require_bot_ready_def call_on_bot_def)
  then have "keeping (\<lambda>a. session (system a) = session (system a0))
      (bnd (check_dependencies s req x_api_key) (\<lambda>_. run_route s req))" for a0
    by (intro keeps deps)
  from keepingD [OF this, of a a] show ?thesis
    by (simp add: serve_request_def split: prod.split sum.split) auto
qed

section \<open>The life of the connection\<close>

text \<open>What logging in, the keepalive and stopping leave alone.\<close>

definition apart :: "bot \<Rightarrow> world \<times> (string \<times> nat) list \<times> nat option option list" where
  "apart b = (db b, waiters b, futures b)"

lemma apart_steps:
  "keeping (\<lambda>b. apart b = x) conn_read"
  "keeping (\<lambda>b. apart b = x) (conn_send t args)"
  "keeping (\<lambda>b. apart b = x) (expect_type name t' pkt)"
  "keeping (\<lambda>b. apart b = x) (one_bytes pkt)"
proof -
  show "keeping (\<lambda>b. apart b = x) (conn_send t args)"
  proof (rule keepingI)
    fix b assume "apart b = x"
    then show "apart (snd (conn_send t args b)) = x" using send_state [of t args b] by (auto simp: apart_def)
  qed
qed (auto simp: keeping_def apart_def conn_read_def expect_type_def one_bytes_def
    split: prod.split list.split in_arg.split)

lemma login_apart: "keeping (\<lambda>b. apart b = x) (login dh_x prefix)"
  unfolding login_def
  by (intro keeping_bnd keeping_modify keeping_if keeping_pure keeping_option apart_steps)
    (simp_all add: apart_def)

lemma connection_apart:
  "keeping (\<lambda>b. apart b = x) keepalive_round"
  "keeping (\<lambda>b. apart b = x) stop"
  "keeping (\<lambda>b. apart b = x) (start dh_x prefix)"
proof -
  show "keeping (\<lambda>b. apart b = x) keepalive_round"
    unfolding keepalive_round_def ping_def
    by (intro keeping_catch keeping_bnd keeping_pure apart_steps) (auto intro: keeping_pure split: if_splits)
  show "keeping (\<lambda>b. apart b = x) stop" "keeping (\<lambda>b. apart b = x) (start dh_x prefix)"
    unfolding stop_def client_stop_def conn_close_def start_def
    by (intro keeping_bnd keeping_modify login_apart; simp add: apart_def)+
qed

section \<open>Runs\<close>

inductive step :: "app \<Rightarrow> app \<Rightarrow> bool" where
  request: "step a (snd (serve_request s req x_api_key a))"
| connecting: "handle_ready a = Some False \<Longrightarrow> step a (bot_thread dh_x prefix a)"
| packet: "handle_ready a = Some True
    \<Longrightarrow> step a (a\<lparr>system := snd (dispatch_packet (bot_handlers s) pkt (system a))\<rparr>)"
| polling: "handle_ready a = Some True \<Longrightarrow> step a (a\<lparr>system := snd (poll_cycle s (system a))\<rparr>)"
| catching_up: "handle_ready a = Some True \<Longrightarrow> step a (a\<lparr>system := snd (autotrack_startup s (system a))\<rparr>)"
| tracking: "handle_ready a = Some True \<Longrightarrow> step a (a\<lparr>system := snd (autotrack_cycle s (system a))\<rparr>)"
| looking_up: "handle_ready a = Some True \<Longrightarrow> step a (a\<lparr>system := snd (lookup_begin name (system a))\<rparr>)"
| giving_up: "handle_ready a = Some True \<Longrightarrow> step a (a\<lparr>system := snd (lookup_end name i (system a))\<rparr>)"
| keepalive: "handle_ready a = Some True \<Longrightarrow> step a (a\<lparr>system := snd (keepalive_round (system a))\<rparr>)"
| stopping: "handle_ready a = Some True \<Longrightarrow> step a (a\<lparr>system := snd (stop (system a))\<rparr>)"
| arriving: "step a (a\<lparr>system := (system a)\<lparr>inbound := bs, link_up := up\<rparr>\<rparr>)"
| passing: "step a (a\<lparr>system := (system a)\<lparr>db := (db (system a))\<lparr>clock := t\<rparr>\<rparr>\<rparr>)"
| restarting: "main_program c (db (system a)) = Inr a' \<Longrightarrow> step a a'"

text \<open>From the first start, on the tables the migrations made.\<close>

inductive reachable :: "app \<Rightarrow> bool" where
  first: "main_program c (empty_world\<lparr>clock := t\<rparr>) = Inr a \<Longrightarrow> reachable a"
| later: "reachable a \<Longrightarrow> step a a' \<Longrightarrow> reachable a'"

definition world_ok :: "world \<Rightarrow> bool" where
  "world_ok w \<longleftrightarrow> db_ok w \<and> filters_ok w \<and> one_active w \<and> catalogue_ok w"

lemma keeping_conj: "keeping P m \<Longrightarrow> keeping Q m \<Longrightarrow> keeping (\<lambda>x. P x \<and> Q x) m"
  by (simp add: keeping_def)

lemma world_request: "world_ok (db (system a)) \<Longrightarrow> world_ok (db (system (snd (serve_request s req key a))))"
  by (simp add: world_ok_def consistent.serve_request_kept filters.serve_request_kept single_key.serve_request_kept
      catalogue.serve_request_kept)

lemma world_bot:
  "keeping (\<lambda>b. world_ok (db b)) (dispatch_packet (bot_handlers s) pkt)"
  "keeping (\<lambda>b. world_ok (db b)) (poll_cycle s)"
  "keeping (\<lambda>b. world_ok (db b)) (autotrack_startup s)"
  "keeping (\<lambda>b. world_ok (db b)) (autotrack_cycle s)"
  unfolding world_ok_def
  by (intro keeping_conj consistent.packet_kept filters.packet_kept single_key.packet_kept catalogue.packet_kept
      consistent.cycles_kept filters.cycles_kept single_key.cycles_kept catalogue.cycles_kept)+

lemma world_passing: "world_ok w \<Longrightarrow> world_ok (w\<lparr>clock := t\<rparr>)"
  unfolding world_ok_def
  using keepingD [OF consistent.time_passes, of w t] keepingD [OF filters.time_passes, of w t]
    keepingD [OF single_key.time_passes, of w t] catalogue_tables [of "w\<lparr>clock := t\<rparr>" w]
  by simp

lemma world_seeded: "db_ok w \<Longrightarrow> filters_ok w \<Longrightarrow> one_active w \<Longrightarrow> default_types w \<Longrightarrow> world_ok (snd (seed_defaults w))"
proof -
  assume "db_ok w" "filters_ok w" "one_active w" "default_types w"
  moreover obtain s where "snd (seed_defaults w) = w\<lparr>settings := s\<rparr>" using seed_tables by blast
  ultimately show ?thesis
    using keepingD [OF seed_defaults_ok, of w] seed_catalogue [of w]
    by (simp add: world_ok_def filters_ok_def one_active_def)
qed

definition system_ok :: "app \<Rightarrow> bool" where
  "system_ok a \<longleftrightarrow> world_ok (db (system a)) \<and> waiters_ok (system a)"

lemma system_okI:
  assumes "keeping (\<lambda>b. world_ok (db b)) m" and "keeping waiters_ok m" and "system_ok a"
  shows "system_ok (a\<lparr>system := snd (m (system a))\<rparr>)"
  using assms by (simp add: system_ok_def keeping_def)

lemma apart_ok:
  assumes "\<And>x. keeping (\<lambda>b. apart b = x) m"
  shows "keeping (\<lambda>b. world_ok (db b)) m" "keeping waiters_ok m"
proof -
  have "apart (snd (m b)) = apart b" for b using keepingD [OF assms refl] .
  then show "keeping (\<lambda>b. world_ok (db b)) m" "keeping waiters_ok m"
    by (auto simp: keeping_def apart_def waiters_ok_def)
qed

lemma lookup_world:
  "keeping (\<lambda>b :: bot. world_ok (db b)) (lookup_begin name)"
  "keeping (\<lambda>b :: bot. world_ok (db b)) (lookup_end name i)"
proof -
  have send: "keeping (\<lambda>b :: bot. world_ok (db b)) (conn_send AOCP_CLIENT_LOOKUP [OStr name])" by (rule keeping_send)
  have pop: "keeping (\<lambda>b :: bot. world_ok (db b)) (modify (pop_waiter key))" for key
    by (rule keeping_modify) (simp add: pop_waiter_def)
  show "keeping (\<lambda>b :: bot. world_ok (db b)) (lookup_begin name)"
    unfolding lookup_begin_def
    by (intro keeping_option keeping_bnd keeping_pure keeping_modify keeping_catch send)
      (auto intro!: keeping_bnd keeping_pure pop)
  show "keeping (\<lambda>b :: bot. world_ok (db b)) (lookup_end name i)"
    unfolding lookup_end_def by (intro keeping_bnd keeping_pure pop)
qed

lemma started_ok: "world_ok (snd (seed_defaults w)) \<Longrightarrow> main_program c w = Inr a \<Longrightarrow> system_ok a"
  by (auto simp: main_run system_ok_def new_bot_def waiters_ok_def)

lemma thread_ok: "system_ok a \<Longrightarrow> system_ok (bot_thread dh_x prefix a)"
proof -
  assume ok: "system_ok a"
  obtain ready b where run: "bot_thread_main dh_x prefix (system a) = (ready, b)" by fastforce
  then have "b = snd (start dh_x prefix (system a))" by (auto simp: bot_thread_main_def split: prod.splits sum.splits)
  with ok apart_ok [OF connection_apart(3)] show ?thesis
    by (simp add: bot_thread_def run system_ok_def keeping_def)
qed

lemma request_ok: "system_ok a \<Longrightarrow> system_ok (snd (serve_request s req key a))"
  using waiters_session [OF request_session] by (simp add: system_ok_def world_request)

lemma step_ok: "step a a' \<Longrightarrow> system_ok a \<Longrightarrow> system_ok a'"
proof (induction rule: step.induct)
  case (packet a s pkt)
  show ?case by (rule system_okI [OF world_bot(1) _ packet(2)]) (rule keepingI, rule dispatch_waiters)
next
  case (looking_up a name)
  show ?case by (rule system_okI [OF lookup_world(1) _ looking_up(2)]) (rule keepingI, rule lookup_begin_ok)
next
  case (giving_up a name i)
  show ?case by (rule system_okI [OF lookup_world(2) _ giving_up(2)]) (rule keepingI, rule lookup_end_ok)
next
  case (arriving a bs up)
  then show ?case by (simp add: system_ok_def waiters_ok_def)
next
  case (passing a t)
  then show ?case by (simp add: system_ok_def waiters_ok_def world_passing)
next
  case (restarting c a a')
  then have w: "world_ok (db (system a))" by (simp add: system_ok_def)
  then have "world_ok (snd (seed_defaults (db (system a))))"
    by (intro world_seeded catalogue_default_types) (simp_all add: world_ok_def)
  with restarting(1) show ?case by (rule started_ok [rotated])
qed (auto intro: request_ok thread_ok system_okI world_bot cycle_waiters apart_ok connection_apart)

section \<open>Property\<close>

text \<open>C35. Whatever happens, in whatever order (requests with whatever keys and parameters, packets from the
  server, the cycles of the loops, lookups begun and given up, a lost connection, clocks set back,
  restarts, with whatever the services outside answer), the state stays consistent: keys are unique,
  references lead to rows, numbers fit their columns; the bounds of every filter are in order; no
  player has two API keys in force; every default setting is there under its type; and no two tasks
  wait for the same answer of the chat server.\<close>

theorem reachable_consistent:
  assumes "reachable a"
  shows "db_ok (db (system a)) \<and> filters_ok (db (system a)) \<and> one_active (db (system a))
    \<and> catalogue_ok (db (system a)) \<and> waiters_ok (system a)"
proof -
  from assms have "system_ok a"
  proof (induction rule: reachable.induct)
    case (first c t a)
    have "db_ok (empty_world\<lparr>clock := t\<rparr>)" by (simp add: db_defs empty_world_def unique_def refs_def below_def)
    moreover have "filters_ok (empty_world\<lparr>clock := t\<rparr>)" "one_active (empty_world\<lparr>clock := t\<rparr>)"
      by (simp_all add: filters_ok_def one_active_def empty_world_def unique_def)
    moreover have "default_types (empty_world\<lparr>clock := t\<rparr>)"
      by (simp add: default_types_def setting_type_def empty_world_def row_with_def list_all_iff split: prod.split)
    ultimately show ?case using first by (intro started_ok) (rule world_seeded)
  qed (rule step_ok)
  then show ?thesis by (simp add: system_ok_def world_ok_def)
qed

definition first_start :: app where
  "first_start = \<lparr>system = new_bot default_config (snd (seed_defaults empty_world)), handle_ready = None\<rparr>"

theorem reachable_consistent_witness:
  "db_ok (db (system (snd (serve_request sample_surroundings (Post_Register ''Ann'') None first_start))))"
proof -
  have "load_config default_config = default_config"
    by (simp add: load_config_def compose_database_url_from_parts_def default_config_def)
  then have "main_program default_config (empty_world\<lparr>clock := 0\<rparr>) = Inr first_start"
    by (simp add: main_run first_start_def default_config_def empty_world_def)
  then have "reachable (snd (serve_request sample_surroundings (Post_Register ''Ann'') None first_start))"
    by (rule reachable.later [OF reachable.first]) (rule step.request)
  from reachable_consistent [OF this] show ?thesis by blast
qed

end
