(* ===== verification/Watchlists.thy ===== *)
theory Watchlists
  imports Api_Errors Reachable
begin

text \<open>
  What the API promises about watchlists, as a map: each registered player has a map from the items
  watched to the bounds of the filter. \<open>watchlists\<close> reads it off the database; \<open>apply_request\<close> is what a
  request that succeeds does to it.
\<close>

section \<open>The abstract state\<close>

type_synonym bounds = "(int option \<times> int option) \<times> (int option \<times> int option)"
type_synonym lists = "string \<rightharpoonup> (int \<rightharpoonup> bounds)"

definition bounds_of :: "sub_row \<Rightarrow> bounds" where
  "bounds_of s = ((sub_min_price s, sub_max_price s), (sub_min_ql s, sub_max_ql s))"

definition no_bounds :: bounds where "no_bounds = ((None, None), (None, None))"

definition watchlists :: "world \<Rightarrow> lists" where
  "watchlists w = (\<lambda>p. if row_with usr_player p (users w) = None then None
     else Some (\<lambda>aoid. map_option bounds_of (row_with sub_key (p, aoid) (subs w))))"

definition at_player :: "string \<Rightarrow> ((int \<rightharpoonup> bounds) \<Rightarrow> (int \<rightharpoonup> bounds)) \<Rightarrow> lists \<Rightarrow> lists" where
  "at_player p f m = m(p := map_option f (m p))"

definition at_item :: "int \<Rightarrow> (bounds \<Rightarrow> bounds) \<Rightarrow> (int \<rightharpoonup> bounds) \<Rightarrow> (int \<rightharpoonup> bounds)" where
  "at_item aoid f l = l(aoid := map_option f (l aoid))"

definition set_bounds :: "string option \<Rightarrow> string option \<Rightarrow> bounds \<Rightarrow> bounds" where
  "set_bounds prices levels = map_prod
     (case prices of None \<Rightarrow> id | Some spec \<Rightarrow> (\<lambda>old. case parse_range spec parse_credits of Inr (Some b) \<Rightarrow> b | _ \<Rightarrow> old))
     (case levels of None \<Rightarrow> id | Some spec \<Rightarrow> (\<lambda>old. case parse_range spec parse_ql of Inr (Some b) \<Rightarrow> b | _ \<Rightarrow> old))"

fun apply_request :: "request \<Rightarrow> lists \<Rightarrow> lists" where
  "apply_request (Post_Register p) m = m(p \<mapsto> Map.empty)"
| "apply_request (Post_Unregister p _) m = m(p := None)"
| "apply_request (Post_Subscribe p aoid) m = at_player p (\<lambda>l. l(aoid \<mapsto> no_bounds)) m"
| "apply_request (Delete_Subscribe p aoid) m = at_player p (\<lambda>l. l(aoid := None)) m"
| "apply_request (Post_Bulk_Delete p aoids) m = at_player p (\<lambda>l. l |` (- set aoids)) m"
| "apply_request (Delete_Watchlist p _) m = at_player p (\<lambda>_. Map.empty) m"
| "apply_request (Put_Filter p aoid prices levels) m = at_player p (at_item aoid (set_bounds prices levels)) m"
| "apply_request (Delete_Filter p aoid) m = at_player p (at_item aoid (\<lambda>_. no_bounds)) m"
| "apply_request (Delete_Watch aoid) m = (\<lambda>p. map_option (\<lambda>l. l(aoid := None)) (m p))"
| "apply_request (Post_Untrack_All _) m = (\<lambda>p. map_option (\<lambda>_. Map.empty) (m p))"
| "apply_request _ m = m"

section \<open>The abstraction under statements\<close>

lemma watchlists_same: "users u = users w \<Longrightarrow> subs u = subs w \<Longrightarrow> watchlists u = watchlists w"
  by (simp add: watchlists_def cong: if_cong)

lemma same_db_watchlists: "same_db w u \<Longrightarrow> watchlists u = watchlists w"
  by (rule watchlists_same) (simp_all add: same_dbD)

lemma watchlists_delete:
  assumes "users u = users w" and "subs u = delete_where (\<lambda>s. P (sub_key s)) (subs w)"
  shows "watchlists u = (\<lambda>p. map_option (\<lambda>l aoid. if P (p, aoid) then None else l aoid) (watchlists w p))"
proof -
  have "row_with sub_key k (subs u) = (if P k then None else row_with sub_key k (subs w))" for k
    using row_with_delete [of P k sub_key "subs w"] row_with_delete_other [of P k sub_key "subs w"] assms(2) by simp
  with assms(1) show ?thesis by (auto simp: watchlists_def fun_eq_iff)
qed

lemma watchlists_update:
  assumes "\<And>s. sub_key (f s) = sub_key s" and "\<And>s. bounds_of (f s) = g (bounds_of s)"
  shows "watchlists (w\<lparr>subs := update_where (is_sub p aoid) f (subs w)\<rparr>) = at_player p (at_item aoid g) (watchlists w)"
proof -
  have "row_with sub_key (q, a) (update_where (is_sub p aoid) f (subs w)) =
      map_option (\<lambda>s. if q = p \<and> a = aoid then f s else s) (row_with sub_key (q, a) (subs w))" for q a
    using assms(1) by (rule row_update_subs)
  then show ?thesis
    using assms(2) by (auto simp: watchlists_def at_player_def at_item_def fun_eq_iff option.map_comp comp_def)
qed

section \<open>Outcomes\<close>

definition proper :: "exn \<Rightarrow> bool" where
  "proper e \<longleftrightarrow> (case e of Http_Exception code _ \<Rightarrow> code \<in> {400, 401, 403, 404, 502, 503} | _ \<Rightarrow> True)"

lemma foreign_proper: "foreign e \<Longrightarrow> proper e"
  by (cases e) (simp_all add: proper_def)

definition in_market :: "exn \<Rightarrow> bool" where
  "in_market e \<longleftrightarrow> foreign e \<or> (\<exists>m. e = Market_Error m)"

lemma in_market_proper: "in_market e \<Longrightarrow> proper e"
  by (auto simp: in_market_def proper_def foreign_def split: exn.splits)

definition out_bounds :: "subscription_out \<Rightarrow> bounds" where
  "out_bounds out = ((suo_min_price out, suo_max_price out), (suo_min_ql out, suo_max_ql out))"

lemma out_bounds_reply: "out_bounds (subscription_reply s) = bounds_of s" "suo_aoid (subscription_reply s) = sub_aoid s"
  by (simp_all add: out_bounds_def subscription_reply_def bounds_of_def)

text \<open>What a reply says about the lists.\<close>

fun answers :: "request \<Rightarrow> payload \<Rightarrow> lists \<Rightarrow> bool" where
  "answers (Get_Player p) body m \<longleftrightarrow> (\<exists>out. body = Register_Out out \<and> reo_registered out = (m p \<noteq> None))"
| "answers (Get_Watchlist p) body m \<longleftrightarrow> (\<exists>outs. body = Subscriptions_Out outs
     \<and> map_of (map (\<lambda>out. (suo_aoid out, out_bounds out)) outs) = (case m p of None \<Rightarrow> Map.empty | Some l \<Rightarrow> l))"
| "answers (Get_Filter p aoid) body m \<longleftrightarrow> (\<exists>out l. body = Subscription_Out out
     \<and> m p = Some l \<and> l aoid = Some (out_bounds out))"
| "answers (Put_Filter p aoid _ _) body m \<longleftrightarrow> (\<exists>out l. body = Subscription_Out out
     \<and> m p = Some l \<and> l aoid = Some (out_bounds out))"
| "answers (Delete_Filter p aoid) body m \<longleftrightarrow> (\<exists>out l. body = Subscription_Out out
     \<and> m p = Some l \<and> l aoid = Some (out_bounds out))"
| "answers _ _ _ \<longleftrightarrow> True"

text \<open>An update of both bounds that stops after the first.\<close>

fun half_done :: "request \<Rightarrow> lists \<Rightarrow> lists \<Rightarrow> bool" where
  "half_done (Put_Filter p aoid (Some prices) (Some levels)) m m' \<longleftrightarrow>
     m' = apply_request (Put_Filter p aoid (Some prices) None) m"
| "half_done _ _ _ \<longleftrightarrow> False"

definition good :: "request \<Rightarrow> world \<Rightarrow> (exn + http_response) \<times> world \<Rightarrow> bool" where
  "good req w out \<longleftrightarrow> (case out of
     (Inr r, w') \<Rightarrow> http_status r \<in> {200, 204} \<and> watchlists w' = apply_request req (watchlists w)
       \<and> answers req (http_payload r) (watchlists w')
   | (Inl e, w') \<Rightarrow> proper e \<and> (foreign e \<or> watchlists w' = watchlists w \<or> half_done req (watchlists w) (watchlists w')))"

lemma good_Inl: "foreign e \<Longrightarrow> good req w (Inl e, w')"
  "proper e \<Longrightarrow> watchlists w' = watchlists w \<Longrightarrow> good req w (Inl e, w')"
  by (simp_all add: good_def foreign_proper)

lemma good_market: "watchlists w' = watchlists w \<Longrightarrow> good req w (Inl (Market_Error m), w')"
  by (simp add: good_def proper_def)

text \<open>Operations that do not touch the lists, and raise what a client may.\<close>

definition quiet :: "(world, 'a) eff \<Rightarrow> bool" where
  "quiet m \<longleftrightarrow> (\<forall>x. keeping (\<lambda>w. watchlists w = x) m) \<and> raises_only foreign m"

lemma quietD: "quiet m \<Longrightarrow> m w = (r, w') \<Longrightarrow> watchlists w' = watchlists w \<and> (\<forall>e. r = Inl e \<longrightarrow> foreign e)"
  using keepingD [of "\<lambda>u. watchlists u = watchlists w" m w] by (auto simp: quiet_def dest: raises_onlyD)

lemma good_last:
  assumes "quiet m" and "http_status r \<in> {200, 204}"
    and "watchlists u = apply_request req (watchlists w)" and "answers req (http_payload r) (watchlists u)"
  shows "good req w (bnd m (\<lambda>_. ret r) u)"
proof -
  obtain q v where run: "m u = (q, v)" by fastforce
  from quietD [OF assms(1) run] assms(2-4) run show ?thesis
    by (cases q) (simp_all add: good_def bnd_def foreign_proper)
qed

lemma quiet_log: "outside_env env \<Longrightarrow> quiet (log_action env p a x)"
proof -
  assume out: "outside_env env"
  have "watchlists (snd (log_action env p a x w)) = watchlists w" for w
    using log_action_any [of env p a x w "fst (log_action env p a x w)" "snd (log_action env p a x w)"]
      same_db_watchlists watchlists_same [of "logged p a x w" w] by (auto simp: logged_def)
  with foreign_chat(4) [OF out] show ?thesis by (simp add: quiet_def keeping_def)
qed

lemma quiet_announce: "outside_env env \<Longrightarrow> quiet (announce env p a x)"
proof -
  assume out: "outside_env env"
  have "watchlists (snd (announce env p a x w)) = watchlists w" for w
    by (metis announce_same(1) prod.collapse same_db_watchlists)
  with foreign_chat(1) [OF out] show ?thesis by (simp add: quiet_def keeping_def)
qed

section \<open>Registration\<close>

lemma unknown_player_lists: "db_ok w \<Longrightarrow> row_with usr_player p (users w) = None \<Longrightarrow> row_with sub_key (p, aoid) (subs w) = None"
  by (auto simp: db_defs refs_def row_with_None sub_key_def)

lemma register_good:
  assumes "db_ok w" and "outside_env env"
  shows "good (Post_Register p) w (register_route p env w)"
proof (cases "row_with usr_player p (users w)")
  case None
  let ?u = "w\<lparr>users := users w @ [new_user p (clock w)]\<rparr>"
  have "watchlists ?u = apply_request (Post_Register p) (watchlists w)"
    using unknown_player_lists [OF assms(1) None] None
    by (auto simp: watchlists_def fun_eq_iff row_with_append new_user_def split: option.split)
  from good_last [OF quiet_log [OF assms(2)] _ this, of "ok (Register_Out \<lparr>reo_player = p, reo_registered = True\<rparr>)" p "''register''" None]
  moreover have "register_route p env w = bnd (log_action env p ''register'' None)
      (\<lambda>_. ret (ok (Register_Out \<lparr>reo_player = p, reo_registered = True\<rparr>))) ?u"
    using None by (simp add: register_route_def register_def is_registered_def repo_register_def bnd_assoc bnd_apply)
  ultimately show ?thesis by (simp add: ok_def)
next
  case (Some r)
  then show ?thesis by (simp add: register_route_def register_def is_registered_def bnd_def good_market)
qed

lemma watchlists_unregister:
  assumes "row_with usr_player p (users w) \<noteq> None"
  shows "\<exists>n u. unregister_cascade p w = (Inr n, u) \<and> watchlists u = (watchlists w)(p := None)"
proof -
  from assms obtain r where "r \<in> set (users w)" "usr_player r = p" by (auto dest: row_with_Some)
  then have gone: "usr_player ` set (filter (\<lambda>u. usr_player u = p) (users w)) = {p}" by auto
  let ?u = "snd (unregister_cascade p w)"
  have u: "users ?u = delete_where (\<lambda>u. usr_player u = p) (users w)"
    "subs ?u = delete_where (\<lambda>s. fst (sub_key s) = p) (subs w)"
    using gone by (simp_all add: unregister_cascade_def Let_def delete_users_def delete_where_twice sub_key_def)
  have "row_with usr_player q (users ?u) = (if q = p then None else row_with usr_player q (users w))" for q
    unfolding u using row_with_delete [of "\<lambda>k. k = p" q usr_player "users w"] row_with_delete_other [of "\<lambda>k. k = p" q usr_player "users w"]
    by simp
  moreover have "row_with sub_key (q, a) (subs ?u) = (if q = p then None else row_with sub_key (q, a) (subs w))" for q a
    unfolding u using row_with_delete [of "\<lambda>k. fst k = p" "(q, a)" sub_key "subs w"] row_with_delete_other [of "\<lambda>k. fst k = p" "(q, a)" sub_key "subs w"]
    by simp
  ultimately have "watchlists ?u = (watchlists w)(p := None)" by (auto simp: watchlists_def fun_eq_iff)
  then show ?thesis by (auto simp: unregister_cascade_def Let_def)
qed

lemma unregister_good:
  assumes "outside_env env"
  shows "good (Post_Unregister p confirm) w (unregister_route p confirm env w)"
proof (cases "confirm \<and> row_with usr_player p (users w) \<noteq> None")
  case True
  then obtain n u where u: "unregister_cascade p w = (Inr n, u)" "watchlists u = (watchlists w)(p := None)"
    using watchlists_unregister by blast
  have "unregister_route p confirm env w = bnd (announce env p ''unregister'' None)
      (\<lambda>_. ret (ok (Unregister_Out \<lparr>uno_player = p, uno_subscriptions_removed = n\<rparr>))) u"
    using True u(1) by (auto simp: unregister_route_def confirm_first_def unregister_def is_registered_def bnd_assoc bnd_apply)
      (simp add: ret_def)
  with good_last [OF quiet_announce [OF assms], of "ok (Unregister_Out \<lparr>uno_player = p, uno_subscriptions_removed = n\<rparr>)"
      u "Post_Unregister p confirm" w p "''unregister''" None] u(2)
  show ?thesis by (simp add: ok_def)
next
  case False
  then show ?thesis
    by (auto simp: unregister_route_def confirm_first_def http_error_def unregister_def is_registered_def bnd_assoc
        good_market good_def proper_def)
qed

section \<open>Subscriptions\<close>

lemma raises_foreign_market: "raises_only foreign m \<Longrightarrow> raises_only in_market m"
  by (rule raises_mono, assumption) (simp add: in_market_def)

lemma subscribe_good:
  assumes "outside_env env"
  shows "good (Post_Subscribe p aoid) w (subscribe_route p aoid env w)"
proof -
  have raises: "raises_only in_market (subscribe env p aoid)"
    unfolding subscribe_def
    by (intro raises_bnd raises_option raises_if raises_pure raises_foreign_market foreign_repo foreign_settings
        foreign_chat foreign_watch_item raises_lift assms)
      (use assms in \<open>auto simp: in_market_def outside_env_def\<close>)
  obtain r w' where run: "subscribe env p aoid w = (r, w')" by fastforce
  show ?thesis
  proof (cases r)
    case (Inr item)
    with run have fine: "subscribe env p aoid w = (Inr item, w')" by simp
    note sub = subscribe_Inr [OF fine]
    have "row_with sub_key (q, a) (subs w') = (if (q, a) = (p, aoid)
        then Some (new_sub p aoid (sub_seq w) (clock w)) else row_with sub_key (q, a) (subs w))" for q a
      using sub(3) unfolding sub(5) by (auto simp: row_with_append sub_key_def new_sub_def split: option.split)
    moreover have "bounds_of (new_sub p aoid (sub_seq w) (clock w)) = no_bounds"
      by (simp add: bounds_of_def new_sub_def no_bounds_def)
    ultimately have "watchlists w' = at_player p (\<lambda>l. l(aoid \<mapsto> no_bounds)) (watchlists w)"
      using sub(2) unfolding watchlists_def at_player_def sub(7) by (auto simp: fun_eq_iff)
    with fine show ?thesis by (simp add: subscribe_route_def bnd_apply good_def ok_def)
  next
    case (Inl e)
    with run raises have "in_market e" by (auto dest: raises_onlyD)
    then consider "foreign e" | m where "e = Market_Error m" by (auto simp: in_market_def)
    then show ?thesis
    proof cases
      case 1
      with run Inl show ?thesis by (simp add: subscribe_route_def bnd_apply good_Inl)
    next
      case 2
      with run Inl have "subscribe env p aoid w = (Inl (Market_Error m), w')" by simp
      from subscribe_market [OF assms this] have "watchlists w' = watchlists w"
        using same_db_watchlists watchlists_same [of "logged p ''watch_denied'' (Some aoid) w" w]
        by (auto simp: logged_def)
      with run Inl 2 show ?thesis by (simp add: subscribe_route_def bnd_apply good_market)
    qed
  qed
qed

lemma good_result:
  assumes "\<And>x w'. m w = (Inr x, w') \<Longrightarrow> good req w (f x w')" and "raises_only foreign m"
  shows "good req w (bnd m f w)"
proof (cases "m w")
  case (Pair r w')
  with assms show ?thesis by (cases r) (auto simp: bnd_apply good_Inl dest: raises_onlyD)
qed

lemma watchlists_remove:
  assumes "users u = users w" and "subs u = delete_where (\<lambda>s. sub_player s = p \<and> P (sub_aoid s)) (subs w)"
  shows "watchlists u = at_player p (\<lambda>l aoid. if P aoid then None else l aoid) (watchlists w)"
proof -
  have "subs u = delete_where (\<lambda>s. (\<lambda>(q, a). q = p \<and> P a) (sub_key s)) (subs w)"
    using assms(2) by (simp add: sub_key_def)
  from watchlists_delete [OF assms(1) this] show ?thesis
    by (auto simp: at_player_def watchlists_def fun_eq_iff)
qed

lemma unsubscribe_good:
  assumes "outside_env env"
  shows "good (Delete_Subscribe p aoid) w (unsubscribe_route p aoid env w)"
  unfolding unsubscribe_route_def
proof (rule good_result)
  fix deleted w' assume "unsubscribe env p aoid w = (Inr deleted, w')"
  note un = unsubscribe_Inr [OF this]
  then have "subs w' = delete_where (\<lambda>s. sub_player s = p \<and> (\<lambda>a. a = aoid) (sub_aoid s)) (subs w)" and "users w' = users w"
    by (simp_all add: is_sub_def [abs_def])
  from watchlists_remove [OF this(2,1)]
  have gone: "watchlists w' = at_player p (\<lambda>l. l(aoid := None)) (watchlists w)"
    by (simp add: fun_upd_def)
  moreover have "watchlists w' = watchlists w" if "\<not> deleted"
    using un that gone by (auto simp: at_player_def watchlists_def fun_eq_iff)
  ultimately show "good (Delete_Subscribe p aoid) w ((if \<not> deleted
      then http_error 404 (p @ '' is not watching aoid '' @ int_str aoid) else ret no_content) w')"
    by (simp add: http_error_def good_def proper_def no_content_def)
next
  show "raises_only foreign (unsubscribe env p aoid)"
    unfolding unsubscribe_def by (intro raising assms)
qed

lemma log_users: "keeping (\<lambda>v. users v = x) (log_action env p a y)"
proof (rule keepingI)
  fix w :: world assume "users w = x"
  then show "users (snd (log_action env p a y w)) = x"
    using log_action_any [of env p a y w "fst (log_action env p a y w)" "snd (log_action env p a y w)"]
    by (auto simp: logged_def dest: same_dbD(2))
qed

lemma bulk_good:
  assumes "outside_env env"
  shows "good (Post_Bulk_Delete p aoids) w (bulk_route p aoids env w)"
  unfolding bulk_route_def
proof (rule good_result)
  fix out w' assume run: "unsubscribe_bulk env p aoids w = (Inr out, w')"
  obtain removed not_watched where out: "out = (removed, not_watched)" by fastforce
  have "keeping (\<lambda>v. users v = users w) (unsubscribe_bulk env p aoids)"
    unfolding unsubscribe_bulk_def bulk_step_def unsubscribe_def delete_subscription_def
    by (intro keeping_fold_eff keeping_prod keeping_bnd keeping_params keeping_pure log_users) (simp add: keeping_def)
  from keeping_result [OF this _ run] have "users w' = users w" by simp
  moreover have "subs w' = delete_where (\<lambda>s. sub_player s = p \<and> (\<lambda>a. a \<in> set aoids) (sub_aoid s)) (subs w)"
    using bulk_loop [OF run [unfolded unsubscribe_bulk_def]] by simp
  ultimately have "watchlists w' = at_player p (\<lambda>l a. if a \<in> set aoids then None else l a) (watchlists w)"
    by (rule watchlists_remove)
  also have "\<dots> = at_player p (\<lambda>l. l |` (- set aoids)) (watchlists w)"
    by (rule arg_cong [where f = "\<lambda>f. at_player p f (watchlists w)"]) (simp add: restrict_map_def fun_eq_iff)
  finally show "good (Post_Bulk_Delete p aoids) w ((case out of (removed, not_watched) \<Rightarrow>
      ret (ok (Bulk_Unwatch_Out \<lparr>buo_removed = sort removed, buo_not_watched = sort not_watched\<rparr>))) w')"
    by (simp add: out good_def ok_def)
next
  show "raises_only foreign (unsubscribe_bulk env p aoids)"
    unfolding unsubscribe_bulk_def bulk_step_def unsubscribe_def by (intro raising assms)
qed

lemma unsubscribe_all_good:
  assumes "outside_env env"
  shows "good (Delete_Watchlist p confirm) w (unsubscribe_all_route p confirm env w)"
proof (cases confirm)
  case True
  let ?u = "w\<lparr>subs := delete_where (\<lambda>s. sub_player s = p) (subs w)\<rparr>" and ?n = "count_where (\<lambda>s. sub_player s = p) (subs w)"
  have "watchlists ?u = at_player p (\<lambda>l aoid. if True then None else l aoid) (watchlists w)"
    by (rule watchlists_remove) simp_all
  then have "watchlists ?u = apply_request (Delete_Watchlist p confirm) (watchlists w)" by simp
  from good_last [OF quiet_log [OF assms] _ this, of "ok (Unwatched_Out p ?n)" p "''unwatch_all''" None] True
  show ?thesis
    by (simp add: unsubscribe_all_route_def confirm_first_def unsubscribe_all_def delete_all_subscriptions_def
        count_subscriptions_def bnd_assoc ok_def) (simp add: ret_def)
next
  case False
  then show ?thesis
    by (simp add: unsubscribe_all_route_def confirm_first_def http_error_def good_def proper_def)
qed

section \<open>Filters\<close>

lemma parse_range_foreign:
  "parse_range spec parse_credits = Inl e \<Longrightarrow> foreign e"
  "parse_range spec parse_ql = Inl e \<Longrightarrow> foreign e"
  using credit_range_errors [of spec e] ql_range_errors [of spec e] by (auto simp: out_of_range_def split: exn.splits)

lemma filter_failed:
  "set_price_filter p aoid spec w = (Inl e, w') \<Longrightarrow> w' = w \<and> in_market e"
  "set_ql_filter p aoid spec w = (Inl e, w') \<Longrightarrow> w' = w \<and> in_market e"
  "clear_filter p aoid w = (Inl e, w') \<Longrightarrow> w' = w \<and> in_market e"
proof -
  have need: "require_subscription p aoid w = (if int8 aoid then (case row_with sub_key (p, aoid) (subs w) of
      None \<Rightarrow> (Inl (Market_Error (Not_Watching aoid)), w) | Some s \<Rightarrow> (Inr s, w)) else (Inl Data_Error, w))"
    using get_filter_run [of p aoid w] by (simp add: get_filter_def)
  have params: "with_params ok (update_subs p aoid f) w = (if ok then (Inr (), snd (update_subs p aoid f w)) else (Inl Data_Error, w))"
    for ok f by (simp add: with_params_def update_subs_def)
  show "set_price_filter p aoid spec w = (Inl e, w') \<Longrightarrow> w' = w \<and> in_market e"
    by (cases "parse_range spec parse_credits")
      (auto simp: set_price_filter_def update_price_filter_def bnd_def need params in_market_def parse_range_foreign
        split: if_splits option.splits)
  show "set_ql_filter p aoid spec w = (Inl e, w') \<Longrightarrow> w' = w \<and> in_market e"
    by (cases "parse_range spec parse_ql")
      (auto simp: set_ql_filter_def update_ql_filter_def bnd_def need params in_market_def parse_range_foreign
        split: if_splits option.splits)
  show "clear_filter p aoid w = (Inl e, w') \<Longrightarrow> w' = w \<and> in_market e"
    by (auto simp: clear_filter_def repo_clear_filter_def update_subs_def bnd_def need params in_market_def split: if_splits option.splits)
qed

lemma price_lists:
  assumes "set_price_filter p aoid spec w = (Inr (), w')"
  shows "watchlists w' = at_player p (at_item aoid (set_bounds (Some spec) None)) (watchlists w)"
proof -
  obtain s lo hi where "parse_range spec parse_credits = Inr (Some (lo, hi))"
    and "w' = w\<lparr>subs := update_where (is_sub p aoid) (\<lambda>s. s\<lparr>sub_min_price := lo, sub_max_price := hi\<rparr>) (subs w)\<rparr>"
    using set_price_filter_Inr [OF assms] .
  moreover have "watchlists (w\<lparr>subs := update_where (is_sub p aoid) (\<lambda>s. s\<lparr>sub_min_price := lo, sub_max_price := hi\<rparr>) (subs w)\<rparr>)
      = at_player p (at_item aoid (map_prod (\<lambda>_. (lo, hi)) id)) (watchlists w)"
    by (rule watchlists_update) (simp_all add: sub_key_def bounds_of_def)
  ultimately show ?thesis by (simp add: set_bounds_def)
qed

lemma ql_lists:
  assumes "set_ql_filter p aoid spec w = (Inr (), w')"
  shows "watchlists w' = at_player p (at_item aoid (set_bounds None (Some spec))) (watchlists w)"
proof -
  obtain s lo hi where "parse_range spec parse_ql = Inr (Some (lo, hi))"
    and "w' = w\<lparr>subs := update_where (is_sub p aoid) (\<lambda>s. s\<lparr>sub_min_ql := lo, sub_max_ql := hi\<rparr>) (subs w)\<rparr>"
    using set_ql_filter_Inr [OF assms] .
  moreover have "watchlists (w\<lparr>subs := update_where (is_sub p aoid) (\<lambda>s. s\<lparr>sub_min_ql := lo, sub_max_ql := hi\<rparr>) (subs w)\<rparr>)
      = at_player p (at_item aoid (map_prod id (\<lambda>_. (lo, hi)))) (watchlists w)"
    by (rule watchlists_update) (simp_all add: sub_key_def bounds_of_def)
  ultimately show ?thesis by (simp add: set_bounds_def)
qed

lemma clear_lists:
  assumes "clear_filter p aoid w = (Inr (), w')"
  shows "watchlists w' = at_player p (at_item aoid (\<lambda>_. no_bounds)) (watchlists w)"
proof -
  from assms have "w' = w\<lparr>subs := update_where (is_sub p aoid) (\<lambda>s. s\<lparr>sub_min_price := None, sub_max_price := None,
      sub_min_ql := None, sub_max_ql := None\<rparr>) (subs w)\<rparr>"
    by (auto simp: clear_filter_def require_subscription_def get_subscription_def bnd_Inr_iff with_params_Inr
        repo_clear_filter_def update_subs_def split: option.splits)
  then show ?thesis by (simp only:) (rule watchlists_update, simp_all add: sub_key_def bounds_of_def no_bounds_def)
qed

lemma set_bounds_nothing: "at_player p (at_item aoid (set_bounds None None)) m = m"
proof -
  have "at_item aoid id = id" by (simp add: at_item_def option.map_id fun_eq_iff)
  then show ?thesis by (simp add: at_player_def set_bounds_def prod.map_id0 option.map_id)
qed

lemma set_bounds_twice:
  "at_player p (at_item aoid (set_bounds None levels)) (at_player p (at_item aoid (set_bounds prices None)) m)
   = at_player p (at_item aoid (set_bounds prices levels)) m"
  by (cases "m p"; cases "the (m p) aoid")
    (auto simp: at_player_def at_item_def set_bounds_def split: option.split)

text \<open>What reading a filter answers.\<close>

lemma get_filter_answers:
  assumes "get_filter p aoid w = (r, w')" and "db_ok w"
  shows "w' = w" and "\<And>e. r = Inl e \<Longrightarrow> in_market e"
    and "\<And>s. r = Inr s \<Longrightarrow> \<exists>l. watchlists w p = Some l \<and> l aoid = Some (out_bounds (subscription_reply s))"
proof -
  show "w' = w" and "\<And>e. r = Inl e \<Longrightarrow> in_market e"
    using assms(1) by (auto simp: get_filter_run in_market_def split: if_splits option.splits)
  fix s assume "r = Inr s"
  with assms(1) have s: "row_with sub_key (p, aoid) (subs w) = Some s"
    by (auto simp: get_filter_run split: if_splits option.splits)
  with unknown_player_lists [OF assms(2)] have "row_with usr_player p (users w) \<noteq> None" by fastforce
  with s show "\<exists>l. watchlists w p = Some l \<and> l aoid = Some (out_bounds (subscription_reply s))"
    by (simp add: watchlists_def out_bounds_reply)
qed

lemma get_filter_good:
  assumes "db_ok w"
  shows "good (Get_Filter p aoid) w (get_filter_route p aoid env w)"
proof -
  obtain r w' where run: "get_filter p aoid w = (r, w')" by fastforce
  note out = get_filter_answers [OF run assms]
  show ?thesis
  proof (cases r)
    case (Inl e)
    with run out(1) out(2) [OF Inl] show ?thesis by (simp add: get_filter_route_def bnd_apply good_Inl in_market_proper)
  next
    case (Inr s)
    with run out(1) out(3) [OF Inr] show ?thesis by (auto simp: get_filter_route_def bnd_apply good_def ok_def)
  qed
qed

text \<open>The reply of the filter routes is the filter as it is afterwards.\<close>

lemma reading_back:
  assumes "db_ok u" and "watchlists u = apply_request req (watchlists w)"
    and "\<And>body m. answers req body m = answers (Get_Filter p aoid) body m"
    and "\<And>e. in_market e \<Longrightarrow> good req w (Inl e, u)"
  shows "good req w (bnd (get_filter p aoid) (\<lambda>sub. ret (ok (Subscription_Out (subscription_reply sub)))) u)"
proof -
  obtain r u' where run: "get_filter p aoid u = (r, u')" by fastforce
  note out = get_filter_answers [OF run assms(1)]
  show ?thesis
  proof (cases r)
    case (Inl e)
    with run out(1) assms(4) [OF out(2) [OF Inl]] show ?thesis by (simp add: bnd_apply)
  next
    case (Inr s)
    with run out(1) out(3) [OF Inr] assms(2,3) show ?thesis by (auto simp: bnd_apply good_def ok_def)
  qed
qed

lemma subscription_stays:
  assumes "row_with sub_key (p, aoid) (subs w) = Some s" and "int8 aoid" and "\<And>s. sub_key (f s) = sub_key s"
    and "w' = w\<lparr>subs := update_where (is_sub p aoid) f (subs w)\<rparr>"
  shows "get_filter p aoid w' = (Inr (f s), w')"
  using assms by (simp add: get_filter_run row_update_subs)

lemma still_there:
  "set_price_filter p aoid spec w = (Inr (), w') \<Longrightarrow> \<exists>s. get_filter p aoid w' = (Inr s, w')"
  "set_ql_filter p aoid spec w = (Inr (), w') \<Longrightarrow> \<exists>s. get_filter p aoid w' = (Inr s, w')"
  "clear_filter p aoid w = (Inr (), w') \<Longrightarrow> \<exists>s. get_filter p aoid w' = (Inr s, w')"
proof -
  show "\<exists>s. get_filter p aoid w' = (Inr s, w')" if "set_price_filter p aoid spec w = (Inr (), w')"
    using that by (rule set_price_filter_Inr) (rule exI, rule subscription_stays, auto simp: sub_key_def)
  show "\<exists>s. get_filter p aoid w' = (Inr s, w')" if "set_ql_filter p aoid spec w = (Inr (), w')"
    using that by (rule set_ql_filter_Inr) (rule exI, rule subscription_stays, auto simp: sub_key_def)
  show "\<exists>s. get_filter p aoid w' = (Inr s, w')" if "clear_filter p aoid w = (Inr (), w')"
  proof -
    from that obtain s where "row_with sub_key (p, aoid) (subs w) = Some s" "int8 aoid"
      and "w' = w\<lparr>subs := update_where (is_sub p aoid) (\<lambda>s. s\<lparr>sub_min_price := None, sub_max_price := None,
        sub_min_ql := None, sub_max_ql := None\<rparr>) (subs w)\<rparr>"
      by (auto simp: clear_filter_def require_subscription_def get_subscription_def bnd_Inr_iff with_params_Inr
          repo_clear_filter_def update_subs_def split: option.splits)
    from subscription_stays [OF this(1,2) _ this(3)] show ?thesis by (auto simp: sub_key_def)
  qed
qed

lemma reading_after:
  assumes "\<exists>s. get_filter p aoid u = (Inr s, u)" and "db_ok u" and "watchlists u = apply_request req (watchlists w)"
    and "\<And>body m. answers req body m = answers (Get_Filter p aoid) body m"
  shows "good req w (bnd (get_filter p aoid) (\<lambda>sub. ret (ok (Subscription_Out (subscription_reply sub)))) u)"
proof -
  from assms(1) obtain s where run: "get_filter p aoid u = (Inr s, u)" by blast
  from get_filter_answers(3) [OF run assms(2) refl] run assms(3,4) show ?thesis
    by (auto simp: bnd_apply good_def ok_def)
qed

lemma clear_filter_good:
  assumes "db_ok w"
  shows "good (Delete_Filter p aoid) w (clear_filter_route p aoid env w)"
proof -
  obtain r w' where run: "clear_filter p aoid w = (r, w')" by fastforce
  show ?thesis
  proof (cases r)
    case (Inl e)
    with run filter_failed(3) [of p aoid w e w'] show ?thesis
      by (simp add: clear_filter_route_def bnd_apply good_Inl in_market_proper)
  next
    case (Inr x)
    then have fine: "clear_filter p aoid w = (Inr (), w')" using run by simp
    have "db_ok w'" using keeping_result [OF consistent.filter_writes(3) assms run] .
    from reading_after [OF still_there(3) [OF fine] this] clear_lists [OF fine] fine show ?thesis
      by (simp add: clear_filter_route_def bnd_apply)
  qed
qed

lemma update_filter_good:
  assumes "db_ok w"
  shows "good (Put_Filter p aoid prices levels) w (update_filter_route p aoid prices levels env w)"
proof -
  let ?req = "Put_Filter p aoid prices levels"
  let ?price = "case prices of None \<Rightarrow> ret () | Some spec \<Rightarrow> set_price_filter p aoid spec"
  let ?ql = "case levels of None \<Rightarrow> ret () | Some spec \<Rightarrow> set_ql_filter p aoid spec"
  obtain r u where first: "?price w = (r, u)" by fastforce
  show ?thesis
  proof (cases r)
    case (Inl e)
    with first have "u = w \<and> in_market e" by (auto split: option.splits dest: filter_failed)
    with first Inl show ?thesis by (simp add: update_filter_route_def bnd_apply good_Inl in_market_proper)
  next
    case (Inr x)
    have u_ok: "db_ok u"
      using first assms by (auto split: option.splits dest: keeping_result [OF consistent.filter_writes(1)])
    have u: "watchlists u = apply_request (Put_Filter p aoid prices None) (watchlists w)"
      using first Inr by (auto split: option.splits simp: price_lists set_bounds_nothing)
    obtain q v where second: "?ql u = (q, v)" by fastforce
    show ?thesis
    proof (cases q)
      case (Inl e)
      with second have v: "v = u" "in_market e" by (auto split: option.splits dest: filter_failed)
      obtain spec where levels: "levels = Some spec" using second Inl by (cases levels) auto
      have "good ?req w (Inl e, u)"
      proof (cases prices)
        case None
        with first v show ?thesis by (auto intro: good_Inl in_market_proper)
      next
        case (Some spec')
        with u v levels show ?thesis by (simp add: good_def in_market_proper)
      qed
      with first second Inr Inl v show ?thesis by (simp add: update_filter_route_def bnd_apply)
    next
      case (Inr y)
      have v_ok: "db_ok v"
        using second u_ok by (auto split: option.splits dest: keeping_result [OF consistent.filter_writes(2)])
      have v: "watchlists v = apply_request ?req (watchlists w)"
        using second Inr u by (auto split: option.splits simp: ql_lists set_bounds_twice)
      show ?thesis
      proof (cases "prices = None \<and> levels = None")
        case True
        with first second \<open>r = Inr x\<close> Inr assms show ?thesis
          using get_filter_good [OF assms, of p aoid env]
          by (auto simp: update_filter_route_def get_filter_route_def good_def set_bounds_nothing split: prod.splits sum.splits)
      next
        case False
        then have "\<exists>s. get_filter p aoid v = (Inr s, v)"
          using first second \<open>r = Inr x\<close> Inr by (auto split: option.splits dest: still_there)
        from reading_after [OF this v_ok v] first second \<open>r = Inr x\<close> Inr show ?thesis
          by (simp add: update_filter_route_def bnd_apply)
      qed
    qed
  qed
qed

section \<open>The other routes\<close>

lemma delete_watch_good:
  assumes "db_ok w"
  shows "good (Delete_Watch aoid) w (stop_tracking_route aoid env w)"
proof (cases "int8 aoid")
  case True
  let ?u = "delete_watches (\<lambda>r. wat_aoid r = aoid) w"
  have run: "stop_tracking_route aoid env w = (if 0 < count_where (\<lambda>r. wat_aoid r = aoid) (watches w)
      then (Inr no_content, ?u) else (Inl (Http_Exception 404 (untracked aoid)), ?u))"
    using True by (simp add: stop_tracking_route_def delete_watch_def with_params_def bnd_def http_error_def)
  have lists: "watchlists ?u = (\<lambda>p. map_option (\<lambda>l a. if a \<in> wat_aoid ` set (filter (\<lambda>r. wat_aoid r = aoid) (watches w))
      then None else l a) (watchlists w p))"
    using watchlists_delete [of ?u w "\<lambda>(_, a). a \<in> wat_aoid ` set (filter (\<lambda>r. wat_aoid r = aoid) (watches w))"]
    by (simp add: delete_watches_def Let_def sub_key_def)
  show ?thesis
  proof (cases "filter (\<lambda>r. wat_aoid r = aoid) (watches w)")
    case Nil
    then have "watchlists ?u = watchlists w" unfolding lists by (simp add: option.map_ident)
    with run Nil show ?thesis by (simp add: count_where_def good_Inl proper_def)
  next
    case (Cons r rs)
    then have "wat_aoid ` set (filter (\<lambda>r. wat_aoid r = aoid) (watches w)) = {aoid}"
      by (force dest: arg_cong [where f = set])
    then have "watchlists ?u = apply_request (Delete_Watch aoid) (watchlists w)"
      unfolding lists by (simp add: fun_upd_def)
    with run Cons show ?thesis by (simp add: count_where_def good_def no_content_def)
  qed
next
  case False
  then show ?thesis by (simp add: stop_tracking_route_def delete_watch_def with_params_def good_Inl)
qed

lemma untrack_all_good:
  assumes "db_ok w"
  shows "good (Post_Untrack_All confirm) w (untrack_all_route confirm env w)"
proof (cases confirm)
  case True
  let ?u = "delete_watches (\<lambda>_. True) w"
  have lists: "watchlists ?u = (\<lambda>p. map_option (\<lambda>l a. if a \<in> wat_aoid ` set (watches w) then None else l a) (watchlists w p))"
    using watchlists_delete [of ?u w "\<lambda>(_, a). a \<in> wat_aoid ` set (watches w)"]
    by (simp add: delete_watches_def Let_def sub_key_def)
  have "row_with sub_key (p, a) (subs w) = None" if "a \<notin> wat_aoid ` set (watches w)" for p a
    using assms that by (auto simp: db_defs refs_def row_with_None sub_key_def)
  then have "watchlists ?u = apply_request (Post_Untrack_All confirm) (watchlists w)"
    unfolding lists by (auto simp: watchlists_def fun_eq_iff)
  with True show ?thesis
    by (simp add: untrack_all_route_def confirm_first_def untrack_all_def clear_watch_def count_watch_def bnd_assoc good_def ok_def)
next
  case False
  then show ?thesis by (simp add: untrack_all_route_def confirm_first_def http_error_def good_def proper_def)
qed

text \<open>A reply has the status 200 or 204.\<close>

definition replies :: "(world, http_response) eff \<Rightarrow> bool" where
  "replies m \<longleftrightarrow> (\<forall>w r w'. m w = (Inr r, w') \<longrightarrow> http_status r \<in> {200, 204})"

lemma replies_rules:
  "replies (ret (ok body))" "replies (raise e)" "replies (http_error code detail)"
  "(\<And>x. replies (f x)) \<Longrightarrow> replies (bnd m f)"
  "replies n \<Longrightarrow> (\<And>x. replies (g x)) \<Longrightarrow> replies (case a of None \<Rightarrow> n | Some x \<Rightarrow> g x)"
  "(\<And>x y. replies (h x y)) \<Longrightarrow> replies (case q of (x, y) \<Rightarrow> h x y)"
  "replies (ret (setting_reply key v))"
  by (auto simp: replies_def bnd_Inr_iff ok_def http_error_def setting_reply_def split: option.split prod.split)

lemma good_unchanged:
  assumes "\<And>x. keeping (\<lambda>w. watchlists w = x) m" and "raises_only proper m" and "replies m"
    and "\<And>m. apply_request req m = m" and "\<And>body m. answers req body m"
  shows "good req w (m w)"
proof (cases "m w")
  case (Pair r w')
  with keepingD [OF assms(1), of w "watchlists w"] have "watchlists w' = watchlists w" by simp
  with Pair assms(2-5) show ?thesis
    by (cases r) (auto simp: good_def replies_def dest: raises_onlyD)
qed

lemma raises_proper: "raises_only foreign m \<Longrightarrow> raises_only proper m"
  by (rule raises_mono, assumption) (rule foreign_proper)

lemma raises_catch: "raises_only E m \<Longrightarrow> (\<And>e k. h e = Some k \<Longrightarrow> raises_only E k) \<Longrightarrow> raises_only E (catch m h)"
  by (auto simp: raises_only_def catch_def split: prod.split sum.split option.split) (metis fst_conv)+

lemma text_foreign: "int_of_text s = Inl e \<Longrightarrow> foreign e"
  by (auto simp: int_of_text_def split: prod.splits option.splits if_splits)

lemma setting_foreign:
  "raises_only foreign (setting_set key v)"
  "raises_only foreign setting_all"
proof -
  have "serialize v vt = Inl e \<Longrightarrow> foreign e" for vt e
    by (cases v) (auto simp: serialize_def py_str_def str_of_int_def split: if_splits)
  then show "raises_only foreign (setting_set key v)"
    by (auto intro!: raising raises_lift simp: setting_set_def get_row_def)
  have "deserialize_all rs = Inl e \<Longrightarrow> foreign e" for rs e
  proof (induction rs)
    case (Cons r rs)
    then show ?case
      by (cases "set_value_type r"; cases "int_of_text (set_value r)"; cases "deserialize_all rs")
        (auto simp: deserialize_def dest: text_foreign)
  qed simp
  then show "raises_only foreign setting_all"
    by (auto intro!: raising raises_lift simp: setting_all_def raises_only_def bnd_def lift_def split: sum.splits)
qed

lemma statistics_foreign:
  "raises_only foreign (user_stats p)"
  "raises_only foreign (lift (stats_reply p stats))"
  "raises_only foreign status_summary"
  "raises_only foreign (status_details limit offset)"
  "raises_only foreign (list_watch limit offset auto)"
  "raises_only foreign (get_watch aoid)"
  by (auto intro!: raising raises_lift simp: user_stats_def user_action_summary_def user_action_breakdown_def
      count_subscriptions_def status_summary_def count_watch_def status_details_def list_watch_def get_watch_def
      stats_reply_def split: option.splits)

lemma route_raises:
  assumes "outside_env env" and "\<And>w q ql limit offset e. item_search s w q ql limit offset = Inl e \<Longrightarrow> foreign e"
  shows "raises_only proper (stats_route p env)"
    and "raises_only proper (list_watch_route limit offset auto env)"
    and "raises_only proper (get_watch_route aoid env)"
    and "raises_only proper (start_watching_route aoid env)"
    and "raises_only proper (orders_route aoid env)"
    and "raises_only proper (admin_stats_route p env)"
    and "raises_only proper (status_route env)"
    and "raises_only proper (status_details_route limit offset env)"
    and "raises_only proper (list_settings_route env)"
    and "raises_only proper (get_setting_route key env)"
    and "raises_only proper (update_setting_route key v env)"
    and "raises_only proper (search_items_route s q ql limit offset env)"
    and "raises_only proper (get_item_route aoid env)"
proof -
  have clients: "raises_only foreign (lift (aodb_get env a))" "raises_only foreign (lift (gmi_get env a))" for a
    using assms(1) by (auto intro!: raises_lift simp: outside_env_def)
  have missing: "raises_only proper (catch m (unknown_to_404 key))" if "raises_only foreign m"
    for m :: "(world, 'a) eff" and key
    by (rule raises_catch [OF raises_proper [OF that]])
      (auto simp: unknown_to_404_def http_error_def raises_only_def raise_def proper_def split: exn.splits)
  note leaves = statistics_foreign setting_foreign foreign_settings foreign_watch_item [OF assms(1)] clients
  show "raises_only proper (search_items_route s q ql limit offset env)"
    by (auto simp: search_items_route_def raises_only_def bnd_def lift_def split: sum.splits dest: assms(2) [THEN foreign_proper])
  show "raises_only proper (stats_route p env)"
    "raises_only proper (list_watch_route limit offset auto env)"
    "raises_only proper (get_watch_route aoid env)"
    "raises_only proper (start_watching_route aoid env)"
    "raises_only proper (orders_route aoid env)"
    "raises_only proper (admin_stats_route p env)"
    "raises_only proper (status_route env)"
    "raises_only proper (status_details_route limit offset env)"
    "raises_only proper (list_settings_route env)"
    "raises_only proper (get_setting_route key env)"
    "raises_only proper (update_setting_route key v env)"
    "raises_only proper (get_item_route aoid env)"
    unfolding route_defs update_setting_route_def http_error_def
    by (intro raises_bnd raises_option raises_pure missing raises_proper leaves; simp add: proper_def)+
qed

lemma watchlists_settings: "watchlists (w\<lparr>settings := s\<rparr>) = watchlists w"
  by (rule watchlists_same) simp_all

lemma keeping_lists:
  "keeping (\<lambda>w. watchlists w = x) (start_watching_route aoid env)"
  "keeping (\<lambda>w. watchlists w = x) (update_setting_route key v env)"
proof -
  have "keeping (\<lambda>w. watchlists w = x) (announce_tracked env n auto)" for n auto
  proof (rule keepingI)
    fix w assume "watchlists w = x"
    then show "watchlists (snd (announce_tracked env n auto w)) = x"
      by (metis announce_same(2) prod.collapse same_db_watchlists)
  qed
  moreover have "keeping (\<lambda>w. watchlists w = x) (upsert_watch aoid n q i auto)" for n q i auto
    unfolding upsert_watch_def get_watch_def
    by (intro keeps) (auto simp: keeping_def intro: watchlists_same)
  ultimately show "keeping (\<lambda>w. watchlists w = x) (start_watching_route aoid env)"
    unfolding start_watching_route_def watch_item_def by (intro keeps)
  have "keeping (\<lambda>w. watchlists w = x) (setting_set key v)"
    unfolding setting_set_def by (intro keeps keeping_modify) (metis watchlists_settings)
  then show "keeping (\<lambda>w. watchlists w = x) (update_setting_route key v env)"
    unfolding update_setting_route_def
    by (intro keeping_bnd keeping_catch keeping_pure settings_read_only)
      (auto simp: unknown_to_404_def http_error_def intro: keeping_pure split: exn.splits)
qed

lemma unchanging_keeps: "unchanging m \<Longrightarrow> keeping P m"
  by (simp add: unchanging_def keeping_def)

lemma get_player_good: "good (Get_Player p) w (get_player_route p env w)"
  by (simp add: get_player_route_def is_registered_def good_def ok_def watchlists_def)

lemma map_of_rows:
  assumes "distinct (map f rows)"
  shows "map_of (map (\<lambda>r. (f r, g r)) rows) k = map_option g (find (\<lambda>r. f r = k) rows)"
  using assms by (induction rows) auto

lemma watchlist_good:
  assumes "db_ok w"
  shows "good (Get_Watchlist p) w (watchlist_route p env w)"
proof -
  let ?mine = "filter (\<lambda>s. sub_player s = p) (subs w)" and ?sorted = "sort_key sub_created_at (filter (\<lambda>s. sub_player s = p) (subs w))"
  have "distinct (map sub_key (subs w))" using assms by (simp add: db_defs unique_def)
  then have "distinct (map sub_aoid ?mine)"
    by (auto simp: distinct_map inj_on_def sub_key_def)
  then have d: "distinct (map sub_aoid ?sorted)" by (simp add: distinct_map)
  have "find (\<lambda>s. sub_aoid s = aoid) ?sorted = row_with sub_key (p, aoid) (subs w)" for aoid
  proof (cases "row_with sub_key (p, aoid) (subs w)")
    case None
    then have "find (\<lambda>s. sub_aoid s = aoid) ?sorted = None"
      by (auto simp: row_with_None find_None_iff sub_key_def image_iff)
    with None show ?thesis by simp
  next
    case (Some s)
    then have "s \<in> set ?sorted" "sub_aoid s = aoid" by (auto simp: sub_key_def dest: row_with_Some)
    with d Some show ?thesis using row_with_unique [of sub_aoid ?sorted s] by (simp add: row_with_def unique_def)
  qed
  then have "map_of (map (\<lambda>s. (sub_aoid s, bounds_of s)) ?sorted) aoid = map_option bounds_of (row_with sub_key (p, aoid) (subs w))" for aoid
    by (simp add: map_of_rows [OF d])
  then have "map_of (map (\<lambda>out. (suo_aoid out, out_bounds out)) (map subscription_reply ?sorted))
      = (case watchlists w p of None \<Rightarrow> Map.empty | Some l \<Rightarrow> l)"
    using unknown_player_lists [OF assms, of p]
    by (auto simp: watchlists_def out_bounds_reply comp_def fun_eq_iff)
  then show ?thesis
    by (simp add: watchlist_route_def list_watchlist_def list_subscriptions_def good_def ok_def)
qed

section \<open>Property\<close>

lemma service_result:
  assumes "get_service s m a = (r, a')"
  defines "env \<equiv> service_env s (bot_ready a) (system a)"
  shows "m env (db (system a)) = (r, db (system a'))"
proof (cases "bot_ready a")
  case True
  with assms(1) have run: "with_service s m (system a) = (r, system a')"
    by (auto simp: get_service_def on_bot_def split: prod.splits)
  have "fst (with_service s m (system a)) = fst (m env (db (system a)))"
    using True by (simp add: with_service_def env_def service_env_def split: prod.split)
  with run with_service_db [of s m "system a"] True show ?thesis
    by (simp add: env_def service_env_def prod_eq_iff)
next
  case False
  with assms(1) show ?thesis
    by (auto simp: get_service_def on_bot_def on_db_def env_def service_env_def split: prod.splits)
qed

lemma routes_good:
  assumes "db_ok (db (system a))" and "of_service req"
    and "\<And>b. outside_env (service_env s (bot_ready a) b)"
    and "\<And>w q ql limit offset e. item_search s w q ql limit offset = Inl e \<Longrightarrow> foreign e"
    and "run_route s req a = (r, a')"
  shows "good req (db (system a)) (r, db (system a'))"
proof -
  let ?w = "db (system a)" and ?env = "service_env s (bot_ready a) (system a)"
  have via: "good q ?w (r, db (system a'))"
    if "run_route s q a = (r, a')" and "run_route s q = get_service s m" and "good q ?w (m ?env ?w)" for q m
    using service_result [of s m a r a'] that by simp
  have same: "good q ?w (r, db (system a'))"
    if "run_route s q a = (r, a')" and "run_route s q = get_service s m"
      and "\<And>x. keeping (\<lambda>w. watchlists w = x) (m ?env)"
      and "raises_only proper (m ?env)" and "replies (m ?env)"
      and "\<And>m. apply_request q m = m" and "\<And>body m. answers q body m" for q m
    using that(1,2) good_unchanged [OF that(3-7)] by (rule via)
  note routes = route_raises [where s = s, OF assms(3)]
  have replies: "replies (stats_route p ?env)" "replies (list_watch_route l o' au ?env)" "replies (get_watch_route i ?env)"
    "replies (start_watching_route i ?env)" "replies (orders_route i ?env)" "replies (admin_stats_route p ?env)"
    "replies (status_route ?env)" "replies (status_details_route l o' ?env)" "replies (list_settings_route ?env)"
    "replies (get_setting_route p ?env)" "replies (update_setting_route p v ?env)"
    "replies (search_items_route s p n l o' ?env)" "replies (get_item_route i ?env)" for p l o' au i v n
    unfolding route_defs update_setting_route_def search_items_route_def by (intro replies_rules)+
  note goods = register_good [OF assms(1)] unregister_good subscribe_good unsubscribe_good bulk_good unsubscribe_all_good
    get_filter_good [OF assms(1)] update_filter_good [OF assms(1)] clear_filter_good [OF assms(1)]
    delete_watch_good [OF assms(1)] untrack_all_good [OF assms(1)] get_player_good watchlist_good [OF assms(1)]
  show ?thesis
    by (insert assms(2,5), (cases req; hypsubst;
      ((erule via, rule run_route.simps, ((rule goods, rule assms(3)) | rule goods))
      | (erule same, rule run_route.simps, (rule unchanging_keeps reading_routes keeping_lists)+,
          rule routes, erule assms(4), rule replies, simp, simp)
      | (auto simp add: bot_status_route_def healthz_route_def readyz_route_def good_def ok_def Let_def; fail))))
qed

lemma proper_status:
  "proper e \<Longrightarrow> http_status (error_response e) \<notin> {200, 204}"
  "foreign e \<Longrightarrow> http_status (error_response e) = 500"
proof -
  show "http_status (error_response e) \<notin> {200, 204}" if "proper e"
  proof (cases e)
    case (Market_Error m)
    then show ?thesis by (cases m) (simp_all add: error_response_def market_error_handler_def)
  qed (use that in \<open>auto simp: error_response_def proper_def\<close>)
  show "foreign e \<Longrightarrow> http_status (error_response e) = 500"
    by (cases e) (simp_all add: error_response_def)
qed

lemma touched_lists: "only_touched a u \<Longrightarrow> watchlists (db (system u)) = watchlists (db (system a))"
proof -
  assume "only_touched a u"
  then have "db (system u) = (db (system a))\<lparr>api_keys := api_keys (db (system u))\<rparr>"
    by (simp add: only_touched_def touched_def)
  then show ?thesis using watchlists_same [of "db (system u)" "db (system a)"] by (metis world.select_convs(2,5) world.update_convs(9) world.surjective)
qed

text \<open>C39. The API is a map of watchlists. A request that is answered with 200 or 204 has done to the map what
  its name says (a registration adds a player with an empty list, a subscription an entry without
  bounds, a filter sets the bounds written, stopping to track an item takes it off all lists, reading
  does nothing), and the replies that show a filter or a list show the map as it is afterwards. A
  request that is refused leaves the map as it was, with one exception: an update of both bounds
  whose second range is refused has set the first. Only a request answered with a 500 may leave more
  behind.\<close>

theorem api_refines_watchlists:
  assumes "db_ok (db (system a))" and "of_service req"
    and "\<And>b. outside_env (service_env s (bot_ready a) b)"
    and "\<And>w q ql limit offset e. item_search s w q ql limit offset = Inl e \<Longrightarrow> foreign e"
    and "serve_request s req x_api_key a = (response, a')"
  shows "http_status response \<in> {200, 204}
      \<and> watchlists (db (system a')) = apply_request req (watchlists (db (system a)))
      \<and> answers req (http_payload response) (watchlists (db (system a')))
    \<or> http_status response \<notin> {200, 204, 500}
      \<and> (watchlists (db (system a')) = watchlists (db (system a))
         \<or> half_done req (watchlists (db (system a))) (watchlists (db (system a'))))
    \<or> http_status response = 500"
proof -
  obtain q u where deps: "check_dependencies s req x_api_key a = (q, u)" by fastforce
  have touched: "only_touched a u"
    using deps dependencies_run(1) [OF deps]
    by (cases "key_for req = No_Key") (auto simp: check_dependencies_def only_touched_refl)
  note lists = touched_lists [OF touched]
  show ?thesis
  proof (cases q)
    case (Inl e)
    then have "key_for req \<noteq> No_Key" using deps by (auto simp: check_dependencies_def)
    from dependencies_run(2) [OF deps this] Inl obtain code detail
      where "e = Http_Exception code detail" "code \<in> {401, 403}" by (auto split: if_splits)
    with deps Inl assms(5) lists show ?thesis by (auto simp: serve_request_def bnd_def error_response_def)
  next
    case (Inr x)
    obtain r a'' where run: "run_route s req u = (r, a'')" by fastforce
    have u: "db_ok (db (system u))" "bot_ready u = bot_ready a"
      using keeping_result [OF consistent.dependencies_kept assms(1) deps] only_touched_ready [OF touched]
      by (simp_all add: bot_ready_def)
    have "good req (db (system u)) (r, db (system a''))"
      using u(1) assms(2) assms(3) [folded u(2)] assms(4) run by (rule routes_good)
    with deps Inr run assms(5) lists show ?thesis
      by (cases r) (auto simp: serve_request_def bnd_def good_def dest: proper_status)
  qed
qed

definition ann_registered :: world where
  "ann_registered = snd (generate_key sample_auth ''Ann'' ''one'' filter_world)"

theorem api_refines_watchlists_witness:
  "watchlists (db (system (snd (serve_request sample_surroundings (Delete_Subscribe ''Ann'' 200) (Some ''aomk_one'')
      (sample_app ann_registered))))) = at_player ''Ann'' (\<lambda>l. l(200 := None)) (watchlists ann_registered)"
proof -
  let ?s = sample_surroundings and ?a = "sample_app ann_registered" and ?req = "Delete_Subscribe ''Ann'' 200"
  let ?run = "serve_request ?s ?req (Some ''aomk_one'') ?a"
  have db: "db (system ?a) = ann_registered" by (simp add: sample_app_def sample_bot_def)
  have "db_ok ann_registered"
    unfolding ann_registered_def by (rule keepingD [OF consistent.generate_key filter_world_ok])
  then have "db_ok (db (system ?a))" by (simp add: db)
  moreover have "of_service ?req" by simp
  moreover have "outside_env (service_env ?s (bot_ready ?a) b)" for b
    by (simp add: service_env_def sample_app_def bot_ready_def sample_surroundings_def outside_env_def sample_env_def)
  moreover have "item_search ?s w q ql limit offset = Inl e \<Longrightarrow> foreign e" for w q ql limit offset e
    by (simp add: sample_surroundings_def)
  ultimately have "http_status (fst ?run) \<in> {200, 204}
      \<and> watchlists (db (system (snd ?run))) = apply_request ?req (watchlists (db (system ?a)))
      \<and> answers ?req (http_payload (fst ?run)) (watchlists (db (system (snd ?run))))
    \<or> http_status (fst ?run) \<notin> {200, 204, 500}
      \<and> (watchlists (db (system (snd ?run))) = watchlists (db (system ?a))
         \<or> half_done ?req (watchlists (db (system ?a))) (watchlists (db (system (snd ?run)))))
    \<or> http_status (fst ?run) = 500"
    by (intro api_refines_watchlists [OF _ _ _ _ prod.collapse [symmetric]]) assumption+
  moreover have "http_status (fst ?run) = 204" by code_simp
  ultimately show ?thesis by (simp add: db)
qed

end
