(* ===== verification/Tasks.thy ===== *)
theory Tasks
  imports Players
begin

text \<open>
  The methods of \<open>market/service.py\<close> and \<open>auth/service.py\<close> that write for a player, cut at their
  statements. A coroutine gives way at every call of a repository, which is one transaction; a
  \<open>task\<close> is a coroutine cut there (an announcement, which only reads a setting, counts as one
  statement), and \<open>run_schedule\<close> interleaves any number of tasks in a given order. Run without
  interruption a task is the method of \<open>Service\<close> or \<open>Auth\<close> (the lemmas \<open>_alone\<close>), and whatever
  every statement keeps is kept under every schedule.
\<close>

section \<open>Tasks\<close>

datatype 'a task = Return "exn + 'a" | Act "world \<Rightarrow> 'a task \<times> world"

definition atomic :: "(world, 'a) eff \<Rightarrow> 'a task" where
  "atomic m = Act (\<lambda>w. case m w of (r, w') \<Rightarrow> (Return r, w'))"

primrec after :: "'a task \<Rightarrow> ('a \<Rightarrow> 'b task) \<Rightarrow> 'b task" where
  "after (Return r) f = (case r of Inl e \<Rightarrow> Return (Inl e) | Inr x \<Rightarrow> f x)"
| "after (Act g) f = Act (\<lambda>w. map_prod (\<lambda>t. after t f) id (g w))"

primrec alone :: "'a task \<Rightarrow> (world, 'a) eff" where
  "alone (Return r) = (\<lambda>w. (r, w))"
| "alone (Act g) = (\<lambda>w. (\<lambda>(m, w'). m w') (map_prod alone id (g w)))"

primrec advance :: "'a task \<Rightarrow> world \<Rightarrow> 'a task \<times> world" where
  "advance (Return r) w = (Return r, w)"
| "advance (Act g) w = g w"

fun run_schedule :: "nat list \<Rightarrow> 'a task list \<Rightarrow> world \<Rightarrow> 'a task list \<times> world" where
  "run_schedule [] ts w = (ts, w)"
| "run_schedule (i # turns) ts w =
     (if i < length ts then (case advance (ts ! i) w of (t, w') \<Rightarrow> run_schedule turns (ts[i := t]) w')
      else run_schedule turns ts w)"

lemma after_atomic: "after (atomic m) f = Act (\<lambda>w. case m w of
    (Inl e, w') \<Rightarrow> (Return (Inl e), w') | (Inr x, w') \<Rightarrow> (f x, w'))"
  by (simp add: atomic_def fun_eq_iff split: prod.split sum.split)

lemma alone_after: "alone (after t f) = bnd (alone t) (\<lambda>x. alone (f x))"
proof (induction t)
  case (Return r)
  then show ?case by (cases r) (simp_all add: fun_eq_iff bnd_def)
next
  case (Act g)
  have "alone (after (fst (g w)) f) = bnd (alone (fst (g w))) (\<lambda>x. alone (f x))" for w
    by (rule Act.IH [of "g w"]) (auto simp: prod_set_simps intro: fsts.intros rangeI)
  then show ?case by (simp add: fun_eq_iff bnd_def map_prod_def split_beta)
qed

lemma alone_atomic: "alone (atomic m) = m"
  by (simp add: atomic_def fun_eq_iff split: prod.split)

primrec fold_task :: "('b \<Rightarrow> 's \<Rightarrow> 's task) \<Rightarrow> 'b list \<Rightarrow> 's \<Rightarrow> 's task" where
  "fold_task f [] s = Return (Inr s)"
| "fold_task f (x # xs) s = after (f x s) (fold_task f xs)"

lemma alone_fold: "alone (fold_task f xs s) = fold_eff (\<lambda>x s. alone (f x s)) xs s"
proof (induction xs arbitrary: s)
  case (Cons x xs)
  then have "alone (fold_task f (x # xs) s) = bnd (alone (f x s)) (\<lambda>s. alone (fold_task f xs s))"
    by (simp add: alone_after)
  then show ?case by (simp add: Cons.IH)
qed (simp add: fun_eq_iff)

lemma alone_simps:
  "alone (if b then s else t) = (if b then alone s else alone t)"
  "alone (case x of None \<Rightarrow> s | Some y \<Rightarrow> u y) = (case x of None \<Rightarrow> alone s | Some y \<Rightarrow> alone (u y))"
  by (simp_all split: option.split)

lemma alone_Return:
  "alone (Return r) = lift r" "lift (Inl e) = raise e" "lift (Inr x) = ret x"
  by (simp_all add: fun_eq_iff)

lemma bnd_if: "bnd (if b then m else n) f = (if b then bnd m f else bnd n f)"
  by simp

lemmas alone_rules = alone_after alone_atomic alone_simps alone_Return bnd_assoc bnd_if

section \<open>The methods of the market service\<close>

definition log_task :: "env \<Rightarrow> string \<Rightarrow> string \<Rightarrow> int option \<Rightarrow> unit task" where
  "log_task env player action aoid =
     after (atomic (repo_log_action player action aoid)) (\<lambda>_. atomic (announce env player action aoid))"

definition register_task :: "env \<Rightarrow> string \<Rightarrow> unit task" where
  "register_task env player =
     after (atomic (is_registered player)) (\<lambda>known.
     if known then Return (Inl (Market_Error (Already_Registered player)))
     else after (atomic (repo_register player)) (\<lambda>_. log_task env player ''register'' None))"

definition unregister_task :: "env \<Rightarrow> string \<Rightarrow> int task" where
  "unregister_task env player =
     after (atomic (is_registered player)) (\<lambda>known.
     if \<not> known then Return (Inl (Market_Error (Not_Registered player)))
     else
       after (atomic (unregister_cascade player)) (\<lambda>removed.
       after (atomic (announce env player ''unregister'' None)) (\<lambda>_.
       Return (Inr removed))))"

definition subscribe_task :: "env \<Rightarrow> string \<Rightarrow> int \<Rightarrow> item task" where
  "subscribe_task env player aoid =
     after (Return (aodb_get env aoid)) (\<lambda>found. case found of
       None \<Rightarrow> Return (Inl (Market_Error (Unknown_Item aoid)))
     | Some item \<Rightarrow>
     after (atomic (is_registered player)) (\<lambda>known.
     if \<not> known then
       after (log_task env player ''watch_denied'' (Some aoid)) (\<lambda>_.
       Return (Inl (Market_Error (Not_Registered player))))
     else
     after (atomic (get_subscription player aoid)) (\<lambda>existing.
     if existing \<noteq> None then Return (Inl (Market_Error (Already_Watching aoid)))
     else
     after (atomic (get_int ''MaxSubscriptionsPerPlayer'')) (\<lambda>limit.
     after (atomic (count_subscriptions player)) (\<lambda>count.
     if limit \<le> count then Return (Inl (Market_Error (Subscription_Limit limit)))
     else
     after (atomic (upsert_watch aoid (it_name item) (it_ql item) (it_icon item) False)) (\<lambda>is_new.
     after (if is_new then atomic (announce_tracked env (it_name item) False) else Return (Inr ())) (\<lambda>_.
     after (atomic (add_subscription player aoid)) (\<lambda>_.
     after (log_task env player ''watch'' (Some aoid)) (\<lambda>_.
     Return (Inr item))))))))))"

definition unsubscribe_task :: "env \<Rightarrow> string \<Rightarrow> int \<Rightarrow> bool task" where
  "unsubscribe_task env player aoid =
     after (atomic (delete_subscription player aoid)) (\<lambda>deleted.
     after (log_task env player ''unwatch'' (Some aoid)) (\<lambda>_.
     Return (Inr deleted)))"

definition unsubscribe_bulk_task :: "env \<Rightarrow> string \<Rightarrow> int list \<Rightarrow> (int list \<times> int list) task" where
  "unsubscribe_bulk_task env player aoids =
     fold_task (\<lambda>aoid acc. case acc of (removed, not_watched) \<Rightarrow>
       after (unsubscribe_task env player aoid) (\<lambda>deleted.
       Return (Inr (if deleted then (removed @ [aoid], not_watched) else (removed, not_watched @ [aoid])))))
     (sort (remdups aoids)) ([], [])"

definition unsubscribe_all_task :: "env \<Rightarrow> string \<Rightarrow> int task" where
  "unsubscribe_all_task env player =
     after (atomic (delete_all_subscriptions player)) (\<lambda>count.
     after (log_task env player ''unwatch_all'' None) (\<lambda>_.
     Return (Inr count)))"

definition set_price_filter_task :: "string \<Rightarrow> int \<Rightarrow> string \<Rightarrow> unit task" where
  "set_price_filter_task player aoid spec =
     after (atomic (require_subscription player aoid)) (\<lambda>_.
     after (Return (parse_range spec parse_credits)) (\<lambda>parsed. case parsed of
       None \<Rightarrow> Return (Inl (Market_Error (Invalid_Range spec)))
     | Some bounds \<Rightarrow> atomic (update_price_filter player aoid (fst bounds) (snd bounds))))"

definition set_ql_filter_task :: "string \<Rightarrow> int \<Rightarrow> string \<Rightarrow> unit task" where
  "set_ql_filter_task player aoid spec =
     after (atomic (require_subscription player aoid)) (\<lambda>_.
     after (Return (parse_range spec parse_ql)) (\<lambda>parsed. case parsed of
       None \<Rightarrow> Return (Inl (Market_Error (Invalid_Range spec)))
     | Some bounds \<Rightarrow> atomic (update_ql_filter player aoid (fst bounds) (snd bounds))))"

definition clear_filter_task :: "string \<Rightarrow> int \<Rightarrow> unit task" where
  "clear_filter_task player aoid =
     after (atomic (require_subscription player aoid)) (\<lambda>_. atomic (repo_clear_filter player aoid))"

section \<open>Issuing an API key\<close>

definition generate_key_task :: "auth_config \<Rightarrow> string \<Rightarrow> string \<Rightarrow> string task" where
  "generate_key_task auth player random =
     after (atomic (is_registered player)) (\<lambda>registered.
     after (if \<not> registered then atomic (repo_register player) else Return (Inr ())) (\<lambda>_.
     after (atomic (revoke_all_for_player player)) (\<lambda>_.
     let raw = generate_token random in
     after (atomic (key_create player (digest auth raw) (token_prefix raw))) (\<lambda>_.
     Return (Inr raw)))))"

section \<open>Without interruption\<close>

lemma log_alone: "alone (log_task env player action aoid) = log_action env player action aoid"
  by (simp add: log_task_def log_action_def alone_rules del: after.simps alone.simps)

lemma register_alone: "alone (register_task env player) = register env player"
  unfolding register_task_def register_def
  by (simp add: alone_rules log_alone del: after.simps alone.simps eff_simps cong: if_cong)

lemma unregister_alone: "alone (unregister_task env player) = unregister env player"
  unfolding unregister_task_def unregister_def
  by (simp add: alone_rules del: after.simps alone.simps eff_simps cong: if_cong)

lemma subscribe_alone: "alone (subscribe_task env player aoid) = subscribe env player aoid"
  unfolding subscribe_task_def subscribe_def watch_item_def
  by (simp add: alone_rules log_alone del: after.simps alone.simps eff_simps cong: if_cong option.case_cong)

lemma unsubscribe_alone: "alone (unsubscribe_task env player aoid) = unsubscribe env player aoid"
  unfolding unsubscribe_task_def unsubscribe_def
  by (simp add: alone_rules log_alone del: after.simps alone.simps eff_simps)

lemma unsubscribe_bulk_alone:
  "alone (unsubscribe_bulk_task env player aoids) = unsubscribe_bulk env player aoids"
proof -
  have "alone (case acc of (removed, not_watched) \<Rightarrow>
      after (unsubscribe_task env player aoid) (\<lambda>deleted.
      Return (Inr (if deleted then (removed @ [aoid], not_watched) else (removed, not_watched @ [aoid])))))
    = bulk_step env player aoid acc" for aoid acc
    by (cases acc) (simp add: bulk_step_def alone_rules unsubscribe_alone del: after.simps alone.simps eff_simps)
  then show ?thesis by (simp add: unsubscribe_bulk_task_def unsubscribe_bulk_def alone_fold)
qed

lemma unsubscribe_all_alone: "alone (unsubscribe_all_task env player) = unsubscribe_all env player"
  unfolding unsubscribe_all_task_def unsubscribe_all_def
  by (simp add: alone_rules log_alone del: after.simps alone.simps eff_simps)

lemma filters_alone:
  "alone (set_price_filter_task player aoid spec) = set_price_filter player aoid spec"
  "alone (set_ql_filter_task player aoid spec) = set_ql_filter player aoid spec"
  "alone (clear_filter_task player aoid) = clear_filter player aoid"
  unfolding set_price_filter_task_def set_price_filter_def set_ql_filter_task_def set_ql_filter_def
    clear_filter_task_def clear_filter_def
  by (simp_all add: alone_rules case_prod_unfold del: after.simps alone.simps eff_simps cong: option.case_cong)

lemma generate_key_alone: "alone (generate_key_task auth player random) = generate_key auth player random"
  unfolding generate_key_task_def generate_key_def Let_def
  by (simp add: alone_after alone_atomic alone_simps alone_Return
      del: after.simps alone.simps eff_simps cong: if_cong)

section \<open>Requests\<close>

datatype call =
  Register string | Unregister string | Subscribe string int | Unsubscribe string int
| Unsubscribe_Bulk string "int list" | Unsubscribe_All string | Price_Filter string int string
| Level_Filter string int string | Clear_Filter string int | Generate_Key string string

text \<open>What a request returns is not compared, so that all requests are tasks of one type.\<close>

definition finish :: "'a task \<Rightarrow> unit task" where
  "finish t = after t (\<lambda>_. Return (Inr ()))"

fun call_task :: "env \<Rightarrow> auth_config \<Rightarrow> call \<Rightarrow> unit task" where
  "call_task env auth (Register p) = register_task env p"
| "call_task env auth (Unregister p) = finish (unregister_task env p)"
| "call_task env auth (Subscribe p a) = finish (subscribe_task env p a)"
| "call_task env auth (Unsubscribe p a) = finish (unsubscribe_task env p a)"
| "call_task env auth (Unsubscribe_Bulk p as) = finish (unsubscribe_bulk_task env p as)"
| "call_task env auth (Unsubscribe_All p) = finish (unsubscribe_all_task env p)"
| "call_task env auth (Price_Filter p a spec) = set_price_filter_task p a spec"
| "call_task env auth (Level_Filter p a spec) = set_ql_filter_task p a spec"
| "call_task env auth (Clear_Filter p a) = clear_filter_task p a"
| "call_task env auth (Generate_Key p random) = finish (generate_key_task auth p random)"

section \<open>Every statement keeps what the services keep\<close>

inductive keeps_task :: "(world \<Rightarrow> bool) \<Rightarrow> 'a task \<Rightarrow> bool" for I where
  "keeps_task I (Return r)"
| "(\<And>w. I w \<Longrightarrow> I (snd (g w))) \<Longrightarrow> (\<And>w. keeps_task I (fst (g w))) \<Longrightarrow> keeps_task I (Act g)"

inductive_simps keeps_task_simps [simp]: "keeps_task I (Return r)" "keeps_task I (Act g)"

lemma keeps_task_atomic: "keeping I m \<Longrightarrow> keeps_task I (atomic m)"
  by (simp add: atomic_def split_beta keepingD)

lemma keeps_task_after:
  assumes "keeps_task I t" and "\<And>x. keeps_task I (f x)"
  shows "keeps_task I (after t f)"
  using assms(1)
proof induction
  case (1 r)
  then show ?case using assms(2) by (simp split: sum.split)
next
  case (2 g)
  then show ?case by (simp add: map_prod_def split_beta)
qed

lemma keeps_task_fold: "(\<And>x s. keeps_task I (f x s)) \<Longrightarrow> keeps_task I (fold_task f xs s)"
  by (induction xs arbitrary: s) (simp_all add: keeps_task_after)

lemmas keeps_tasks = keeps_task_after keeps_task_atomic keeps_task_fold

lemma keeps_task_advance:
  "keeps_task I t \<Longrightarrow> I w \<Longrightarrow> keeps_task I (fst (advance t w)) \<and> I (snd (advance t w))"
  by (cases t) simp_all

lemma keeps_task_schedule:
  "list_all (keeps_task I) ts \<Longrightarrow> I w \<Longrightarrow> I (snd (run_schedule turns ts w))"
proof (induction turns ts w rule: run_schedule.induct)
  case (2 i turns ts w)
  then show ?case
    using keeps_task_advance [of I "ts ! i" w]
    by (auto simp: list_all_length nth_list_update split: prod.split)
qed simp

text \<open>A new key is stored by a statement of its own; an invariant of the interleaved program has to
  survive it alone, which that of the single active key does not.\<close>

locale statement_invariant = world_invariant +
  assumes key_create [keeps]: "keeping I (key_create p h x)"
begin

lemma log_task: "keeps_task I (log_task env p a x)"
  unfolding log_task_def by (intro keeps_tasks keeps)

lemma registration_tasks:
  "keeps_task I (register_task env p)"
  "keeps_task I (unregister_task env p)"
  by (auto intro!: keeps_tasks keeps log_task simp: register_task_def unregister_task_def)

lemma subscribe_task: "keeps_task I (subscribe_task env p aoid)"
  unfolding subscribe_task_def
  by (auto intro!: keeps_tasks keeps log_task split: option.split sum.split)

lemma unsubscribe_tasks:
  "keeps_task I (unsubscribe_task env p aoid)"
  "keeps_task I (unsubscribe_bulk_task env p aoids)"
  "keeps_task I (unsubscribe_all_task env p)"
  by (auto intro!: keeps_tasks keeps log_task simp: unsubscribe_task_def unsubscribe_bulk_task_def
      unsubscribe_all_task_def delete_all_subscriptions_def split: prod.split)

lemma filter_tasks:
  "keeps_task I (set_price_filter_task p aoid spec)"
  "keeps_task I (set_ql_filter_task p aoid spec)"
  "keeps_task I (clear_filter_task p aoid)"
proof -
  have price: "keeps_task I (after (Return (parse_range spec parse_credits)) (\<lambda>parsed. case parsed of
       None \<Rightarrow> Return (Inl (Market_Error (Invalid_Range spec)))
     | Some bounds \<Rightarrow> atomic (update_price_filter p aoid (fst bounds) (snd bounds))))"
    by (auto intro!: keeps_task_atomic update_price_filter credit_bounds split: sum.split option.split)
  show "keeps_task I (set_price_filter_task p aoid spec)"
    unfolding set_price_filter_task_def by (rule keeps_task_after, rule keeps_task_atomic, rule keeps, rule price)
  have level: "keeps_task I (after (Return (parse_range spec parse_ql)) (\<lambda>parsed. case parsed of
       None \<Rightarrow> Return (Inl (Market_Error (Invalid_Range spec)))
     | Some bounds \<Rightarrow> atomic (update_ql_filter p aoid (fst bounds) (snd bounds))))"
    by (auto intro!: keeps_task_atomic update_ql_filter ql_bounds split: sum.split option.split)
  show "keeps_task I (set_ql_filter_task p aoid spec)"
    unfolding set_ql_filter_task_def by (rule keeps_task_after, rule keeps_task_atomic, rule keeps, rule level)
  show "keeps_task I (clear_filter_task p aoid)"
    unfolding clear_filter_task_def by (intro keeps_tasks keeps)
qed

lemma revoking [keeps]: "keeping I (revoke_all_for_player p)"
  using revoke_keys [of p] by (simp add: revoke_keys_def)

lemma key_task: "keeps_task I (generate_key_task auth p random)"
  unfolding generate_key_task_def Let_def by (auto intro!: keeps_tasks keeps)

lemma finish_task: "keeps_task I t \<Longrightarrow> keeps_task I (finish t)"
  by (simp add: finish_def keeps_task_after)

lemma call_task: "keeps_task I (call_task env auth c)"
  by (cases c) (simp_all add: finish_task registration_tasks subscribe_task unsubscribe_tasks filter_tasks key_task)

lemma any_schedule: "I w \<Longrightarrow> I (snd (run_schedule turns (map (call_task env auth) calls) w))"
  by (rule keeps_task_schedule) (simp_all add: list_all_iff call_task)

end

interpretation consistent: statement_invariant db_ok
  by unfold_locales (rule key_create_ok)

interpretation filters: statement_invariant filters_ok
  by unfold_locales (rule keepingI, simp add: key_create_def Let_def filters_ok_def)

end
