(* ===== verification/Races.thy ===== *)
theory Races
  imports Tasks
begin

text \<open>
  What interleaving can do to a limit. \<open>subscribe\<close> counts in one statement and inserts in a later one;
  the theorem bounds the subscriptions a player can end up with when requests of any kind are in
  flight together, and an example shows what becomes of the single active key.
\<close>

section \<open>How many subscriptions a coroutine can still add\<close>

definition owned :: "string \<Rightarrow> world \<Rightarrow> int" where
  "owned p w = count_where (\<lambda>s. sub_player s = p) (subs w)"

text \<open>A statement is \<open>steady\<close> when it adds no subscription of the player and leaves the limit alone.
  A coroutine is \<open>calm\<close> when all its statements are, \<open>armed\<close> when it may add one subscription
  without looking, and \<open>waiting\<close> when it becomes armed only on seeing room below the limit.\<close>

definition steady :: "string \<Rightarrow> world \<Rightarrow> world \<Rightarrow> bool" where
  "steady p w w' \<longleftrightarrow> owned p w' \<le> owned p w \<and> limit_of w' = limit_of w"

inductive calm :: "string \<Rightarrow> 'a task \<Rightarrow> bool" for p where
  "calm p (Return r)"
| "(\<And>w. steady p w (snd (g w))) \<Longrightarrow> (\<And>w. calm p (fst (g w))) \<Longrightarrow> calm p (Act g)"

inductive_simps calm_simps [simp]: "calm p (Return r)" "calm p (Act g)"

inductive armed :: "string \<Rightarrow> 'a task \<Rightarrow> bool" for p where
  "calm p t \<Longrightarrow> armed p t"
| "(\<And>w. steady p w (snd (g w)) \<and> armed p (fst (g w))
     \<or> owned p (snd (g w)) \<le> owned p w + 1 \<and> limit_of (snd (g w)) = limit_of w \<and> calm p (fst (g w)))
   \<Longrightarrow> armed p (Act g)"

inductive waiting :: "string \<Rightarrow> int \<Rightarrow> 'a task \<Rightarrow> bool" for p limit where
  "calm p t \<Longrightarrow> waiting p limit t"
| "(\<And>w. limit_of w = Inr limit \<Longrightarrow> steady p w (snd (g w))
     \<and> (waiting p limit (fst (g w)) \<or> owned p w < limit \<and> armed p (fst (g w))))
   \<Longrightarrow> waiting p limit (Act g)"

lemma steady_refl [simp]: "steady p w w"
  by (simp add: steady_def)

lemma calm_after:
  assumes "calm p t" and "\<And>x. calm p (f x)"
  shows "calm p (after t f)"
  using assms(1)
proof induction
  case (1 r)
  then show ?case using assms(2) by (simp split: sum.split)
next
  case (2 g)
  then show ?case by (simp add: map_prod_def split_beta)
qed

lemma armed_after:
  assumes "calm p t" and "\<And>x. armed p (f x)"
  shows "armed p (after t f)"
  using assms(1)
proof induction
  case (1 r)
  then show ?case using assms(2) by (auto simp: armed.intros split: sum.split)
next
  case (2 g)
  then show ?case by (auto simp: map_prod_def split_beta intro!: armed.intros(2))
qed

lemma waiting_after:
  assumes "calm p t" and "\<And>x. waiting p limit (f x)"
  shows "waiting p limit (after t f)"
  using assms(1)
proof induction
  case (1 r)
  then show ?case using assms(2) by (auto simp: waiting.intros split: sum.split)
next
  case (2 g)
  then show ?case by (auto simp: map_prod_def split_beta intro!: waiting.intros(2))
qed


section \<open>The statements of subscribing\<close>

lemma setting_get_settings:
  assumes "settings w' = settings w"
  shows "fst (setting_get key w') = fst (setting_get key w)"
  unfolding setting_get_simp assms by (simp split: option.split)

lemma limit_settings:
  assumes "settings w' = settings w"
  shows "limit_of w' = limit_of w"
proof -
  have run: "limit_of u = (case fst (setting_get ''MaxSubscriptionsPerPlayer'' u) of
      Inl e \<Rightarrow> Inl e | Inr v \<Rightarrow> (case v of SInt n \<Rightarrow> Inr n | _ \<Rightarrow> Inl Assertion_Error))" for u
    unfolding limit_of_def get_int_def bnd_def
    by (simp split: prod.split sum.split setting_value.split)
  show ?thesis unfolding run setting_get_settings [OF assms] ..
qed

lemma steadyI: "owned p w' \<le> owned p w \<Longrightarrow> settings w' = settings w \<Longrightarrow> steady p w w'"
  by (simp add: steady_def limit_settings [of w' w])

lemma owned_rules:
  "count_where P (delete_where Q rows) \<le> count_where P rows"
  "(\<And>s. P (f s) = P s) \<Longrightarrow> count_where P (update_where Q f rows) = count_where P rows"
proof -
  show "count_where P (delete_where Q rows) \<le> count_where P rows"
    by (induction rows) (auto simp: count_where_def delete_where_def)
  show "(\<And>s. P (f s) = P s) \<Longrightarrow> count_where P (update_where Q f rows) = count_where P rows"
    by (induction rows) (auto simp: count_where_def update_where_def)
qed

lemma calm_atomic: "(\<And>w. steady p w (snd (m w))) \<Longrightarrow> calm p (atomic m)"
  by (simp add: atomic_def split_beta)

lemma calm_reads:
  assumes "\<And>w. keeping (same_db w) m"
  shows "calm p (atomic m)"
  by (rule calm_atomic, rule steadyI)
    (use same_dbD [OF keepingD [OF assms same_db_refl]] in \<open>simp_all add: owned_def\<close>)

lemma calm_writes:
  "calm p (atomic (repo_register q))"
  "calm p (atomic (unregister_cascade q))"
  "calm p (atomic (upsert_watch aoid n ql i auto))"
  "calm p (atomic (delete_subscription q aoid))"
  "calm p (atomic (delete_all_subscriptions q))"
  "calm p (atomic (update_price_filter q aoid lo hi))"
  "calm p (atomic (update_ql_filter q aoid lo hi))"
  "calm p (atomic (repo_clear_filter q aoid))"
  "calm p (atomic (repo_log_action q a x))"
  "calm p (atomic (revoke_all_for_player q))"
  "calm p (atomic (key_create q h pre))"
  by (rule calm_atomic, rule steadyI;
      simp add: repo_register_def unregister_cascade_def delete_users_def upsert_watch_def get_watch_def
        delete_subscription_def delete_all_subscriptions_def count_subscriptions_def update_price_filter_def
        update_ql_filter_def repo_clear_filter_def update_subs_def repo_log_action_def
        revoke_all_for_player_def key_create_def with_params_def Let_def owned_def owned_rules bnd_def;
      (rule order_trans [OF owned_rules(1) owned_rules(1)])?)+

lemma calm_log: "calm p (log_task env q a x)"
  unfolding log_task_def by (rule calm_after) (intro calm_writes calm_reads keeps)+

lemma calm_fold: "(\<And>x s. calm p (f x s)) \<Longrightarrow> calm p (fold_task f xs s)"
  by (induction xs arbitrary: s) (simp_all add: calm_after)

lemma add_subscription_step:
  "limit_of (snd (add_subscription q aoid w)) = limit_of w"
  "owned p (snd (add_subscription q aoid w)) \<le> owned p w + (if q = p then 1 else 0)"
proof -
  show "limit_of (snd (add_subscription q aoid w)) = limit_of w"
    by (rule limit_settings) (simp add: add_subscription_def with_params_def)
  show "owned p (snd (add_subscription q aoid w)) \<le> owned p w + (if q = p then 1 else 0)"
    by (simp add: owned_def add_subscription_def with_params_def count_where_def new_sub_def)
qed

lemma calm_add: "q \<noteq> p \<Longrightarrow> calm p (atomic (add_subscription q aoid))"
  using add_subscription_step(2) [of p q] by (simp add: calm_atomic steady_def add_subscription_step(1))

lemma armed_add:
  assumes "\<And>x. calm p (f x)"
  shows "armed p (after (atomic (add_subscription q aoid)) f)"
  unfolding after_atomic
proof (rule armed.intros(2), rule disjI2)
  let ?g = "\<lambda>w. case add_subscription q aoid w of
      (Inl e, w') \<Rightarrow> (Return (Inl e), w') | (Inr x, w') \<Rightarrow> (f x, w')"
  fix w
  have "snd (?g w) = snd (add_subscription q aoid w)" "calm p (fst (?g w))"
    using assms by (simp_all split: prod.split sum.split)
  then show "owned p (snd (?g w)) \<le> owned p w + 1 \<and> limit_of (snd (?g w)) = limit_of w \<and> calm p (fst (?g w))"
    using add_subscription_step(1) [of q aoid w] add_subscription_step(2) [of p q aoid w]
    by (simp split: if_splits)
qed

lemma waiting_atomic:
  assumes "\<And>w. limit_of w = Inr limit \<Longrightarrow> steady p w (snd (m w)) \<and>
    (\<forall>x. fst (m w) = Inr x \<longrightarrow> waiting p limit (f x) \<or> owned p w < limit \<and> armed p (f x))"
  shows "waiting p limit (after (atomic m) f)"
  unfolding after_atomic
proof (rule waiting.intros(2))
  let ?g = "\<lambda>w. case m w of (Inl e, w') \<Rightarrow> (Return (Inl e), w') | (Inr x, w') \<Rightarrow> (f x, w')"
  fix w assume "limit_of w = Inr limit"
  from assms [OF this] show "steady p w (snd (?g w))
      \<and> (waiting p limit (fst (?g w)) \<or> owned p w < limit \<and> armed p (fst (?g w)))"
    by (auto simp: waiting.intros(1) split: prod.splits sum.splits)
qed

lemma armed_inserts:
  "armed p (after (atomic (upsert_watch aoid n ql i False)) (\<lambda>is_new.
     after (if is_new then atomic (announce_tracked env n False) else Return (Inr ())) (\<lambda>_.
     after (atomic (add_subscription q aoid)) (\<lambda>_.
     after (log_task env q ''watch'' (Some aoid)) (\<lambda>_. Return (Inr item))))))"
proof -
  have "calm p (if b then atomic (announce_tracked env n False) else Return (Inr ()))" for b
    by (simp add: calm_reads keeps)
  then show ?thesis by (intro armed_after armed_add calm_after calm_writes calm_log) simp_all
qed

lemma calm_inserts:
  assumes "q \<noteq> p"
  shows "calm p (after (atomic (upsert_watch aoid n ql i False)) (\<lambda>is_new.
     after (if is_new then atomic (announce_tracked env n False) else Return (Inr ())) (\<lambda>_.
     after (atomic (add_subscription q aoid)) (\<lambda>_.
     after (log_task env q ''watch'' (Some aoid)) (\<lambda>_. Return (Inr item))))))"
proof -
  have "calm p (if b then atomic (announce_tracked env n False) else Return (Inr ()))" for b
    by (simp add: calm_reads keeps)
  then show ?thesis using assms by (intro calm_after calm_writes calm_log calm_add) simp_all
qed

lemma calm_subscribe: "q \<noteq> p \<Longrightarrow> calm p (subscribe_task env q aoid)"
  unfolding subscribe_task_def
  by (auto intro!: calm_after calm_reads calm_inserts calm_log keeps split: option.split sum.split)

lemma waiting_subscribe: "waiting p limit (subscribe_task env p aoid)"
proof -
  have check: "waiting p limit (after (atomic (count_subscriptions p)) (\<lambda>count.
      if limit \<le> count then Return (Inl (Market_Error (Subscription_Limit limit))) else t))"
    if "armed p t" for t :: "item task"
    using that by (intro waiting_atomic) (auto simp: count_subscriptions_def owned_def waiting.intros(1))
  have read: "waiting p limit (after (atomic (get_int ''MaxSubscriptionsPerPlayer'')) (\<lambda>found.
      after (atomic (count_subscriptions p)) (\<lambda>count.
      if found \<le> count then Return (Inl (Market_Error (Subscription_Limit found))) else t)))"
    if "armed p t" for t :: "item task"
  proof (rule waiting_atomic)
    fix w assume "limit_of w = Inr limit"
    then have "get_int ''MaxSubscriptionsPerPlayer'' w = (Inr limit, w)"
      by (simp add: get_int_Inr limit_of_def)
    with check [OF that] show "steady p w (snd (get_int ''MaxSubscriptionsPerPlayer'' w)) \<and>
        (\<forall>found. fst (get_int ''MaxSubscriptionsPerPlayer'' w) = Inr found \<longrightarrow>
          waiting p limit (after (atomic (count_subscriptions p)) (\<lambda>count.
            if found \<le> count then Return (Inl (Market_Error (Subscription_Limit found))) else t))
          \<or> owned p w < limit \<and> armed p (after (atomic (count_subscriptions p)) (\<lambda>count.
            if found \<le> count then Return (Inl (Market_Error (Subscription_Limit found))) else t)))"
      by simp
  qed
  have denied: "waiting p limit (after (log_task env p a x) (\<lambda>_. Return r))" for a x and r :: "exn + item"
    by (intro waiting.intros(1) calm_after calm_log) simp
  have refused: "waiting p limit (Return r)" for r :: "exn + item"
    by (intro waiting.intros(1)) simp
  have known: "waiting p limit (after (atomic (is_registered p)) f)"
    if "\<And>x. waiting p limit (f x)" for f :: "bool \<Rightarrow> item task"
    by (intro waiting_after calm_reads keeps that)
  have existing: "waiting p limit (after (atomic (get_subscription p aoid)) f)"
    if "\<And>x. waiting p limit (f x)" for f :: "sub_row option \<Rightarrow> item task"
    by (intro waiting_after calm_reads keeps that)
  show ?thesis
    unfolding subscribe_task_def
    by (auto intro!: known existing denied refused read [OF armed_inserts] split: option.split sum.split)
qed


section \<open>The other requests\<close>

lemma calm_tasks:
  "calm p (register_task env q)"
  "calm p (unregister_task env q)"
  "calm p (unsubscribe_task env q aoid)"
  "calm p (unsubscribe_bulk_task env q aoids)"
  "calm p (unsubscribe_all_task env q)"
  "calm p (set_price_filter_task q aoid spec)"
  "calm p (set_ql_filter_task q aoid spec)"
  "calm p (clear_filter_task q aoid)"
  "calm p (generate_key_task auth q random)"
  unfolding register_task_def unregister_task_def unsubscribe_bulk_task_def unsubscribe_all_task_def
    unsubscribe_task_def set_price_filter_task_def set_ql_filter_task_def clear_filter_task_def
    generate_key_task_def Let_def
  by (auto intro!: calm_after calm_fold calm_writes calm_log calm_reads keeps split: prod.split option.split sum.split)

fun subscribes :: "string \<Rightarrow> call \<Rightarrow> bool" where
  "subscribes p (Subscribe q a) = (q = p)"
| "subscribes p _ = False"

lemma calm_finish: "calm p t \<Longrightarrow> calm p (finish t)"
  by (simp add: finish_def calm_after)

lemma armed_then:
  assumes "armed p t" and "\<And>x. calm p (f x)"
  shows "armed p (after t f)"
  using assms(1)
proof induction
  case (1 t)
  then show ?case using assms(2) by (intro armed.intros(1) calm_after)
next
  case (2 g)
  have "steady p w (snd (g w)) \<and> armed p (after (fst (g w)) f)
      \<or> owned p (snd (g w)) \<le> owned p w + 1 \<and> limit_of (snd (g w)) = limit_of w
        \<and> calm p (after (fst (g w)) f)" for w
    using 2 [of w] calm_after [of p "fst (g w)" f, OF _ assms(2)] by blast
  then show ?case by (simp add: map_prod_def split_beta armed.intros(2))
qed

lemma waiting_then:
  assumes "waiting p limit t" and "\<And>x. calm p (f x)"
  shows "waiting p limit (after t f)"
  using assms(1)
proof induction
  case (1 t)
  then show ?case using assms(2) by (intro waiting.intros(1) calm_after)
next
  case (2 g)
  have "steady p w (snd (g w)) \<and> (waiting p limit (after (fst (g w)) f)
      \<or> owned p w < limit \<and> armed p (after (fst (g w)) f))" if "limit_of w = Inr limit" for w
    using 2 [OF that] armed_then [of p "fst (g w)" f, OF _ assms(2)] by blast
  then show ?case by (simp add: map_prod_def split_beta waiting.intros(2))
qed

lemma waiting_finish: "waiting p limit t \<Longrightarrow> waiting p limit (finish t)"
  unfolding finish_def by (rule waiting_then) simp_all

lemma call_phases:
  "\<not> subscribes p c \<Longrightarrow> calm p (call_task env auth c)"
  "subscribes p c \<Longrightarrow> waiting p limit (call_task env auth c)"
  by (cases c; simp add: calm_finish calm_tasks calm_subscribe)
    (cases c; simp add: waiting_finish waiting_subscribe)

section \<open>Any schedule\<close>

lemma calm_advance: "calm p t \<Longrightarrow> calm p (fst (advance t w)) \<and> steady p w (snd (advance t w))"
  by (cases t) simp_all

lemma armed_advance:
  assumes "armed p t"
  shows "steady p w (snd (advance t w)) \<and> armed p (fst (advance t w))
    \<or> owned p (snd (advance t w)) \<le> owned p w + 1 \<and> limit_of (snd (advance t w)) = limit_of w
      \<and> calm p (fst (advance t w))"
  using assms
proof cases
  case 1
  with calm_advance [OF 1, of w] armed.intros(1) show ?thesis by blast
qed auto

lemma waiting_advance:
  assumes "waiting p limit t" and "limit_of w = Inr limit"
  shows "steady p w (snd (advance t w))
    \<and> (waiting p limit (fst (advance t w)) \<or> owned p w < limit \<and> armed p (fst (advance t w)))"
  using assms(1)
proof cases
  case 1
  with calm_advance [OF 1, of w] waiting.intros(1) show ?thesis by blast
qed (use assms(2) in auto)

text \<open>Of the coroutines \<open>S\<close> of the player, those of \<open>A\<close> have seen room; the others wait, and the
  coroutines of other players are calm.\<close>

definition phases :: "string \<Rightarrow> int \<Rightarrow> nat set \<Rightarrow> nat set \<Rightarrow> 'a task list \<Rightarrow> bool" where
  "phases p limit S A ts \<longleftrightarrow> A \<subseteq> S \<and> S \<subseteq> {..<length ts} \<and>
     (\<forall>i<length ts. if i \<in> A then armed p (ts ! i)
        else if i \<in> S then waiting p limit (ts ! i) else calm p (ts ! i))"

lemma phases_update:
  assumes "phases p limit S A ts" and "B \<subseteq> S" and "\<And>j. j \<noteq> i \<Longrightarrow> j \<in> B \<longleftrightarrow> j \<in> A"
    and "if i \<in> B then armed p t else if i \<in> S then waiting p limit t else calm p t"
  shows "phases p limit S B (ts[i := t])"
proof -
  have "if j \<in> B then armed p (ts[i := t] ! j)
      else if j \<in> S then waiting p limit (ts[i := t] ! j) else calm p (ts[i := t] ! j)"
    if "j < length ts" for j
    using assms(1,3,4) that by (cases "j = i") (simp_all add: phases_def)
  with assms(1,2) show ?thesis by (simp add: phases_def)
qed

lemma phases_advance:
  assumes ph: "phases p limit S A ts" and i: "i < length ts" and lim: "limit_of w = Inr limit"
    and below: "owned p w + int (card A) \<le> bound" and room: "limit - 1 + int (card S) \<le> bound"
    and step: "advance (ts ! i) w = (t, w')"
  shows "\<exists>B. phases p limit S B (ts[i := t]) \<and> limit_of w' = Inr limit \<and> owned p w' + int (card B) \<le> bound"
proof -
  have fin: "finite S" using ph by (auto simp: phases_def intro: finite_subset)
  then have finA: "finite A" using ph by (auto simp: phases_def intro: finite_subset)
  have at: "if i \<in> A then armed p (ts ! i) else if i \<in> S then waiting p limit (ts ! i) else calm p (ts ! i)"
    using ph i by (simp add: phases_def)
  have stay: "phases p limit S A (ts[i := t])"
    if "if i \<in> A then armed p t else if i \<in> S then waiting p limit t else calm p t"
    using ph that by (intro phases_update [OF ph]) (auto simp: phases_def)
  have steady: ?thesis
    if "steady p w w'" "if i \<in> A then armed p t else if i \<in> S then waiting p limit t else calm p t"
    using stay [OF that(2)] that(1) lim below by (intro exI [of _ A]) (auto simp: steady_def)
  consider (armed) "i \<in> A" "armed p (ts ! i)" | (waiting) "i \<in> S" "i \<notin> A" "waiting p limit (ts ! i)"
    | (calm) "i \<notin> S" "i \<notin> A" "calm p (ts ! i)"
    using at ph by (auto simp: phases_def split: if_splits)
  then show ?thesis
  proof cases
    case armed
    show ?thesis
      using armed_advance [OF armed(2), of w] step
    proof (elim disjE conjE)
      assume "owned p (snd (advance (ts ! i) w)) \<le> owned p w + 1" "calm p (fst (advance (ts ! i) w))"
        "limit_of (snd (advance (ts ! i) w)) = limit_of w"
      moreover from this have "phases p limit S (A - {i}) (ts[i := t])"
        using ph step armed by (intro phases_update [OF ph]) (auto simp: phases_def intro: waiting.intros(1))
      moreover have "int (card (A - {i})) = int (card A) - 1"
        using armed finA by (simp add: card_Diff_singleton of_nat_diff card_gt_0_iff Suc_le_eq)
          (metis One_nat_def Suc_leI card_gt_0_iff empty_iff of_nat_1 of_nat_diff)
      ultimately show ?thesis using step lim below by (intro exI [of _ "A - {i}"]) simp
    qed (use armed step steady in auto)
  next
    case waiting
    show ?thesis
      using waiting_advance [OF waiting(3) lim] step
    proof (elim disjE conjE)
      assume seen: "owned p w < limit" "armed p (fst (advance (ts ! i) w))"
        and "steady p w (snd (advance (ts ! i) w))"
      moreover from this have "phases p limit S (insert i A) (ts[i := t])"
        using ph step waiting by (intro phases_update [OF ph]) (auto simp: phases_def)
      moreover have "card (insert i A) \<le> card S"
        using ph waiting fin by (auto simp: phases_def intro: card_mono)
      ultimately show ?thesis
        using step lim room by (intro exI [of _ "insert i A"]) (auto simp: steady_def)
    qed (use waiting step steady in auto)
  next
    case calm
    with calm_advance [OF calm(3), of w] step steady show ?thesis by auto
  qed
qed

lemma schedule_bound:
  assumes "phases p limit S A ts" and "limit_of w = Inr limit"
    and "owned p w + int (card A) \<le> bound" and "limit - 1 + int (card S) \<le> bound"
  shows "owned p (snd (run_schedule turns ts w)) \<le> bound"
  using assms
proof (induction turns ts w arbitrary: A rule: run_schedule.induct)
  case (2 i turns ts w)
  show ?case
  proof (cases "i < length ts")
    case True
    obtain t w' where step: "advance (ts ! i) w = (t, w')" by fastforce
    from phases_advance [OF "2.prems"(1) True "2.prems"(2-4) step] obtain B where
      "phases p limit S B (ts[i := t])" "limit_of w' = Inr limit" "owned p w' + int (card B) \<le> bound" by blast
    with True step show ?thesis using "2.IH"(1) [OF True step [symmetric]] "2.prems"(4) by simp
  next
    case False
    then show ?thesis using 2 by simp
  qed
qed simp

section \<open>Properties\<close>


definition race_env :: env where
  "race_env = sample_env\<lparr>aodb_get := \<lambda>a. Inr (Some sample_item)\<rparr>"

definition race_world :: world where
  "race_world = sample_world\<lparr>settings := [new_setting ''MaxSubscriptionsPerPlayer'' ''1'' VInt 0,
     new_setting ''LogToPrivateChannel'' ''False'' VBool 0]\<rparr>"

definition race_turns :: "nat list" where
  "race_turns = replicate 4 0 @ replicate 4 1 @ replicate 5 0 @ replicate 5 1"

definition no_auth :: auth_config where
  "no_auth = \<lparr>owner_character = [], digest = (\<lambda>t. t)\<rparr>"

definition race_calls :: "call list" where
  "race_calls = [Subscribe ''Ann'' 100, Subscribe ''Ann'' 200, Generate_Key ''Ann'' ''x'', Generate_Key ''Ann'' ''y'']"


text \<open>Revoking the old keys and storing the new one are two statements as well: two requests that
  both revoke before either stores leave the player with two active keys, although one request after
  the other leaves one. The tables stay consistent all the same.\<close>

lemma key_requests_race:
  "one_active race_world
   \<and> one_active (snd (run_schedule [2, 2, 2, 3, 3, 3] (map (call_task race_env no_auth) race_calls) race_world))
   \<and> \<not> one_active (snd (run_schedule [2, 2, 3, 3, 2, 3] (map (call_task race_env no_auth) race_calls) race_world))"
  by (intro conjI; code_simp)

end
