(* ===== verification/Spec2Isabelle.thy ===== *)
theory Spec2Isabelle
  imports Crypto Alerts Command_Grammar Chat_Errors Chat_Isolation Migrations Watchlists Races
begin

text \<open>
  A model of the aomarket bot: a program that follows the market of the game Anarchy Online. It
  polls the prices of tracked items, alerts players who watch an item about new orders, and is used
  through the chat of the game and through an HTTP API. Paths below are relative to
  \<open>src/src/aomarket\<close>.

  \<^bold>\<open>The program and its parts.\<close> \<open>main.py\<close> seeds the settings and starts two threads: the bot
  (\<open>bot/runner.py\<close>), which speaks the chat protocol (\<open>aochat/\<close>), answers chat commands
  (\<open>market/commands.py\<close>, \<open>bot/admin_commands.py\<close>) and runs two loops (\<open>bot/scheduler.py\<close>), and the API
  (\<open>api/\<close>). Both call the same services (\<open>market/service.py\<close>, \<open>auth/service.py\<close>), which work on a
  PostgreSQL database through repositories (\<open>db/\<close>) and ask three web services (\<open>aodb/\<close>, \<open>gmi/\<close>,
  \<open>autotrack/\<close>). The tables are made by the migrations beside the package.

  \<^bold>\<open>Conventions.\<close> \<open>Prelude\<close> fixes them: a \<open>str\<close> is a \<open>string\<close> of Latin-1 characters, an \<open>int\<close> an \<open>int\<close>, an
  exception a constructor of \<open>exn\<close>, code that can fail an \<open>exn + 'a\<close>, and code with effects an \<open>eff\<close>,
  a function from a world to a result and a world; an exception keeps the world reached so far. The
  collections \<open>keeps\<close> (operations that keep an invariant), \<open>raising\<close> and \<open>guards\<close> (exceptions an
  operation can raise) carry the proofs of the effectful code. \<open>Py_Float\<close> and \<open>Py_Time\<close> are the parts
  of \<open>float\<close> and \<open>datetime\<close> the program computes with, \<open>Regex\<close> the part of \<open>re\<close> its patterns use, with
  backtracking and groups, and a relation \<open>consumes\<close> the matcher is proved to implement.

  \<^bold>\<open>The chat protocol.\<close>
  \<^item> \<open>Packet\<close>: \<open>aochat/packet.py\<close>, the framing of \<open>aochat/protocol.py\<close>. Codecs of packets and of the
    stream, every failing branch included. Locale \<open>item_codec\<close>: a parser that undoes a printer does
    so for sequences. C1 and C2 are the round trips, C3 says when encoding succeeds.
  \<^item> \<open>Crypto\<close>: \<open>aochat/crypto.py\<close>. The masked integer code is TEA on words (C4), and the server can
    open the login key (C5). Locale \<open>block_cipher\<close>: chaining over any invertible block function.
  \<^item> \<open>Chat_Client\<close>, \<open>Reader\<close>, \<open>Lookups\<close>: \<open>aochat/client.py\<close>. The reader is specified as serving a list of
    events; \<open>session_handlers\<close> states what it needs of a handler, and the bot's handler satisfies
    it. C26 is the refinement, C27 termination, C28 and C29 say which answer a name lookup gets,
    C30 what a login has exchanged.

  \<^bold>\<open>The database.\<close>
  \<^item> \<open>Tables\<close> and \<open>Db\<close>: tables as lists of rows with their keys, cascades, sequences and column ranges
    (\<open>db/models.py\<close>), and \<open>db/market_repo.py\<close>. \<open>db_ok\<close> says that all constraints hold. \<open>Settings\<close>,
    \<open>Backoff\<close> and \<open>Auth\<close>: the other repositories and \<open>auth/service.py\<close>. Their locales \<open>seen_store\<close>,
    \<open>setting_store\<close>, \<open>lookup_backoff\<close> and \<open>key_store\<close> are the contracts the callers rest on. C9 and C10:
    what a setting reads back; C11 and C12: the delays between lookups and who is due; C13 and
    C14: issuing and revoking keys.
  \<^item> \<open>Migrations\<close>: the three revisions as operations on a schema, and the chain that Alembic follows;
    they lead to the tables the models declare (C38).

  \<^bold>\<open>Clients and services.\<close>
  \<^item> \<open>Clients\<close>: \<open>aodb/\<close>, \<open>gmi/\<close>, \<open>autotrack/\<close>; JSON of any shape goes through them as in Python (C15).
  \<^item> \<open>Parsing\<close>, \<open>Rendering\<close>: \<open>market/parsing.py\<close> and \<open>market/rendering.py\<close>. Amounts are parsed exactly
    although the code computes with floats (C6), and C7 and C8 say what is accepted.
  \<^item> \<open>Service\<close> and \<open>Polling\<close>: every method of \<open>market/service.py\<close>. \<open>Subscriptions\<close>, \<open>Players\<close> and \<open>Alerts\<close>
    prove what they do, on success and on refusal (C16 to C21).
  \<^item> \<open>Invariants\<close>: the locale \<open>world_invariant\<close> lists what an invariant must satisfy at each statement;
    inside it every method of the services keeps it. Interpreted for \<open>db_ok\<close>, for the order of
    filter bounds and for at most one active key.

  \<^bold>\<open>The two front ends.\<close>
  \<^item> \<open>Commands\<close>, \<open>Admin_Commands\<close>, \<open>Chat\<close>: the chat commands. The patterns recognise every command as
    spelled (C22, \<open>Command_Grammar\<close>), which exceptions come out (C23, \<open>Chat_Errors\<close>), whose rows are
    touched (C24, \<open>Chat_Isolation\<close>), and that administrators keep the types of settings (C25,
    \<open>Admin_Settings\<close> over \<open>Typed_Settings\<close>).
  \<^item> \<open>Schemas\<close>, \<open>Api\<close>: the routes with their guards, conversions and status codes. Without a key
    nothing is changed (C33, \<open>Api_Guard\<close>), a 500 has a cause outside (C34, \<open>Api_Errors\<close>), and the API
    implements a map of watchlists (C39, \<open>Watchlists\<close>).

  \<^bold>\<open>The whole.\<close>
  \<^item> \<open>Bot\<close>, \<open>Bot_Login\<close>, \<open>Bot_Reader\<close>, \<open>Scheduler\<close>: \<open>bot/\<close>. The poll loop survives whatever a cycle does
    (C31), the other loop as long as its interval is a float (C32).
  \<^item> \<open>Config\<close>, \<open>Startup\<close>: \<open>config.py\<close> and \<open>main.py\<close>; the database URL reads back (C36), and the migrations
    refuse it when a credential is percent-encoded (C37).
  \<^item> \<open>Reachable\<close>: the program as a state machine over requests, packets, cycles, lookups, failures and
    restarts, and the invariant of all reachable states (C35).
  \<^item> \<open>Tasks\<close>, \<open>Races\<close>: the methods that write for a player, cut at their statements and interleaved in
    any order. Run without interruption each is the method of \<open>Service\<close> or \<open>Auth\<close>. The locale
    \<open>statement_invariant\<close> says what survives every schedule, and \<open>calm\<close>, \<open>armed\<close> and \<open>waiting\<close> how many
    subscriptions a coroutine can still add. Subscribing and issuing keys check in one statement and
    act in a later one: C40 bounds what that can lead to, and its witness and \<open>key_requests_race\<close> show
    that it happens.

  \<^bold>\<open>Bounds.\<close> Loops are structural recursions wherever the code iterates over a list. The reader is a
  \<open>partial_function (option)\<close>, where \<open>None\<close> is a run that does not return, and C27 says that it returns:
  each round takes the four bytes of a header off a finite stream. The background loops are folds
  over the cycles that have happened. Following the revisions takes as many steps as there are
  revisions, which is the fuel given. Integers are unbounded as in Python, and are checked against
  the width of the field or column they go into (16 and 32 bits in packets, 32 and 64 in columns).

  \<^bold>\<open>What is assumed of code outside.\<close> These are arguments of the definitions: what HTTP servers, the
  item database and the price feed answer, the sinks of chat messages, the order in which a Python
  set is traversed, the digest of a token (C13 and C14 assume that it separates the tokens they
  speak of), random bytes, the clock. PostgreSQL is modelled by its documented behaviour on the
  statements used: a method of a repository is one transaction, a violated constraint raises
  \<open>Integrity_Error\<close> and changes at most a sequence, a number that does not fit its column is refused
  by the driver, and DDL in a migration is transactional. The same holds for \<open>ConfigParser\<close>, for
  \<open>urllib.parse.quote\<close> and for \<open>asyncio.sleep\<close>. In \<open>Reachable\<close> a request, a packet or a cycle runs as a
  whole, except for the wait of a name lookup; \<open>Tasks\<close> drops this for the methods that write for a player.

  \<^bold>\<open>Not modelled.\<close> \<open>logging.py\<close> and the log lines, which nothing reads back; the engine and the pool of
  SQLAlchemy (\<open>db/engine.py\<close>), opening sockets and sessions, and creating and cancelling tasks, which
  are calls of libraries; matching paths and validating bodies, which FastAPI does before a route
  is called; Alembic's offline mode, which prints SQL; \<open>get_float\<close> of the settings, which nothing
  calls; reading the environment, which pydantic does; the Helm chart, the container files and the
  tests.
\<close>

end
